(* ===== verification/Prelude.thy ===== *)
theory Prelude
  imports Complex_Main "HOL-Library.AList"
begin

text \<open>
  What every component of the development shares: the exceptions the Python code raises or
  catches, methods as state transformers that may raise, and Python dictionaries as association
  lists in insertion order, with the lemmas that carry the component proofs.
\<close>

section \<open>Exceptions\<close>

text \<open>
  The exception classes that the code raises, catches, or can meet in the operations it uses.
  \<open>OSError\<close> carries \<open>errno\<close>; every class the code does not tell apart is an
  \<open>OtherError\<close> with a number of its own.
\<close>

datatype pyerr =
    ValueError
  | TypeError
  | KeyError
  | IndexError
  | AttributeError
  | ZeroDivisionError
  | OverflowError
  | UnboundLocalError
  | NotImplementedError
  | RuntimeError
  | OSError int
  | OtherError nat

section \<open>Methods that may raise\<close>

text \<open>
  A Python method is a function from the object's state to its outcome and the state it
  leaves: an exception does not undo the assignments made before it.
\<close>

type_synonym 'a res = "pyerr + 'a"
type_synonym ('s, 'a) py = "'s \<Rightarrow> 'a res \<times> 's"

definition py_return :: "'a \<Rightarrow> ('s, 'a) py" where
  "py_return a = (\<lambda>s. (Inr a, s))"

definition py_raise :: "pyerr \<Rightarrow> ('s, 'a) py" where
  "py_raise e = (\<lambda>s. (Inl e, s))"

definition py_bind :: "('s, 'a) py \<Rightarrow> ('a \<Rightarrow> ('s, 'b) py) \<Rightarrow> ('s, 'b) py" where
  "py_bind m f = (\<lambda>s. case m s of (Inl e, s') \<Rightarrow> (Inl e, s') | (Inr a, s') \<Rightarrow> f a s')"

definition py_get :: "('s \<Rightarrow> 'a) \<Rightarrow> ('s, 'a) py" where
  "py_get f = (\<lambda>s. (Inr (f s), s))"

definition py_set :: "('s \<Rightarrow> 's) \<Rightarrow> ('s, unit) py" where
  "py_set f = (\<lambda>s. (Inr (), f s))"

definition py_lift :: "'a res \<Rightarrow> ('s, 'a) py" where
  "py_lift r = (\<lambda>s. (r, s))"

primrec py_for :: "'a list \<Rightarrow> ('a \<Rightarrow> ('s, unit) py) \<Rightarrow> ('s, unit) py" where
  "py_for [] body = py_return ()"
| "py_for (x # xs) body = py_bind (body x) (\<lambda>_. py_for xs body)"

fun res_bind :: "'a res \<Rightarrow> ('a \<Rightarrow> 'b res) \<Rightarrow> 'b res" where
  "res_bind (Inl e) f = Inl e"
| "res_bind (Inr a) f = f a"

named_theorems py_monad \<open>unfolding rules of the method combinators\<close>

declare py_return_def [py_monad] and py_raise_def [py_monad] and py_bind_def [py_monad]
  and py_get_def [py_monad] and py_set_def [py_monad] and py_lift_def [py_monad]

lemma py_bind_Inr_iff:
  "py_bind m f s = (Inr b, s'') \<longleftrightarrow>
     (\<exists>a s'. m s = (Inr a, s') \<and> f a s' = (Inr b, s''))"
  by (auto simp: py_bind_def split: prod.splits sum.splits)

lemma py_bind_Inr [simp]: "m s = (Inr a, s') \<Longrightarrow> py_bind m f s = f a s'"
  by (simp add: py_bind_def)

lemma py_bind_Inl [simp]: "m s = (Inl e, s') \<Longrightarrow> py_bind m f s = (Inl e, s')"
  by (simp add: py_bind_def)

lemma py_bind_InrE:
  assumes "py_bind m f s = (Inr b, s'')"
  obtains a s' where "m s = (Inr a, s')" "f a s' = (Inr b, s'')"
  using assms by (auto simp: py_bind_Inr_iff)

lemma py_return_Inr_iff: "py_return a s = (Inr b, s') \<longleftrightarrow> b = a \<and> s' = s"
  by (auto simp: py_return_def)

lemma py_get_Inr_iff: "py_get f s = (Inr b, s') \<longleftrightarrow> b = f s \<and> s' = s"
  by (auto simp: py_get_def)

lemma py_set_Inr_iff: "py_set f s = (Inr b, s') \<longleftrightarrow> s' = f s"
  by (auto simp: py_set_def)

lemma py_lift_Inr_iff: "py_lift r s = (Inr b, s') \<longleftrightarrow> r = Inr b \<and> s' = s"
  by (auto simp: py_lift_def)

lemma py_raise_Inr [simp]: "py_raise e s \<noteq> (Inr b, s')"
  by (simp add: py_raise_def)

lemmas py_Inr_iffs = py_bind_Inr_iff py_return_Inr_iff py_get_Inr_iff py_set_Inr_iff
  py_lift_Inr_iff

text \<open>
  A loop keeps whatever its body keeps, and an invariant indexed by the elements done so far
  holds for the whole list at the end.
\<close>

lemma py_for_Cons_InrE:
  assumes "py_for (x # xs) body s = (Inr u, s'')"
  obtains s' where "body x s = (Inr (), s')" "py_for xs body s' = (Inr u, s'')"
  using assms by (auto simp: py_bind_Inr_iff)

lemma py_for_append_inv:
  assumes "py_for xs body s = (Inr u, s')" and "I ys s"
    and "\<And>x zs s s'. \<lbrakk>x \<in> set xs; I zs s; body x s = (Inr (), s')\<rbrakk> \<Longrightarrow> I (zs @ [x]) s'"
  shows "I (ys @ xs) s'"
  using assms
proof (induction xs arbitrary: ys s)
  case Nil
  then show ?case by (simp add: py_return_def)
next
  case (Cons x xs)
  from Cons.prems(1) obtain s1 where
    step: "body x s = (Inr (), s1)" and rest: "py_for xs body s1 = (Inr u, s')"
    by (rule py_for_Cons_InrE)
  have "I (ys @ [x]) s1" by (rule Cons.prems(3) [OF _ Cons.prems(2) step]) simp
  from Cons.IH [OF rest this] Cons.prems(3) have "I ((ys @ [x]) @ xs) s'" by simp
  then show ?case by simp
qed

lemma py_for_inv:
  assumes "py_for xs body s = (Inr u, s')" and "I s"
    and "\<And>x s s'. \<lbrakk>x \<in> set xs; I s; body x s = (Inr (), s')\<rbrakk> \<Longrightarrow> I s'"
  shows "I s'"
  using py_for_append_inv [of xs body s u s' "\<lambda>_. I" "[]"] assms by blast

text \<open>A loop whose body cannot fail on a state with the invariant does not fail.\<close>

lemma py_for_succeeds:
  assumes "I s" and "\<And>x s. \<lbrakk>x \<in> set xs; I s\<rbrakk> \<Longrightarrow> \<exists>s'. body x s = (Inr (), s') \<and> I s'"
  shows "\<exists>s'. py_for xs body s = (Inr (), s') \<and> I s'"
  using assms
proof (induction xs arbitrary: s)
  case Nil
  then show ?case by (simp add: py_return_def)
next
  case (Cons x xs)
  then obtain s1 where step: "body x s = (Inr (), s1)" and "I s1" by fastforce
  with Cons show ?case by simp
qed

section \<open>Dictionaries\<close>

text \<open>
  A Python dictionary keeps its keys in insertion order and an assignment to a present key
  keeps the key's place. \<open>AList.update\<close> on an association list does exactly this.
\<close>

type_synonym ('k, 'v) dict = "('k \<times> 'v) list"

definition dict_get :: "('k, 'v) dict \<Rightarrow> 'k \<Rightarrow> 'v option" where
  "dict_get d k = map_of d k"

definition dict_set :: "('k, 'v) dict \<Rightarrow> 'k \<Rightarrow> 'v \<Rightarrow> ('k, 'v) dict" where
  "dict_set d k v = AList.update k v d"

definition dict_ok :: "('k, 'v) dict \<Rightarrow> bool" where
  "dict_ok d \<longleftrightarrow> distinct (map fst d)"

lemma dict_get_set [simp]: "dict_get (dict_set d k v) k' = (if k' = k then Some v else dict_get d k')"
  by (simp add: dict_get_def dict_set_def update_conv')

lemma dict_get_Nil [simp]: "dict_get [] k = None"
  by (simp add: dict_get_def)

lemma dict_ok_Nil [simp]: "dict_ok []"
  by (simp add: dict_ok_def)

lemma dict_ok_set [simp]: "dict_ok d \<Longrightarrow> dict_ok (dict_set d k v)"
  by (simp add: dict_ok_def dict_set_def distinct_update)

lemma dict_get_None_iff: "dict_get d k = None \<longleftrightarrow> k \<notin> fst ` set d"
  by (simp add: dict_get_def map_of_eq_None_iff)

lemma dict_get_Some_iff: "dict_ok d \<Longrightarrow> dict_get d k = Some v \<longleftrightarrow> (k, v) \<in> set d"
  by (simp add: dict_ok_def dict_get_def)

lemma keys_dict_set [simp]: "fst ` set (dict_set d k v) = insert k (fst ` set d)"
  by (simp add: dict_set_def dom_update)

lemma dict_set_new: "dict_get d k = None \<Longrightarrow> dict_set d k v = d @ [(k, v)]"
  unfolding dict_get_def dict_set_def by (induction d) (auto split: if_splits)

lemma dict_set_old:
  assumes "dict_get d k = Some w"
  obtains d1 d2 where "d = d1 @ (k, w) # d2" "k \<notin> fst ` set d1"
    "dict_set d k v = d1 @ (k, v) # d2"
  using assms
proof (induction d arbitrary: thesis)
  case Nil
  then show ?case by simp
next
  case (Cons p d)
  show ?case
  proof (cases "fst p = k")
    case True
    with Cons.prems(2) have "p = (k, w)" by (cases p) (simp add: dict_get_def)
    then show ?thesis by (intro Cons.prems(1) [of "[]" d]) (simp_all add: dict_set_def)
  next
    case False
    with Cons.prems(2) have "dict_get d k = Some w" by (cases p) (simp add: dict_get_def)
    then obtain d1 d2 where "d = d1 @ (k, w) # d2" "k \<notin> fst ` set d1"
      "dict_set d k v = d1 @ (k, v) # d2" using Cons.IH by blast
    with False show ?thesis
      by (intro Cons.prems(1) [of "p # d1" d2]) (auto simp: dict_set_def)
  qed
qed

text \<open>The sum of the values of a counter dictionary, and what one assignment adds to it.\<close>

definition dict_total :: "('k, int) dict \<Rightarrow> int" where
  "dict_total d = sum_list (map snd d)"

definition dict_get_default :: "('k, 'v) dict \<Rightarrow> 'k \<Rightarrow> 'v \<Rightarrow> 'v" where
  "dict_get_default d k v = (case dict_get d k of None \<Rightarrow> v | Some w \<Rightarrow> w)"

lemma dict_total_Nil [simp]: "dict_total [] = 0"
  by (simp add: dict_total_def)

lemma dict_total_set:
  "dict_total (dict_set d k v) = dict_total d - dict_get_default d k 0 + v"
proof (cases "dict_get d k")
  case None
  then show ?thesis by (simp add: dict_total_def dict_set_new dict_get_default_def)
next
  case (Some w)
  obtain d1 d2 where
    "d = d1 @ (k, w) # d2" "dict_set d k v = d1 @ (k, v) # d2"
    by (rule dict_set_old [OF Some, of v])
  with Some show ?thesis by (simp add: dict_total_def dict_get_default_def)
qed

lemma set_dict_set: "set (dict_set d k v) \<subseteq> insert (k, v) (set d)"
proof (cases "dict_get d k")
  case None
  then show ?thesis by (simp add: dict_set_new)
next
  case (Some w)
  obtain d1 d2 where
    "d = d1 @ (k, w) # d2" "dict_set d k v = d1 @ (k, v) # d2"
    by (rule dict_set_old [OF Some, of v])
  then show ?thesis by auto
qed

section \<open>Strings\<close>

text \<open>\<open>s.startswith(w)\<close>.\<close>

definition starts_with :: "string \<Rightarrow> string \<Rightarrow> bool" where
  "starts_with s w \<longleftrightarrow> take (length w) s = w"

lemma starts_with_prefix: "starts_with s w \<longleftrightarrow> (\<exists>t. s = w @ t)"
  unfolding starts_with_def by (metis append_eq_conv_conj)

end
