(* ===== verification/ProfileProto.thy ===== *)
theory ProfileProto
  imports Prelude "HOL-Library.Word"
begin

text \<open>
  The profile messages of \<open>profile_pb2.py\<close>: one record per message type of the serialized
  descriptor, every field of the descriptor included, with the proto3 defaults; and the
  protocol buffer runtime (not part of the repository) as a record of parameters.
\<close>

section \<open>Messages\<close>

record value_type =
  vt_type :: int
  vt_unit :: int

record pb_label =
  lb_key :: int
  lb_str :: int
  lb_num :: int
  lb_num_unit :: int

record pb_sample =
  sm_location_id :: "int list"
  sm_value :: "int list"
  sm_label :: "pb_label list"

record pb_mapping =
  mp_id :: int
  mp_memory_start :: int
  mp_memory_limit :: int
  mp_file_offset :: int
  mp_filename :: int
  mp_build_id :: int
  mp_has_functions :: bool
  mp_has_filenames :: bool
  mp_has_line_numbers :: bool
  mp_has_inline_frames :: bool

record pb_line =
  ln_function_id :: int
  ln_line :: int

record pb_location =
  lc_id :: int
  lc_mapping_id :: int
  lc_address :: int
  lc_line :: "pb_line list"
  lc_is_folded :: bool

record pb_function =
  fn_id :: int
  fn_name :: int
  fn_system_name :: int
  fn_filename :: int
  fn_start_line :: int

record profile =
  pf_sample_type :: "value_type list"
  pf_sample :: "pb_sample list"
  pf_mapping :: "pb_mapping list"
  pf_location :: "pb_location list"
  pf_function :: "pb_function list"
  pf_string_table :: "string list"
  pf_drop_frames :: int
  pf_keep_frames :: int
  pf_time_nanos :: int
  pf_duration_nanos :: int
  pf_period_type :: value_type
  pf_period :: int
  pf_comment :: "int list"
  pf_default_sample_type :: int

definition new_value_type :: value_type where
  "new_value_type = \<lparr>vt_type = 0, vt_unit = 0\<rparr>"

definition new_sample :: pb_sample where
  "new_sample = \<lparr>sm_location_id = [], sm_value = [], sm_label = []\<rparr>"

definition new_line :: pb_line where
  "new_line = \<lparr>ln_function_id = 0, ln_line = 0\<rparr>"

definition new_location :: pb_location where
  "new_location = \<lparr>lc_id = 0, lc_mapping_id = 0, lc_address = 0, lc_line = [],
     lc_is_folded = False\<rparr>"

definition new_function :: pb_function where
  "new_function = \<lparr>fn_id = 0, fn_name = 0, fn_system_name = 0, fn_filename = 0,
     fn_start_line = 0\<rparr>"

definition new_profile :: profile where
  "new_profile = \<lparr>pf_sample_type = [], pf_sample = [], pf_mapping = [], pf_location = [],
     pf_function = [], pf_string_table = [], pf_drop_frames = 0, pf_keep_frames = 0,
     pf_time_nanos = 0, pf_duration_nanos = 0, pf_period_type = new_value_type, pf_period = 0,
     pf_comment = [], pf_default_sample_type = 0\<rparr>"

section \<open>The runtime\<close>

text \<open>
  The descriptor declares ids as \<open>uint64\<close> and every other number as \<open>int64\<close>. What the
  runtime does on a store, on \<open>SerializeToString\<close>, and what \<open>gzip\<close> makes of the bytes
  is outside the repository: parameters of the model.
\<close>

datatype pb_scalar = Int64 | Uint64

type_synonym bytes = "8 word list"

record pb_runtime =
  pb_store :: "pb_scalar \<Rightarrow> int \<Rightarrow> int res"
  pb_serialize :: "profile \<Rightarrow> bytes"
  pb_gzip :: "bytes \<Rightarrow> bytes"

fun in_range :: "pb_scalar \<Rightarrow> int \<Rightarrow> bool" where
  "in_range Int64 v \<longleftrightarrow> - (2 ^ 63) \<le> v \<and> v < 2 ^ 63"
| "in_range Uint64 v \<longleftrightarrow> 0 \<le> v \<and> v < 2 ^ 64"

text \<open>
  The documented behaviour of the runtime's stores: a value in the range of the field's type is
  kept as it is, any other raises \<open>ValueError\<close>.
\<close>

definition runtime_ok :: "pb_runtime \<Rightarrow> bool" where
  "runtime_ok rt \<longleftrightarrow>
     (\<forall>t v. pb_store rt t v = (if in_range t v then Inr v else Inl ValueError))"

lemma runtime_okD: "runtime_ok rt \<Longrightarrow> pb_store rt t v = (if in_range t v then Inr v else Inl ValueError)"
  by (simp add: runtime_ok_def)

lemma in_range_small: "0 \<le> v \<Longrightarrow> v < 2 ^ 63 \<Longrightarrow> in_range t v"
  by (cases t) simp_all

text \<open>A concrete runtime, for evaluating the model on concrete inputs.\<close>

definition sample_runtime :: pb_runtime where
  "sample_runtime = \<lparr>pb_store = (\<lambda>t v. if in_range t v then Inr v else Inl ValueError),
     pb_serialize = (\<lambda>p. [of_nat (length (pf_sample p))]), pb_gzip = (\<lambda>b. 0x1f # 0x8b # b)\<rparr>"

lemma sample_runtime_ok [simp]: "runtime_ok sample_runtime"
  by (simp add: runtime_ok_def sample_runtime_def)

end
