(* ===== verification/Interning.thy ===== *)
theory Interning
  imports Prelude
begin

text \<open>
  The contract of an interning table: an operation that returns the identifier of a key and
  adds the key at the end of the table when it is new. The string, function and location
  tables of the profile builder are three instances; what their client needs of them is proved
  here once.
\<close>

primrec py_map :: "('a \<Rightarrow> ('s, 'b) py) \<Rightarrow> 'a list \<Rightarrow> ('s, 'b list) py" where
  "py_map f [] = py_return []"
| "py_map f (x # xs) =
     py_bind (f x) (\<lambda>y. py_bind (py_map f xs) (\<lambda>ys. py_return (y # ys)))"

locale intern_table =
  fixes intern :: "'k \<Rightarrow> ('s, int) py"
    and keys_of :: "'s \<Rightarrow> 'k list"
    and base :: int
    and valid :: "'s \<Rightarrow> bool"
  assumes valid_distinct: "valid s \<Longrightarrow> distinct (keys_of s)"
    and intern_valid: "\<lbrakk>valid s; intern k s = (Inr i, s')\<rbrakk> \<Longrightarrow> valid s'"
    and intern_keys: "\<lbrakk>valid s; intern k s = (Inr i, s')\<rbrakk> \<Longrightarrow>
      keys_of s' = (if k \<in> set (keys_of s) then keys_of s else keys_of s @ [k])"
    and intern_id: "\<lbrakk>valid s; intern k s = (Inr i, s')\<rbrakk> \<Longrightarrow>
      base \<le> i \<and> nat (i - base) < length (keys_of s') \<and> keys_of s' ! nat (i - base) = k"
begin

text \<open>Which key an identifier stands for: the reader's side of the table.\<close>

definition key_of :: "'s \<Rightarrow> int \<Rightarrow> 'k option" where
  "key_of s i = (if base \<le> i \<and> nat (i - base) < length (keys_of s)
     then Some (keys_of s ! nat (i - base)) else None)"

lemma intern_prefix:
  assumes "valid s" "intern k s = (Inr i, s')"
  shows "\<exists>ks. keys_of s' = keys_of s @ ks"
  using intern_keys [OF assms] by auto

lemma key_of_intern: "\<lbrakk>valid s; intern k s = (Inr i, s')\<rbrakk> \<Longrightarrow> key_of s' i = Some k"
  using intern_id [of s k i s'] by (simp add: key_of_def)

lemma key_of_append:
  "key_of s i = Some k \<Longrightarrow> keys_of s' = keys_of s @ ks \<Longrightarrow> key_of s' i = Some k"
  by (auto simp: key_of_def nth_append split: if_splits)

lemma key_of_inj:
  assumes "valid s" "key_of s i = Some k" "key_of s j = Some k"
  shows "i = j"
proof -
  have "nat (i - base) = nat (j - base)"
    using assms valid_distinct [OF assms(1)]
    by (auto simp: key_of_def nth_eq_iff_index_eq split: if_splits)
  then show ?thesis using assms(2,3) by (auto simp: key_of_def split: if_splits)
qed

text \<open>Two identifiers are equal exactly when their keys are; a key keeps its identifier.\<close>

lemma intern_twice:
  assumes "valid s" "intern k s = (Inr i, s')" "intern k' s' = (Inr j, s'')"
  shows "i = j \<longleftrightarrow> k = k'"
proof -
  have v: "valid s'" "valid s''" using assms intern_valid by blast+
  obtain ks where "keys_of s'' = keys_of s' @ ks" using intern_prefix [OF v(1) assms(3)] by blast
  then have "key_of s'' i = Some k" using key_of_intern [OF assms(1,2)] key_of_append by blast
  moreover have "key_of s'' j = Some k'" using key_of_intern [OF v(1) assms(3)] .
  ultimately show ?thesis using key_of_inj [OF v(2)] by auto
qed

lemma intern_again:
  assumes "valid s" "intern k s = (Inr i, s')" "intern k s' = (Inr j, s'')"
  shows "j = i" "keys_of s'' = keys_of s'"
proof -
  show "j = i" using intern_twice [OF assms] by simp
  have "k \<in> set (keys_of s')" using intern_keys [OF assms(1,2)] by auto
  then show "keys_of s'' = keys_of s'"
    using intern_keys [OF intern_valid [OF assms(1,2)] assms(3)] by simp
qed

text \<open>Interning a list of keys and reading the identifiers back gives the keys.\<close>

lemma intern_list:
  assumes "valid s" "py_map intern ks s = (Inr is, s')"
  shows "valid s' \<and> (\<exists>zs. keys_of s' = keys_of s @ zs) \<and> map (key_of s') is = map Some ks"
  using assms
proof (induction ks arbitrary: s "is")
  case Nil
  then show ?case by (simp add: py_return_def)
next
  case (Cons k ks)
  from Cons.prems(2) obtain i s1 is' where
    step: "intern k s = (Inr i, s1)" and rest: "py_map intern ks s1 = (Inr is', s')"
    and eq: "is = i # is'"
    by (auto simp: py_Inr_iffs)
  have v1: "valid s1" by (rule intern_valid [OF Cons.prems(1) step])
  from Cons.IH [OF v1 rest] obtain zs where IH: "valid s'" "keys_of s' = keys_of s1 @ zs"
    "map (key_of s') is' = map Some ks" by blast
  have "key_of s' i = Some k"
    by (rule key_of_append [OF key_of_intern [OF Cons.prems(1) step] IH(2)])
  moreover obtain ys where "keys_of s1 = keys_of s @ ys"
    using intern_prefix [OF Cons.prems(1) step] by blast
  ultimately show ?case using IH eq by simp
qed

lemma set_keys_intern_list:
  assumes "valid s" "py_map intern ks s = (Inr is, s')"
  shows "set (keys_of s') = set (keys_of s) \<union> set ks"
  using assms
proof (induction ks arbitrary: s "is")
  case Nil
  then show ?case by (simp add: py_return_def)
next
  case (Cons k ks)
  from Cons.prems(2) obtain i s1 is' where
    step: "intern k s = (Inr i, s1)" and rest: "py_map intern ks s1 = (Inr is', s')"
    by (auto simp: py_Inr_iffs)
  from Cons.IH [OF intern_valid [OF Cons.prems(1) step] rest] intern_keys [OF Cons.prems(1) step]
  show ?case by auto
qed

end

end
