(* ===== verification/Builder.thy ===== *)
theory Builder
  imports ProfileProto Interning
begin

text \<open>
  \<open>builder.py\<close>: the profile builder. Its state is the profile under construction and the
  three dictionaries that intern strings, functions and locations. Each method is a state
  transformer in the order of the source; every store of a number into a message goes through
  the runtime parameter and may raise.
\<close>

section \<open>State\<close>

datatype func = Func (func_name: int) (func_filename: int)

datatype loc = Loc (loc_func_id: int) (loc_line_number: int)

type_synonym frame_tuple = "string \<times> string \<times> int"
type_synonym trace = "frame_tuple list"

record builder =
  b_profile :: profile
  b_function_map :: "(func, int) dict"
  b_location_map :: "(loc, int) dict"
  b_string_map :: "(string, int) dict"

definition empty_builder :: builder where
  "empty_builder = \<lparr>b_profile = new_profile, b_function_map = [], b_location_map = [],
     b_string_map = []\<rparr>"

text \<open>\<open>field.add()\<close> appends a default message; the stores that follow change the last one.\<close>

definition upd_last :: "('a \<Rightarrow> 'a) \<Rightarrow> 'a list \<Rightarrow> 'a list" where
  "upd_last f xs = (if xs = [] then [] else butlast xs @ [f (last xs)])"

definition on_profile :: "(profile \<Rightarrow> profile) \<Rightarrow> (builder, unit) py" where
  "on_profile f = py_set (\<lambda>b. b\<lparr>b_profile := f (b_profile b)\<rparr>)"

definition store :: "pb_runtime \<Rightarrow> pb_scalar \<Rightarrow> int \<Rightarrow> (int \<Rightarrow> profile \<Rightarrow> profile) \<Rightarrow> (builder, unit) py" where
  "store rt t v set_field = py_bind (py_lift (pb_store rt t v)) (\<lambda>w. on_profile (set_field w))"

section \<open>The interning methods\<close>

definition string_id :: "string \<Rightarrow> (builder, int) py" where
  "string_id value = py_bind (py_get (\<lambda>b. dict_get (b_string_map b) value)) (\<lambda>sid.
     case sid of Some i \<Rightarrow> py_return i
     | None \<Rightarrow>
       py_bind (py_get (\<lambda>b. int (length (b_string_map b)))) (\<lambda>i.
       py_bind (py_set (\<lambda>b. b\<lparr>b_string_map := dict_set (b_string_map b) value i\<rparr>)) (\<lambda>_.
       py_bind (on_profile (\<lambda>p. p\<lparr>pf_string_table := pf_string_table p @ [value]\<rparr>)) (\<lambda>_.
       py_return i))))"

definition upd_function :: "(pb_function \<Rightarrow> pb_function) \<Rightarrow> profile \<Rightarrow> profile" where
  "upd_function f p = p\<lparr>pf_function := upd_last f (pf_function p)\<rparr>"

definition upd_location :: "(pb_location \<Rightarrow> pb_location) \<Rightarrow> profile \<Rightarrow> profile" where
  "upd_location f p = p\<lparr>pf_location := upd_last f (pf_location p)\<rparr>"

definition upd_sample :: "(pb_sample \<Rightarrow> pb_sample) \<Rightarrow> profile \<Rightarrow> profile" where
  "upd_sample f p = p\<lparr>pf_sample := upd_last f (pf_sample p)\<rparr>"

definition upd_sample_type :: "(value_type \<Rightarrow> value_type) \<Rightarrow> profile \<Rightarrow> profile" where
  "upd_sample_type f p = p\<lparr>pf_sample_type := upd_last f (pf_sample_type p)\<rparr>"

definition upd_line :: "(pb_line \<Rightarrow> pb_line) \<Rightarrow> pb_location \<Rightarrow> pb_location" where
  "upd_line f l = l\<lparr>lc_line := upd_last f (lc_line l)\<rparr>"

definition add_function :: "pb_runtime \<Rightarrow> func \<Rightarrow> (builder, int) py" where
  "add_function rt func =
     py_bind (py_get (\<lambda>b. dict_get (b_function_map b) func)) (\<lambda>fid.
     case fid of Some i \<Rightarrow> py_return i
     | None \<Rightarrow>
       py_bind (py_get (\<lambda>b. int (length (b_function_map b)) + 1)) (\<lambda>i.
       py_bind (py_set (\<lambda>b. b\<lparr>b_function_map := dict_set (b_function_map b) func i\<rparr>)) (\<lambda>_.
       py_bind (on_profile (\<lambda>p. p\<lparr>pf_function := pf_function p @ [new_function]\<rparr>)) (\<lambda>_.
       py_bind (store rt Int64 (func_name func) (\<lambda>w. upd_function (\<lambda>f. f\<lparr>fn_name := w\<rparr>))) (\<lambda>_.
       py_bind (store rt Int64 (func_filename func) (\<lambda>w. upd_function (\<lambda>f. f\<lparr>fn_filename := w\<rparr>))) (\<lambda>_.
       py_bind (store rt Uint64 i (\<lambda>w. upd_function (\<lambda>f. f\<lparr>fn_id := w\<rparr>))) (\<lambda>_.
       py_return i)))))))"

definition function_id :: "pb_runtime \<Rightarrow> string \<Rightarrow> string \<Rightarrow> (builder, int) py" where
  "function_id rt name filename =
     py_bind (string_id name) (\<lambda>name_id.
     py_bind (string_id filename) (\<lambda>filename_id.
     add_function rt (Func name_id filename_id)))"

definition add_location :: "pb_runtime \<Rightarrow> loc \<Rightarrow> (builder, int) py" where
  "add_location rt loc =
     py_bind (py_get (\<lambda>b. dict_get (b_location_map b) loc)) (\<lambda>lid.
     case lid of Some i \<Rightarrow> py_return i
     | None \<Rightarrow>
       py_bind (py_get (\<lambda>b. int (length (b_location_map b)) + 1)) (\<lambda>i.
       py_bind (py_set (\<lambda>b. b\<lparr>b_location_map := dict_set (b_location_map b) loc i\<rparr>)) (\<lambda>_.
       py_bind (on_profile (\<lambda>p. p\<lparr>pf_location := pf_location p @ [new_location]\<rparr>)) (\<lambda>_.
       py_bind (store rt Uint64 i (\<lambda>w. upd_location (\<lambda>l. l\<lparr>lc_id := w\<rparr>))) (\<lambda>_.
       py_bind (on_profile (upd_location (\<lambda>l. l\<lparr>lc_line := lc_line l @ [new_line]\<rparr>))) (\<lambda>_.
       py_bind (store rt Int64 (loc_line_number loc)
         (\<lambda>w. upd_location (upd_line (\<lambda>n. n\<lparr>ln_line := w\<rparr>)))) (\<lambda>_.
       py_bind (store rt Uint64 (loc_func_id loc)
         (\<lambda>w. upd_location (upd_line (\<lambda>n. n\<lparr>ln_function_id := w\<rparr>)))) (\<lambda>_.
       py_return i))))))))"

definition location_id :: "pb_runtime \<Rightarrow> int \<Rightarrow> int \<Rightarrow> (builder, int) py" where
  "location_id rt func_id line_number = add_location rt (Loc func_id line_number)"

section \<open>Populating and emitting a profile\<close>

definition Builder_init :: builder where
  "Builder_init = snd (string_id '''' empty_builder)"

definition add_frame :: "pb_runtime \<Rightarrow> frame_tuple \<Rightarrow> (builder, unit) py" where
  "add_frame rt frame = (case frame of (name, filename, line_number) \<Rightarrow>
     py_bind (function_id rt name filename) (\<lambda>func_id.
     py_bind (location_id rt func_id line_number) (\<lambda>location_id.
     store rt Uint64 location_id
       (\<lambda>w. upd_sample (\<lambda>s. s\<lparr>sm_location_id := sm_location_id s @ [w]\<rparr>)))))"

definition add_sample :: "pb_runtime \<Rightarrow> int \<Rightarrow> trace \<times> int \<Rightarrow> (builder, unit) py" where
  "add_sample rt period item = (case item of (trace, count) \<Rightarrow>
     py_bind (on_profile (\<lambda>p. p\<lparr>pf_sample := pf_sample p @ [new_sample]\<rparr>)) (\<lambda>_.
     py_bind (store rt Int64 count
       (\<lambda>w. upd_sample (\<lambda>s. s\<lparr>sm_value := sm_value s @ [w]\<rparr>))) (\<lambda>_.
     py_bind (store rt Int64 (period * count)
       (\<lambda>w. upd_sample (\<lambda>s. s\<lparr>sm_value := sm_value s @ [w]\<rparr>))) (\<lambda>_.
     py_for trace (add_frame rt)))))"

definition add_sample_type :: "pb_runtime \<Rightarrow> string \<Rightarrow> string \<Rightarrow> (builder, unit) py" where
  "add_sample_type rt type unit =
     py_bind (on_profile (\<lambda>p. p\<lparr>pf_sample_type := pf_sample_type p @ [new_value_type]\<rparr>)) (\<lambda>_.
     py_bind (string_id type) (\<lambda>i.
     py_bind (store rt Int64 i (\<lambda>w. upd_sample_type (\<lambda>t. t\<lparr>vt_type := w\<rparr>))) (\<lambda>_.
     py_bind (string_id unit) (\<lambda>j.
     store rt Int64 j (\<lambda>w. upd_sample_type (\<lambda>t. t\<lparr>vt_unit := w\<rparr>))))))"

definition set_header :: "pb_runtime \<Rightarrow> string \<Rightarrow> string \<Rightarrow> int \<Rightarrow> int \<Rightarrow> (builder, unit) py" where
  "set_header rt profile_type period_unit period duration_ns =
     py_bind (string_id profile_type) (\<lambda>i.
     py_bind (store rt Int64 i (\<lambda>w p. p\<lparr>pf_period_type := (pf_period_type p)\<lparr>vt_type := w\<rparr>\<rparr>)) (\<lambda>_.
     py_bind (string_id period_unit) (\<lambda>j.
     py_bind (store rt Int64 j (\<lambda>w p. p\<lparr>pf_period_type := (pf_period_type p)\<lparr>vt_unit := w\<rparr>\<rparr>)) (\<lambda>_.
     py_bind (store rt Int64 period (\<lambda>w p. p\<lparr>pf_period := w\<rparr>)) (\<lambda>_.
     py_bind (store rt Int64 duration_ns (\<lambda>w p. p\<lparr>pf_duration_nanos := w\<rparr>)) (\<lambda>_.
     py_bind (add_sample_type rt ''sample'' ''count'') (\<lambda>_.
     add_sample_type rt profile_type period_unit)))))))"

definition populate_profile ::
  "pb_runtime \<Rightarrow> (trace, int) dict \<Rightarrow> string \<Rightarrow> string \<Rightarrow> int \<Rightarrow> int \<Rightarrow> (builder, unit) py" where
  "populate_profile rt traces profile_type period_unit period duration_ns =
     py_bind (set_header rt profile_type period_unit period duration_ns) (\<lambda>_.
     py_for traces (add_sample rt period))"

definition emit :: "pb_runtime \<Rightarrow> builder \<Rightarrow> bytes" where
  "emit rt b = pb_gzip rt (pb_serialize rt (b_profile b))"

text \<open>What both profilers do with a fresh builder: populate it and emit the bytes.\<close>

definition build_profile ::
  "pb_runtime \<Rightarrow> (trace, int) dict \<Rightarrow> string \<Rightarrow> string \<Rightarrow> int \<Rightarrow> int \<Rightarrow> bytes res" where
  "build_profile rt traces profile_type period_unit period duration_ns =
     (case populate_profile rt traces profile_type period_unit period duration_ns Builder_init of
        (Inl e, b) \<Rightarrow> Inl e
      | (Inr _, b) \<Rightarrow> Inr (emit rt b))"

end
