(* ===== verification/BuilderLemmas.thy ===== *)
theory BuilderLemmas
  imports Builder
begin

text \<open>
  The library of the profile builder: what each method does when it succeeds, the three
  interning tables as instances of the interning contract, the well-formedness invariant of the
  builder, and the reader of a profile (how a consumer resolves the identifiers of a sample).
\<close>

section \<open>Methods on success\<close>

lemma upd_last_snoc [simp]: "upd_last f (xs @ [x]) = xs @ [f x]"
  by (simp add: upd_last_def)

lemma upd_last_single [simp]: "upd_last f [x] = [f x]"
  by (simp add: upd_last_def)

lemma on_profile_eq: "on_profile f b = (Inr (), b\<lparr>b_profile := f (b_profile b)\<rparr>)"
  by (simp add: on_profile_def py_set_def)

lemma store_eq:
  assumes "runtime_ok rt"
  shows "store rt t v g b =
    (if in_range t v then (Inr (), b\<lparr>b_profile := g v (b_profile b)\<rparr>) else (Inl ValueError, b))"
  using runtime_okD [OF assms]
  by (simp add: store_def py_bind_def py_lift_def on_profile_eq)

lemma string_id_eq:
  "string_id v b = (case dict_get (b_string_map b) v of Some i \<Rightarrow> (Inr i, b)
     | None \<Rightarrow> (Inr (int (length (b_string_map b))),
         b\<lparr>b_string_map := dict_set (b_string_map b) v (int (length (b_string_map b))),
           b_profile := (b_profile b)\<lparr>pf_string_table := pf_string_table (b_profile b) @ [v]\<rparr>\<rparr>))"
  by (simp add: string_id_def py_monad on_profile_eq split: option.split)

definition function_entry :: "int \<Rightarrow> func \<Rightarrow> pb_function" where
  "function_entry i f = new_function\<lparr>fn_id := i, fn_name := func_name f, fn_filename := func_filename f\<rparr>"

definition location_entry :: "int \<Rightarrow> loc \<Rightarrow> pb_location" where
  "location_entry i l = new_location\<lparr>lc_id := i,
     lc_line := [\<lparr>ln_function_id = loc_func_id l, ln_line = loc_line_number l\<rparr>]\<rparr>"

lemma add_function_new:
  assumes "runtime_ok rt" "dict_get (b_function_map b) f = None"
    and "in_range Int64 (func_name f)" "in_range Int64 (func_filename f)"
    and "in_range Uint64 (int (length (b_function_map b)) + 1)"
  shows "add_function rt f b = (Inr (int (length (b_function_map b)) + 1),
    b\<lparr>b_function_map := dict_set (b_function_map b) f (int (length (b_function_map b)) + 1),
      b_profile := (b_profile b)\<lparr>pf_function := pf_function (b_profile b) @
        [function_entry (int (length (b_function_map b)) + 1) f]\<rparr>\<rparr>)"
  using assms
  by (simp add: add_function_def py_monad on_profile_eq store_eq upd_function_def function_entry_def
      del: in_range.simps)

lemma add_function_old: "dict_get (b_function_map b) f = Some i \<Longrightarrow> add_function rt f b = (Inr i, b)"
  by (simp add: add_function_def py_monad)

lemma add_function_fails:
  assumes "runtime_ok rt" "dict_get (b_function_map b) f = None"
    and "\<not> (in_range Int64 (func_name f) \<and> in_range Int64 (func_filename f) \<and>
      in_range Uint64 (int (length (b_function_map b)) + 1))"
  shows "fst (add_function rt f b) = Inl ValueError"
  using assms
  by (auto simp: add_function_def py_monad on_profile_eq store_eq upd_function_def
      simp del: in_range.simps)

lemma add_location_new:
  assumes "runtime_ok rt" "dict_get (b_location_map b) l = None"
    and "in_range Uint64 (int (length (b_location_map b)) + 1)"
    and "in_range Int64 (loc_line_number l)" "in_range Uint64 (loc_func_id l)"
  shows "add_location rt l b = (Inr (int (length (b_location_map b)) + 1),
    b\<lparr>b_location_map := dict_set (b_location_map b) l (int (length (b_location_map b)) + 1),
      b_profile := (b_profile b)\<lparr>pf_location := pf_location (b_profile b) @
        [location_entry (int (length (b_location_map b)) + 1) l]\<rparr>\<rparr>)"
  using assms
  by (simp add: add_location_def py_monad on_profile_eq store_eq upd_location_def upd_line_def
      location_entry_def new_location_def new_line_def del: in_range.simps)

lemma add_location_old: "dict_get (b_location_map b) l = Some i \<Longrightarrow> add_location rt l b = (Inr i, b)"
  by (simp add: add_location_def py_monad)

lemma add_location_fails:
  assumes "runtime_ok rt" "dict_get (b_location_map b) l = None"
    and "\<not> (in_range Uint64 (int (length (b_location_map b)) + 1) \<and>
      in_range Int64 (loc_line_number l) \<and> in_range Uint64 (loc_func_id l))"
  shows "fst (add_location rt l b) = Inl ValueError"
  using assms
  by (auto simp: add_location_def py_monad on_profile_eq store_eq upd_location_def
      simp del: in_range.simps)

section \<open>Tables numbered in order\<close>

definition numbered :: "int \<Rightarrow> 'k list \<Rightarrow> ('k, int) dict" where
  "numbered n ks = zip ks (map (\<lambda>i. n + int i) [0..<length ks])"

lemma length_numbered [simp]: "length (numbered n ks) = length ks"
  by (simp add: numbered_def)

lemma map_fst_numbered [simp]: "map fst (numbered n ks) = ks"
  by (simp add: numbered_def)

lemma numbered_Nil [simp]: "numbered n [] = []"
  by (simp add: numbered_def)

lemma numbered_snoc: "numbered n (ks @ [k]) = numbered n ks @ [(k, n + int (length ks))]"
  by (simp add: numbered_def zip_append1)

lemma dict_get_numbered_None: "dict_get (numbered n ks) k = None \<longleftrightarrow> k \<notin> set ks"
proof -
  have "fst ` set (numbered n ks) = set ks" by (metis map_fst_numbered set_map)
  then show ?thesis by (simp add: dict_get_None_iff)
qed

lemma dict_get_numbered_Some:
  assumes "dict_get (numbered n ks) k = Some i"
  shows "n \<le> i" "nat (i - n) < length ks" "ks ! nat (i - n) = k"
proof -
  have "(k, i) \<in> set (numbered n ks)"
    using assms by (simp add: dict_get_def map_of_SomeD)
  then obtain j where "j < length ks" "k = ks ! j" "i = n + int j"
    by (auto simp: numbered_def set_zip)
  then show "n \<le> i" "nat (i - n) < length ks" "ks ! nat (i - n) = k" by simp_all
qed

lemma dict_set_numbered:
  "k \<notin> set ks \<Longrightarrow> dict_set (numbered n ks) k (n + int (length ks)) = numbered n (ks @ [k])"
  by (simp add: dict_set_new dict_get_numbered_None numbered_snoc)

section \<open>The three interning tables\<close>

definition string_keys :: "builder \<Rightarrow> string list" where
  "string_keys b = pf_string_table (b_profile b)"

definition func_of :: "pb_function \<Rightarrow> func" where
  "func_of f = Func (fn_name f) (fn_filename f)"

definition loc_of :: "pb_location \<Rightarrow> loc" where
  "loc_of l = Loc (ln_function_id (hd (lc_line l))) (ln_line (hd (lc_line l)))"

definition function_keys :: "builder \<Rightarrow> func list" where
  "function_keys b = map func_of (pf_function (b_profile b))"

definition location_keys :: "builder \<Rightarrow> loc list" where
  "location_keys b = map loc_of (pf_location (b_profile b))"

definition wf_strings :: "builder \<Rightarrow> bool" where
  "wf_strings b \<longleftrightarrow> distinct (string_keys b) \<and> b_string_map b = numbered 0 (string_keys b)"

definition wf_functions :: "builder \<Rightarrow> bool" where
  "wf_functions b \<longleftrightarrow> distinct (function_keys b) \<and>
     b_function_map b = numbered 1 (function_keys b) \<and>
     map fn_id (pf_function (b_profile b)) =
       map (\<lambda>i. 1 + int i) [0..<length (pf_function (b_profile b))]"

definition wf_locations :: "builder \<Rightarrow> bool" where
  "wf_locations b \<longleftrightarrow> distinct (location_keys b) \<and>
     b_location_map b = numbered 1 (location_keys b) \<and>
     map lc_id (pf_location (b_profile b)) =
       map (\<lambda>i. 1 + int i) [0..<length (pf_location (b_profile b))] \<and>
     (\<forall>l \<in> set (pf_location (b_profile b)). length (lc_line l) = 1)"

lemma func_of_entry [simp]: "func_of (function_entry i f) = f"
  by (cases f) (simp add: func_of_def function_entry_def)

lemma loc_of_entry [simp]: "loc_of (location_entry i l) = l"
  by (cases l) (simp add: loc_of_def location_entry_def)

text \<open>One step of each table: a known key changes nothing, a new key goes to the end.\<close>

lemma string_id_cases:
  assumes "wf_strings b" "string_id v b = (Inr i, b')"
  obtains (old) "v \<in> set (string_keys b)" "b' = b" "dict_get (b_string_map b) v = Some i"
  | (new) "v \<notin> set (string_keys b)" "i = int (length (string_keys b))"
      "b' = b\<lparr>b_string_map := numbered 0 (string_keys b @ [v]),
         b_profile := (b_profile b)\<lparr>pf_string_table := string_keys b @ [v]\<rparr>\<rparr>"
proof (cases "dict_get (b_string_map b) v")
  case None
  then have nf: "v \<notin> set (string_keys b)"
    using assms(1) by (simp add: wf_strings_def dict_get_numbered_None)
  have len: "length (b_string_map b) = length (string_keys b)"
    using assms(1) by (simp add: wf_strings_def)
  have "string_id v b = (Inr (int (length (string_keys b))),
    b\<lparr>b_string_map := dict_set (b_string_map b) v (int (length (string_keys b))),
      b_profile := (b_profile b)\<lparr>pf_string_table := string_keys b @ [v]\<rparr>\<rparr>)"
    using None by (simp add: string_id_eq len string_keys_def)
  with assms nf show ?thesis using dict_set_numbered [OF nf, of 0]
    by (intro new) (auto simp: wf_strings_def)
next
  case (Some j)
  then have "v \<in> set (string_keys b)"
    using assms(1) dict_get_numbered_None [of 0 "string_keys b" v] by (auto simp: wf_strings_def)
  with Some assms(2) show ?thesis by (intro old) (auto simp: string_id_eq)
qed

lemma add_function_cases:
  assumes "runtime_ok rt" "wf_functions b" "add_function rt f b = (Inr i, b')"
  obtains (old) "f \<in> set (function_keys b)" "b' = b" "dict_get (b_function_map b) f = Some i"
  | (new) "f \<notin> set (function_keys b)" "i = int (length (function_keys b)) + 1"
      "b' = b\<lparr>b_function_map := numbered 1 (function_keys b @ [f]),
         b_profile := (b_profile b)\<lparr>pf_function := pf_function (b_profile b) @ [function_entry i f]\<rparr>\<rparr>"
proof (cases "dict_get (b_function_map b) f")
  case None
  then have nf: "f \<notin> set (function_keys b)"
    using assms(2) by (simp add: wf_functions_def dict_get_numbered_None)
  have len: "length (b_function_map b) = length (function_keys b)"
    using assms(2) by (simp add: wf_functions_def)
  have "in_range Int64 (func_name f) \<and> in_range Int64 (func_filename f) \<and>
      in_range Uint64 (int (length (b_function_map b)) + 1)"
    using add_function_fails [OF assms(1) None] assms(3) by force
  then have "add_function rt f b = (Inr (int (length (b_function_map b)) + 1),
    b\<lparr>b_function_map := dict_set (b_function_map b) f (int (length (b_function_map b)) + 1),
      b_profile := (b_profile b)\<lparr>pf_function := pf_function (b_profile b) @
        [function_entry (int (length (b_function_map b)) + 1) f]\<rparr>\<rparr>)"
    using assms(1) None by (intro add_function_new) auto
  with assms nf show ?thesis using dict_set_numbered [OF nf, of 1]
    by (intro new) (auto simp: len wf_functions_def add.commute)
next
  case (Some j)
  then have "f \<in> set (function_keys b)"
    using assms(2) dict_get_numbered_None [of 1 "function_keys b" f] by (auto simp: wf_functions_def)
  with Some assms(3) show ?thesis by (intro old) (auto simp: add_function_old)
qed

lemma add_location_cases:
  assumes "runtime_ok rt" "wf_locations b" "add_location rt l b = (Inr i, b')"
  obtains (old) "l \<in> set (location_keys b)" "b' = b" "dict_get (b_location_map b) l = Some i"
  | (new) "l \<notin> set (location_keys b)" "i = int (length (location_keys b)) + 1"
      "b' = b\<lparr>b_location_map := numbered 1 (location_keys b @ [l]),
         b_profile := (b_profile b)\<lparr>pf_location := pf_location (b_profile b) @ [location_entry i l]\<rparr>\<rparr>"
proof (cases "dict_get (b_location_map b) l")
  case None
  then have nf: "l \<notin> set (location_keys b)"
    using assms(2) by (simp add: wf_locations_def dict_get_numbered_None)
  have len: "length (b_location_map b) = length (location_keys b)"
    using assms(2) by (simp add: wf_locations_def)
  have "in_range Uint64 (int (length (b_location_map b)) + 1) \<and>
      in_range Int64 (loc_line_number l) \<and> in_range Uint64 (loc_func_id l)"
    using add_location_fails [OF assms(1) None] assms(3) by force
  then have "add_location rt l b = (Inr (int (length (b_location_map b)) + 1),
    b\<lparr>b_location_map := dict_set (b_location_map b) l (int (length (b_location_map b)) + 1),
      b_profile := (b_profile b)\<lparr>pf_location := pf_location (b_profile b) @
        [location_entry (int (length (b_location_map b)) + 1) l]\<rparr>\<rparr>)"
    using assms(1) None by (intro add_location_new) auto
  with assms nf show ?thesis using dict_set_numbered [OF nf, of 1]
    by (intro new) (auto simp: len wf_locations_def add.commute)
next
  case (Some j)
  then have "l \<in> set (location_keys b)"
    using assms(2) dict_get_numbered_None [of 1 "location_keys b" l] by (auto simp: wf_locations_def)
  with Some assms(3) show ?thesis by (intro old) (auto simp: add_location_old)
qed

section \<open>The tables as instances of the interning contract\<close>

lemma string_id_interns:
  assumes "wf_strings b" "string_id v b = (Inr i, b')"
  shows "wf_strings b' \<and>
    string_keys b' = (if v \<in> set (string_keys b) then string_keys b else string_keys b @ [v]) \<and>
    0 \<le> i \<and> nat (i - 0) < length (string_keys b') \<and> string_keys b' ! nat (i - 0) = v"
  using assms
proof (cases rule: string_id_cases)
  case old
  with assms(1) show ?thesis using dict_get_numbered_Some [of 0 "string_keys b" v i]
    by (simp add: wf_strings_def)
next
  case new
  with assms(1) show ?thesis by (simp add: wf_strings_def string_keys_def)
qed

lemma add_function_interns:
  assumes "runtime_ok rt" "wf_functions b" "add_function rt f b = (Inr i, b')"
  shows "wf_functions b' \<and>
    function_keys b' = (if f \<in> set (function_keys b) then function_keys b else function_keys b @ [f]) \<and>
    1 \<le> i \<and> nat (i - 1) < length (function_keys b') \<and> function_keys b' ! nat (i - 1) = f"
  using assms
proof (cases rule: add_function_cases)
  case old
  with assms(2) show ?thesis using dict_get_numbered_Some [of 1 "function_keys b" f i]
    by (simp add: wf_functions_def)
next
  case new
  then have "function_keys b' = function_keys b @ [f]" by (simp add: function_keys_def)
  moreover have "fn_id (function_entry i f) = 1 + int (length (pf_function (b_profile b)))"
    using new by (simp add: function_entry_def function_keys_def)
  ultimately show ?thesis using new assms(2) by (simp add: wf_functions_def function_keys_def nth_append)
qed

lemma add_location_interns:
  assumes "runtime_ok rt" "wf_locations b" "add_location rt l b = (Inr i, b')"
  shows "wf_locations b' \<and>
    location_keys b' = (if l \<in> set (location_keys b) then location_keys b else location_keys b @ [l]) \<and>
    1 \<le> i \<and> nat (i - 1) < length (location_keys b') \<and> location_keys b' ! nat (i - 1) = l"
  using assms
proof (cases rule: add_location_cases)
  case old
  with assms(2) show ?thesis using dict_get_numbered_Some [of 1 "location_keys b" l i]
    by (simp add: wf_locations_def)
next
  case new
  then have "location_keys b' = location_keys b @ [l]" by (simp add: location_keys_def)
  moreover have "lc_id (location_entry i l) = 1 + int (length (pf_location (b_profile b)))"
    "length (lc_line (location_entry i l)) = 1"
    using new by (simp_all add: location_entry_def location_keys_def)
  ultimately show ?thesis using new assms(2) by (simp add: wf_locations_def location_keys_def nth_append)
qed

interpretation string_table: intern_table string_id string_keys 0 wf_strings
proof (unfold_locales, goal_cases)
  case 1
  then show ?case by (simp add: wf_strings_def)
next
  case 2
  then show ?case using string_id_interns by blast
next
  case 3
  then show ?case using string_id_interns by blast
next
  case 4
  then show ?case using string_id_interns by blast
qed

interpretation function_table: intern_table "add_function rt" function_keys 1
  "\<lambda>b. runtime_ok rt \<and> wf_functions b" for rt
proof (unfold_locales, goal_cases)
  case 1
  then show ?case by (simp add: wf_functions_def)
next
  case 2
  then show ?case using add_function_interns by blast
next
  case 3
  then show ?case using add_function_interns by blast
next
  case 4
  then show ?case using add_function_interns by blast
qed

interpretation location_table: intern_table "add_location rt" location_keys 1
  "\<lambda>b. runtime_ok rt \<and> wf_locations b" for rt
proof (unfold_locales, goal_cases)
  case 1
  then show ?case by (simp add: wf_locations_def)
next
  case 2
  then show ?case using add_location_interns by blast
next
  case 3
  then show ?case using add_location_interns by blast
next
  case 4
  then show ?case using add_location_interns by blast
qed

end
