(* ===== verification/BuilderReader.thy ===== *)
theory BuilderReader
  imports BuilderLemmas
begin

text \<open>
  What a profile means to its consumer: identifiers are resolved by search, as the format
  prescribes, to the frames they stand for. The lemmas show that the builder only ever extends
  its tables, so a resolved identifier stays resolved, and that each step of the population
  adds the frame or sample it was given.
\<close>

section \<open>The reader\<close>

definition read_string :: "profile \<Rightarrow> int \<Rightarrow> string option" where
  "read_string p i = (if 0 \<le> i \<and> nat i < length (pf_string_table p)
     then Some (pf_string_table p ! nat i) else None)"

definition find_function :: "profile \<Rightarrow> int \<Rightarrow> pb_function option" where
  "find_function p i = find (\<lambda>f. fn_id f = i) (pf_function p)"

definition find_location :: "profile \<Rightarrow> int \<Rightarrow> pb_location option" where
  "find_location p i = find (\<lambda>l. lc_id l = i) (pf_location p)"

definition read_function :: "profile \<Rightarrow> int \<Rightarrow> (string \<times> string) option" where
  "read_function p i = Option.bind (find_function p i) (\<lambda>f.
     Option.bind (read_string p (fn_name f)) (\<lambda>name.
     Option.bind (read_string p (fn_filename f)) (\<lambda>filename. Some (name, filename))))"

definition only_line :: "pb_location \<Rightarrow> pb_line option" where
  "only_line l = (case lc_line l of [n] \<Rightarrow> Some n | _ \<Rightarrow> None)"

definition read_frame :: "profile \<Rightarrow> int \<Rightarrow> frame_tuple option" where
  "read_frame p i = Option.bind (find_location p i) (\<lambda>l. Option.bind (only_line l) (\<lambda>n.
     Option.bind (read_function p (ln_function_id n)) (\<lambda>(name, filename).
       Some (name, filename, ln_line n))))"

definition read_sample :: "profile \<Rightarrow> pb_sample \<Rightarrow> frame_tuple option list \<times> int list" where
  "read_sample p s = (map (read_frame p) (sm_location_id s), sm_value s)"

definition read_value_type :: "profile \<Rightarrow> value_type \<Rightarrow> (string option \<times> string option)" where
  "read_value_type p t = (read_string p (vt_type t), read_string p (vt_unit t))"

section \<open>Profiles only grow\<close>

definition extends :: "profile \<Rightarrow> profile \<Rightarrow> bool" where
  "extends p p' \<longleftrightarrow> (\<exists>ss. pf_string_table p' = pf_string_table p @ ss) \<and>
     (\<exists>fs. pf_function p' = pf_function p @ fs) \<and>
     (\<exists>ls. pf_location p' = pf_location p @ ls)"

lemma extends_refl [simp]: "extends p p"
  by (simp add: extends_def)

lemma extends_trans: "extends p q \<Longrightarrow> extends q r \<Longrightarrow> extends p r"
  by (auto simp: extends_def)

lemma find_append_Some: "find P xs = Some x \<Longrightarrow> find P (xs @ ys) = Some x"
  by (induction xs) auto

lemma read_string_extends: "extends p p' \<Longrightarrow> read_string p i = Some v \<Longrightarrow> read_string p' i = Some v"
  by (auto simp: extends_def read_string_def nth_append split: if_splits)

lemma find_function_extends: "extends p p' \<Longrightarrow> find_function p i = Some v \<Longrightarrow> find_function p' i = Some v"
  by (auto simp: extends_def find_function_def find_append_Some)

lemma find_location_extends: "extends p p' \<Longrightarrow> find_location p i = Some v \<Longrightarrow> find_location p' i = Some v"
  by (auto simp: extends_def find_location_def find_append_Some)

lemma read_function_extends:
  "extends p p' \<Longrightarrow> read_function p i = Some v \<Longrightarrow> read_function p' i = Some v"
  by (fastforce simp: read_function_def bind_eq_Some_conv
      intro: find_function_extends read_string_extends)

lemma read_frame_extends:
  "extends p p' \<Longrightarrow> read_frame p i = Some v \<Longrightarrow> read_frame p' i = Some v"
  by (fastforce simp: read_frame_def bind_eq_Some_conv
      intro: find_location_extends read_function_extends)

section \<open>Resolving interned entries\<close>

lemma find_numbered:
  assumes "map g xs = map (\<lambda>i. n + int i) [0..<length xs]" "n \<le> i" "nat (i - n) < length xs"
  shows "find (\<lambda>x. g x = i) xs = Some (xs ! nat (i - n))"
proof -
  have nth: "g (xs ! k) = n + int k" if "k < length xs" for k
  proof -
    have "g (xs ! k) = map g xs ! k" using that by simp
    also have "\<dots> = n + int k" unfolding assms(1) using that by simp
    finally show ?thesis .
  qed
  have "g (xs ! nat (i - n)) = i" using nth [OF assms(3)] assms(2) by simp
  moreover have "g (xs ! k) \<noteq> i" if "k < nat (i - n)" for k
    using nth [of k] that assms(3) by linarith
  ultimately show ?thesis unfolding find_Some_iff using assms(3) by blast
qed

lemma read_string_keys: "string_table.key_of b i = read_string (b_profile b) i"
  by (simp add: string_table.key_of_def read_string_def string_keys_def)

lemma function_table_resolves:
  assumes "wf_functions b" "function_table.key_of b i = Some f"
  shows "\<exists>fn. find_function (b_profile b) i = Some fn \<and> func_of fn = f"
  using assms find_numbered [of fn_id "pf_function (b_profile b)" 1 i]
  by (auto simp: function_table.key_of_def wf_functions_def find_function_def function_keys_def
      split: if_splits)

lemma location_table_resolves:
  assumes "wf_locations b" "location_table.key_of b i = Some l"
  shows "\<exists>lc n. find_location (b_profile b) i = Some lc \<and> lc_line lc = [n] \<and>
    ln_function_id n = loc_func_id l \<and> ln_line n = loc_line_number l"
proof -
  let ?lc = "pf_location (b_profile b) ! nat (i - 1)"
  from assms have i: "1 \<le> i" "nat (i - 1) < length (pf_location (b_profile b))" "loc_of ?lc = l"
    by (auto simp: location_table.key_of_def location_keys_def split: if_splits)
  then have "find_location (b_profile b) i = Some ?lc"
    using assms(1) find_numbered [of lc_id "pf_location (b_profile b)" 1 i]
    by (simp add: wf_locations_def find_location_def)
  moreover obtain n where "lc_line ?lc = [n]"
    using assms(1) i(2) by (auto simp: wf_locations_def length_Suc_conv dest!: nth_mem)
  ultimately show ?thesis using i(3) by (cases l) (auto simp: loc_of_def)
qed

section \<open>The builder invariant\<close>

definition wf_tables :: "builder \<Rightarrow> bool" where
  "wf_tables b \<longleftrightarrow> wf_strings b \<and> wf_functions b \<and> wf_locations b"

text \<open>Everything of a profile but its tables.\<close>

definition same_but_tables :: "profile \<Rightarrow> profile \<Rightarrow> bool" where
  "same_but_tables p p' \<longleftrightarrow> p' = p\<lparr>pf_string_table := pf_string_table p',
     pf_function := pf_function p', pf_location := pf_location p'\<rparr>"

definition grows :: "builder \<Rightarrow> builder \<Rightarrow> bool" where
  "grows b b' \<longleftrightarrow> wf_tables b' \<and> extends (b_profile b) (b_profile b') \<and>
     same_but_tables (b_profile b) (b_profile b')"

lemma same_but_tables_trans: "same_but_tables p q \<Longrightarrow> same_but_tables q r \<Longrightarrow> same_but_tables p r"
  by (cases p; cases q; cases r) (simp add: same_but_tables_def)

lemma grows_trans: "grows a b \<Longrightarrow> grows b c \<Longrightarrow> grows a c"
  unfolding grows_def using extends_trans same_but_tables_trans by blast

lemma grows_refl: "wf_tables b \<Longrightarrow> grows b b"
  by (simp add: grows_def same_but_tables_def)

lemma string_id_grows:
  assumes "wf_tables b" "string_id v b = (Inr i, b')"
  shows "grows b b'" "read_string (b_profile b') i = Some v"
proof -
  have wf: "wf_strings b" using assms(1) by (simp add: wf_tables_def)
  show "read_string (b_profile b') i = Some v"
    using string_table.key_of_intern [OF wf assms(2)] by (simp add: read_string_keys)
  from string_id_interns [OF wf assms(2)] have "wf_strings b'" by simp
  with wf assms(2) assms(1) show "grows b b'"
    by (cases rule: string_id_cases)
      (simp_all add: grows_def same_but_tables_def extends_def wf_tables_def wf_functions_def
        wf_locations_def function_keys_def location_keys_def string_keys_def)
qed

lemma add_function_grows:
  assumes "runtime_ok rt" "wf_tables b" "add_function rt f b = (Inr i, b')"
  shows "grows b b'" "\<exists>fn. find_function (b_profile b') i = Some fn \<and> func_of fn = f"
proof -
  have wf: "wf_functions b" using assms(2) by (simp add: wf_tables_def)
  have wf': "wf_functions b'" using add_function_interns [OF assms(1) wf assms(3)] by simp
  show "\<exists>fn. find_function (b_profile b') i = Some fn \<and> func_of fn = f"
    using function_table.key_of_intern [of rt b f i b'] assms(1,3) wf
    by (intro function_table_resolves [OF wf']) simp
  from assms(1) wf assms(3) assms(2) wf' show "grows b b'"
    by (cases rule: add_function_cases)
      (simp_all add: grows_def same_but_tables_def extends_def wf_tables_def wf_strings_def
        wf_locations_def location_keys_def string_keys_def)
qed

lemma add_location_grows:
  assumes "runtime_ok rt" "wf_tables b" "add_location rt l b = (Inr i, b')"
  shows "grows b b'" "\<exists>lc n. find_location (b_profile b') i = Some lc \<and> lc_line lc = [n] \<and>
    ln_function_id n = loc_func_id l \<and> ln_line n = loc_line_number l"
proof -
  have wf: "wf_locations b" using assms(2) by (simp add: wf_tables_def)
  have wf': "wf_locations b'" using add_location_interns [OF assms(1) wf assms(3)] by simp
  show "\<exists>lc n. find_location (b_profile b') i = Some lc \<and> lc_line lc = [n] \<and>
    ln_function_id n = loc_func_id l \<and> ln_line n = loc_line_number l"
    using location_table.key_of_intern [of rt b l i b'] assms(1,3) wf
    by (intro location_table_resolves [OF wf']) simp
  from assms(1) wf assms(3) assms(2) wf' show "grows b b'"
    by (cases rule: add_location_cases)
      (simp_all add: grows_def same_but_tables_def extends_def wf_tables_def wf_strings_def
        wf_functions_def function_keys_def string_keys_def)
qed

end
