(* ===== verification/BuilderFits.thy ===== *)
theory BuilderFits
  imports BuilderCorrect
begin

text \<open>
  When population succeeds: exactly when the period, the duration, every count, every value
  and every line number fits its 64-bit field. The identifiers always fit, by a bound on the
  size of the tables.
\<close>

section \<open>Loops that stop at the first bad element\<close>

lemma py_for_outcome:
  assumes "I ys s"
    and "\<And>x zs s. \<lbrakk>x \<in> set xs; I zs s; P x\<rbrakk> \<Longrightarrow> \<exists>s'. body x s = (Inr (), s') \<and> I (zs @ [x]) s'"
    and "\<And>x zs s. \<lbrakk>x \<in> set xs; I zs s; \<not> P x\<rbrakk> \<Longrightarrow> fst (body x s) = Inl e"
  shows "if \<forall>x \<in> set xs. P x then \<exists>s'. py_for xs body s = (Inr (), s') \<and> I (ys @ xs) s'
    else fst (py_for xs body s) = Inl e"
  using assms
proof (induction xs arbitrary: ys s)
  case Nil
  then show ?case by (simp add: py_return_def)
next
  case (Cons x xs)
  show ?case
  proof (cases "P x")
    case True
    with Cons.prems obtain s' where s': "body x s = (Inr (), s')" "I (ys @ [x]) s'" by fastforce
    from Cons.IH [OF s'(2)] Cons.prems(2,3) s'(1) True show ?thesis by auto
  next
    case False
    with Cons.prems have "fst (body x s) = Inl e" by simp
    then obtain s' where "body x s = (Inl e, s')" by (cases "body x s") simp
    with False show ?thesis by auto
  qed
qed

section \<open>Table sizes and line numbers\<close>

definition tables_size :: "builder \<Rightarrow> nat" where
  "tables_size b = length (string_keys b) + length (function_keys b) + length (location_keys b)"

definition lines_fit :: "builder \<Rightarrow> bool" where
  "lines_fit b \<longleftrightarrow> (\<forall>l \<in> set (location_keys b). in_range Int64 (loc_line_number l))"

text \<open>The state of the population that cannot fail on identifiers for the next \<open>k\<close> entries.\<close>

definition roomy :: "nat \<Rightarrow> builder \<Rightarrow> bool" where
  "roomy k b \<longleftrightarrow> wf_tables b \<and> lines_fit b \<and> tables_size b + k < 2 ^ 63"

lemma roomy_mono: "roomy k b \<Longrightarrow> j \<le> k \<Longrightarrow> roomy j b"
  by (simp add: roomy_def)

lemma roomy_lengths:
  assumes "roomy k b"
  shows "length (string_keys b) < 2 ^ 63" "length (function_keys b) < 2 ^ 63"
    "length (location_keys b) < 2 ^ 63"
  using assms unfolding roomy_def tables_size_def by linarith+

lemma id_bound:
  assumes "nat (i - c) < n" "n < 2 ^ 63" "c \<le> 1" shows "i < (2 :: int) ^ 63"
proof -
  have "i - c < int n" using assms(1) by linarith
  moreover have "int n < 2 ^ 63" using assms(2) by (simp add: of_nat_less_numeral_power_cancel_iff [symmetric])
  ultimately show ?thesis using assms(3) by linarith
qed

lemma roomy_update:
  assumes "roomy k b" "pf_string_table p = pf_string_table (b_profile b)"
    "pf_function p = pf_function (b_profile b)" "pf_location p = pf_location (b_profile b)"
  shows "roomy k (b\<lparr>b_profile := p\<rparr>)"
  using assms wf_tables_update [of b p]
  by (simp add: roomy_def lines_fit_def tables_size_def string_keys_def function_keys_def location_keys_def)

lemma string_id_total:
  assumes "roomy (Suc k) b"
  obtains i b' where "string_id v b = (Inr i, b')" "roomy k b'" "0 \<le> i" "i < 2 ^ 63"
proof -
  obtain i b' where step: "string_id v b = (Inr i, b')"
    using string_id_eq [of v b] by (auto split: option.splits)
  have wf: "wf_tables b" "wf_strings b" using assms by (simp_all add: roomy_def wf_tables_def)
  note it = string_id_interns [OF wf(2) step]
  have "function_keys b' = function_keys b" "location_keys b' = location_keys b"
    using wf(2) step by (cases rule: string_id_cases; simp add: function_keys_def location_keys_def)+
  with it assms growsD(1) [OF string_id_grows(1) [OF wf(1) step]]
  have r: "roomy k b'" by (auto simp: roomy_def tables_size_def lines_fit_def)
  have "nat (i - 0) < length (string_keys b')" "0 \<le> i" using it by blast+
  then have "i < 2 ^ 63" using id_bound roomy_lengths [OF r] by fastforce
  with step r it show ?thesis using that by blast
qed

lemma add_function_total:
  assumes rt: "runtime_ok rt" and "roomy (Suc k) b"
    and "in_range Int64 (func_name f)" "in_range Int64 (func_filename f)"
  obtains i b' where "add_function rt f b = (Inr i, b')" "roomy k b'" "0 \<le> i" "i < 2 ^ 63"
proof -
  have wf: "wf_tables b" "wf_functions b" using assms(2) by (simp_all add: roomy_def wf_tables_def)
  have len: "length (b_function_map b) = length (function_keys b)"
    using wf(2) by (simp add: wf_functions_def)
  have "in_range Uint64 (int (length (b_function_map b)) + 1)"
    using assms(2) by (intro in_range_small) (simp_all add: len roomy_def tables_size_def)
  then obtain i b' where step: "add_function rt f b = (Inr i, b')"
    using add_function_new [OF rt _ assms(3,4)] add_function_old [of b f]
    by (cases "dict_get (b_function_map b) f") auto
  note it = add_function_interns [OF rt wf(2) step]
  have "string_keys b' = string_keys b" "location_keys b' = location_keys b"
    using rt wf(2) step by (cases rule: add_function_cases; simp add: string_keys_def location_keys_def)+
  with it assms(2) growsD(1) [OF add_function_grows(1) [OF rt wf(1) step]]
  have r: "roomy k b'" by (auto simp: roomy_def tables_size_def lines_fit_def)
  have "nat (i - 1) < length (function_keys b')" "1 \<le> i" using it by blast+
  then have "i < 2 ^ 63" using id_bound roomy_lengths [OF r] by fastforce
  with step r it show ?thesis using that by auto
qed

lemma add_location_total:
  assumes rt: "runtime_ok rt" and "roomy (Suc k) b"
    and "in_range Uint64 (loc_func_id l)" "in_range Int64 (loc_line_number l)"
  obtains i b' where "add_location rt l b = (Inr i, b')" "roomy k b'" "0 \<le> i" "i < 2 ^ 63"
proof -
  have wf: "wf_tables b" "wf_locations b" using assms(2) by (simp_all add: roomy_def wf_tables_def)
  have len: "length (b_location_map b) = length (location_keys b)"
    using wf(2) by (simp add: wf_locations_def)
  have "in_range Uint64 (int (length (b_location_map b)) + 1)"
    using assms(2) by (intro in_range_small) (simp_all add: len roomy_def tables_size_def)
  then obtain i b' where step: "add_location rt l b = (Inr i, b')"
    using add_location_new [OF rt _ _ assms(4,3)] add_location_old [of b l]
    by (cases "dict_get (b_location_map b) l") auto
  note it = add_location_interns [OF rt wf(2) step]
  have "string_keys b' = string_keys b" "function_keys b' = function_keys b"
    using rt wf(2) step by (cases rule: add_location_cases; simp add: string_keys_def function_keys_def)+
  moreover have "lines_fit b'"
    using it assms(2,4) by (auto simp: roomy_def lines_fit_def simp del: in_range.simps)
  ultimately have r: "roomy k b'"
    using it assms(2) growsD(1) [OF add_location_grows(1) [OF rt wf(1) step]]
    by (auto simp: roomy_def tables_size_def)
  have "nat (i - 1) < length (location_keys b')" "1 \<le> i" using it by blast+
  then have "i < 2 ^ 63" using id_bound roomy_lengths [OF r] by fastforce
  with step r it show ?thesis using that by auto
qed

lemma add_location_bad_line:
  assumes rt: "runtime_ok rt" and "roomy k b" and "\<not> in_range Int64 (loc_line_number l)"
  shows "fst (add_location rt l b) = Inl ValueError"
proof -
  have wf: "wf_locations b" using assms(2) by (simp add: roomy_def wf_tables_def)
  have "l \<notin> set (location_keys b)"
    using assms(2,3) by (auto simp: roomy_def lines_fit_def simp del: in_range.simps)
  then have "dict_get (b_location_map b) l = None"
    using wf by (simp add: wf_locations_def dict_get_numbered_None)
  then show ?thesis using assms(3) by (intro add_location_fails [OF rt]) blast+
qed

section \<open>Frames, samples, header\<close>

lemma store_small:
  assumes "runtime_ok rt" "0 \<le> v" "v < 2 ^ 63"
  shows "store rt t v g b = (Inr (), b\<lparr>b_profile := g v (b_profile b)\<rparr>)"
  using store_eq [OF assms(1)] in_range_small [OF assms(2,3)] by simp

definition frame_fits :: "frame_tuple \<Rightarrow> bool" where
  "frame_fits fr = in_range Int64 (snd (snd fr))"

lemma add_frame_outcome:
  assumes rt: "runtime_ok rt" and r: "roomy (k + 4) b"
  shows "if frame_fits fr then \<exists>b'. add_frame rt fr b = (Inr (), b') \<and> roomy k b'
    else fst (add_frame rt fr b) = Inl ValueError"
proof -
  obtain name filename line where fr: "fr = (name, filename, line)" by (cases fr)
  from r have "roomy (Suc (k + 3)) b" by (simp add: eval_nat_numeral)
  then obtain n b1 where s1: "string_id name b = (Inr n, b1)" "roomy (k + 3) b1" "0 \<le> n" "n < 2 ^ 63"
    by (rule string_id_total)
  then have "roomy (Suc (k + 2)) b1" by (simp add: eval_nat_numeral)
  then obtain m b2 where s2: "string_id filename b1 = (Inr m, b2)" "roomy (k + 2) b2" "0 \<le> m" "m < 2 ^ 63"
    by (rule string_id_total)
  then have "roomy (Suc (k + 1)) b2" by (simp add: eval_nat_numeral)
  then obtain f b3 where s3: "add_function rt (Func n m) b2 = (Inr f, b3)" "roomy (k + 1) b3"
    "0 \<le> f" "f < 2 ^ 63"
    by (rule add_function_total [OF rt]) (use s1 s2 in \<open>auto intro: in_range_small simp del: in_range.simps\<close>)
  have fid: "function_id rt name filename b = (Inr f, b3)"
    using s1(1) s2(1) s3(1) by (simp add: function_id_def)
  show ?thesis
  proof (cases "frame_fits fr")
    case True
    from s3(2) have "roomy (Suc k) b3" by simp
    then obtain i b4 where s4: "add_location rt (Loc f line) b3 = (Inr i, b4)" "roomy k b4"
      "0 \<le> i" "i < 2 ^ 63"
      by (rule add_location_total [OF rt])
        (use s3 True in \<open>auto intro: in_range_small simp: frame_fits_def fr simp del: in_range.simps\<close>)
    show ?thesis using True fid s4 roomy_update [OF s4(2)]
      by (simp add: add_frame_def fr location_id_def store_small [OF rt] upd_sample_def)
  next
    case False
    then have "fst (add_location rt (Loc f line) b3) = Inl ValueError"
      by (intro add_location_bad_line [OF rt s3(2)]) (simp add: frame_fits_def fr)
    then obtain b4 where "add_location rt (Loc f line) b3 = (Inl ValueError, b4)"
      by (cases "add_location rt (Loc f line) b3") simp
    with False fid show ?thesis by (simp add: add_frame_def fr location_id_def)
  qed
qed

lemma add_frames_outcome:
  assumes rt: "runtime_ok rt" and r: "roomy (k + 4 * length trace) b"
  shows "if \<forall>fr \<in> set trace. frame_fits fr
    then \<exists>b'. py_for trace (add_frame rt) b = (Inr (), b') \<and> roomy k b'
    else fst (py_for trace (add_frame rt) b) = Inl ValueError"
  using r
proof (induction trace arbitrary: b)
  case Nil
  then show ?case by (simp add: py_return_def)
next
  case (Cons fr trace)
  from Cons.prems have "roomy (k + 4 * length trace + 4) b" by (simp add: algebra_simps)
  note o = add_frame_outcome [OF rt this, of fr]
  show ?case
  proof (cases "frame_fits fr")
    case True
    with o obtain b' where "add_frame rt fr b = (Inr (), b')" "roomy (k + 4 * length trace) b'" by auto
    with Cons.IH [of b'] True show ?thesis by auto
  next
    case False
    with o obtain b' where "add_frame rt fr b = (Inl ValueError, b')" by (cases "add_frame rt fr b") auto
    with False show ?thesis by auto
  qed
qed

definition item_fits :: "int \<Rightarrow> trace \<times> int \<Rightarrow> bool" where
  "item_fits period item \<longleftrightarrow> in_range Int64 (snd item) \<and> in_range Int64 (period * snd item) \<and>
     (\<forall>fr \<in> set (fst item). frame_fits fr)"

lemma add_sample_outcome:
  assumes rt: "runtime_ok rt" and r: "roomy (k + 4 * length (fst item)) b"
  shows "if item_fits period item then \<exists>b'. add_sample rt period item b = (Inr (), b') \<and> roomy k b'
    else fst (add_sample rt period item b) = Inl ValueError"
proof -
  obtain trace count where item: "item = (trace, count)" by (cases item)
  let ?s = "new_sample\<lparr>sm_value := [count, period * count]\<rparr>"
  let ?b = "b\<lparr>b_profile := (b_profile b)\<lparr>pf_sample := pf_sample (b_profile b) @ [?s]\<rparr>\<rparr>"
  have "roomy (k + 4 * length trace) ?b" using r by (intro roomy_update) (simp_all add: item)
  note o = add_frames_outcome [OF rt this]
  have eq: "add_sample rt period item b = py_for trace (add_frame rt) ?b"
    if "in_range Int64 count" "in_range Int64 (period * count)"
    using that rt by (simp add: add_sample_def item py_bind_def on_profile_eq store_eq upd_sample_def
        new_sample_def del: in_range.simps)
  have bad: "fst (add_sample rt period item b) = Inl ValueError"
    if "\<not> (in_range Int64 count \<and> in_range Int64 (period * count))"
    using that rt by (auto simp: add_sample_def item py_bind_def on_profile_eq store_eq
        simp del: in_range.simps)
  show ?thesis
  proof (cases "in_range Int64 count \<and> in_range Int64 (period * count)")
    case True
    then have "item_fits period item \<longleftrightarrow> (\<forall>fr \<in> set trace. frame_fits fr)"
      by (simp add: item_fits_def item del: in_range.simps)
    with o eq True show ?thesis by presburger
  next
    case False
    with bad show ?thesis by (auto simp: item_fits_def item simp del: in_range.simps)
  qed
qed

lemma add_sample_type_total:
  assumes rt: "runtime_ok rt" and r: "roomy (k + 2) b"
  obtains b' where "add_sample_type rt ty un b = (Inr (), b')" "roomy k b'"
proof -
  let ?p0 = "(b_profile b)\<lparr>pf_sample_type := pf_sample_type (b_profile b) @ [new_value_type]\<rparr>"
  have "roomy (Suc (k + 1)) (b\<lparr>b_profile := ?p0\<rparr>)" using r by (intro roomy_update) simp_all
  then obtain i b1 where s1: "string_id ty (b\<lparr>b_profile := ?p0\<rparr>) = (Inr i, b1)" "roomy (k + 1) b1"
    "0 \<le> i" "i < 2 ^ 63" by (rule string_id_total)
  let ?b2 = "b1\<lparr>b_profile := upd_sample_type (\<lambda>t. t\<lparr>vt_type := i\<rparr>) (b_profile b1)\<rparr>"
  have "roomy (Suc k) ?b2" using s1(2) by (intro roomy_update) (simp_all add: upd_sample_type_def)
  then obtain j b3 where s3: "string_id un ?b2 = (Inr j, b3)" "roomy k b3" "0 \<le> j" "j < 2 ^ 63"
    by (rule string_id_total)
  let ?b' = "b3\<lparr>b_profile := upd_sample_type (\<lambda>t. t\<lparr>vt_unit := j\<rparr>) (b_profile b3)\<rparr>"
  have "add_sample_type rt ty un b = (Inr (), ?b')"
    using s1 s3 by (simp add: add_sample_type_def py_bind_def on_profile_eq store_small [OF rt])
  moreover have "roomy k ?b'" using s3(2) by (intro roomy_update) (simp_all add: upd_sample_type_def)
  ultimately show ?thesis by (rule that)
qed

lemma set_header_outcome:
  assumes rt: "runtime_ok rt" and r: "roomy (k + 6) b"
  shows "if in_range Int64 period \<and> in_range Int64 dur
    then \<exists>b'. set_header rt pt pu period dur b = (Inr (), b') \<and> roomy k b'
    else fst (set_header rt pt pu period dur b) = Inl ValueError"
proof -
  let ?ty = "\<lambda>w p. p\<lparr>pf_period_type := (pf_period_type p)\<lparr>vt_type := w\<rparr>\<rparr>"
  let ?un = "\<lambda>w p. p\<lparr>pf_period_type := (pf_period_type p)\<lparr>vt_unit := w\<rparr>\<rparr>"
  from r have "roomy (Suc (k + 5)) b" by (simp add: eval_nat_numeral)
  then obtain i b1 where s1: "string_id pt b = (Inr i, b1)" "roomy (k + 5) b1" "0 \<le> i" "i < 2 ^ 63"
    by (rule string_id_total)
  let ?b2 = "b1\<lparr>b_profile := ?ty i (b_profile b1)\<rparr>"
  have "roomy (k + 5) ?b2" using s1(2) by (intro roomy_update) simp_all
  then have "roomy (Suc (k + 4)) ?b2" by (simp add: eval_nat_numeral)
  then obtain j b3 where s3: "string_id pu ?b2 = (Inr j, b3)" "roomy (k + 4) b3" "0 \<le> j" "j < 2 ^ 63"
    by (rule string_id_total)
  have ij: "in_range t i" "in_range t j" for t
    using in_range_small s1(3,4) s3(3,4) by blast+
  let ?p6 = "(?un j (b_profile b3))\<lparr>pf_period := period, pf_duration_nanos := dur\<rparr>"
  let ?b6 = "b3\<lparr>b_profile := ?p6\<rparr>"
  show ?thesis
  proof (cases "in_range Int64 period \<and> in_range Int64 dur")
    case True
    have "roomy (k + 2 + 2) ?b6" using s3(2) by (intro roomy_update) (simp_all add: eval_nat_numeral)
    then obtain b7 where s7: "add_sample_type rt ''sample'' ''count'' ?b6 = (Inr (), b7)" "roomy (k + 2) b7"
      by (rule add_sample_type_total [OF rt])
    from s7(2) obtain b8 where s8: "add_sample_type rt pt pu b7 = (Inr (), b8)" "roomy k b8"
      by (rule add_sample_type_total [OF rt])
    have "set_header rt pt pu period dur b = (Inr (), b8)"
      using s1 s3 s7(1) s8(1) True
      by (simp add: set_header_def py_bind_def ij store_eq [OF rt] del: in_range.simps)
    with True s8(2) show ?thesis by simp
  next
    case False
    then show ?thesis using s1 s3
      by (auto simp: set_header_def py_bind_def ij store_eq [OF rt] simp del: in_range.simps)
  qed
qed

definition frames_total :: "(trace, int) dict \<Rightarrow> nat" where
  "frames_total traces = sum_list (map (length \<circ> fst) traces)"

definition data_fits :: "(trace, int) dict \<Rightarrow> int \<Rightarrow> int \<Rightarrow> bool" where
  "data_fits traces period dur \<longleftrightarrow> in_range Int64 period \<and> in_range Int64 dur \<and>
     (\<forall>item \<in> set traces. item_fits period item)"

lemma add_samples_outcome:
  assumes rt: "runtime_ok rt" and r: "roomy (4 * frames_total traces) b"
  shows "if \<forall>item \<in> set traces. item_fits period item
    then \<exists>b'. py_for traces (add_sample rt period) b = (Inr (), b')
    else fst (py_for traces (add_sample rt period) b) = Inl ValueError"
  using r
proof (induction traces arbitrary: b)
  case Nil
  then show ?case by (simp add: py_return_def)
next
  case (Cons item traces)
  from Cons.prems have "roomy (4 * frames_total traces + 4 * length (fst item)) b"
    by (simp add: frames_total_def algebra_simps)
  note o = add_sample_outcome [OF rt this, of period]
  show ?case
  proof (cases "item_fits period item")
    case True
    with o obtain b' where "add_sample rt period item b = (Inr (), b')" "roomy (4 * frames_total traces) b'"
      by auto
    with Cons.IH [of b'] True show ?thesis by auto
  next
    case False
    with o obtain b' where "add_sample rt period item b = (Inl ValueError, b')"
      by (cases "add_sample rt period item b") auto
    with False show ?thesis by auto
  qed
qed

lemma populate_profile_outcome:
  assumes rt: "runtime_ok rt" and size: "7 + 4 * frames_total traces < 2 ^ 63"
  shows "if data_fits traces period dur
    then \<exists>b. populate_profile rt traces pt pu period dur Builder_init = (Inr (), b)
    else fst (populate_profile rt traces pt pu period dur Builder_init) = Inl ValueError"
proof -
  have "tables_size Builder_init = 1" "lines_fit Builder_init"
    by (simp_all add: tables_size_def lines_fit_def string_keys_def function_keys_def
        location_keys_def Builder_init_eq empty_builder_def new_profile_def)
  then have "roomy (4 * frames_total traces + 6) Builder_init"
    using wf_tables_init size by (simp add: roomy_def)
  note h = set_header_outcome [OF rt this, of period dur pt pu]
  show ?thesis
  proof (cases "in_range Int64 period \<and> in_range Int64 dur")
    case True
    with h obtain b1 where "set_header rt pt pu period dur Builder_init = (Inr (), b1)"
      "roomy (4 * frames_total traces) b1" by (auto simp del: in_range.simps)
    then show ?thesis using add_samples_outcome [OF rt, of traces b1 period] True
      by (simp add: populate_profile_def data_fits_def del: in_range.simps)
  next
    case False
    with h obtain b1 where "set_header rt pt pu period dur Builder_init = (Inl ValueError, b1)"
      by (cases "set_header rt pt pu period dur Builder_init") (auto simp del: in_range.simps)
    with False show ?thesis by (auto simp: populate_profile_def data_fits_def simp del: in_range.simps)
  qed
qed

end
