(* ===== verification/BuilderSpec.thy ===== *)
theory BuilderSpec
  imports BuilderFits
begin

text \<open>
  The contract of the profile builder: the properties of the manifest about \<open>builder.py\<close>.
\<close>

section \<open>Validity of a profile\<close>

definition valid_profile :: "profile \<Rightarrow> bool" where
  "valid_profile p \<longleftrightarrow> pf_string_table p \<noteq> [] \<and> hd (pf_string_table p) = '''' \<and>
     distinct (pf_string_table p) \<and>
     distinct (map fn_id (pf_function p)) \<and> distinct (map lc_id (pf_location p)) \<and>
     (\<forall>f \<in> set (pf_function p). fn_id f \<noteq> 0) \<and> (\<forall>l \<in> set (pf_location p). lc_id l \<noteq> 0) \<and>
     (\<forall>s \<in> set (pf_sample p). length (sm_value s) = length (pf_sample_type p) \<and>
        (\<forall>i \<in> set (sm_location_id s). read_frame p i \<noteq> None))"

lemma numbers_distinct_pos:
  assumes "map g xs = map (\<lambda>i. 1 + int i) [0..<length xs]"
  shows "distinct (map g xs)" "\<forall>x \<in> set xs. g x \<noteq> 0"
proof -
  show "distinct (map g xs)" unfolding assms by (simp add: distinct_map inj_on_def)
  have "0 \<notin> set (map g xs)" unfolding assms by auto
  then show "\<forall>x \<in> set xs. g x \<noteq> 0" by force
qed

lemma populated_valid:
  assumes "runtime_ok rt"
    and "populate_profile rt traces profile_type period_unit period duration_ns Builder_init = (Inr u, b)"
  shows "valid_profile (b_profile b) \<and>
    distinct (map func_of (pf_function (b_profile b))) \<and>
    distinct (map loc_of (pf_location (b_profile b)))"
proof -
  note st = populate_profile_step [OF assms]
  let ?p = "b_profile b"
  have wf: "wf_strings b" "wf_functions b" "wf_locations b" using st(1) by (simp_all add: wf_tables_def)
  have "pf_string_table ?p \<noteq> [] \<and> hd (pf_string_table ?p) = ''''"
    using st(2) by (auto simp: extends_def Builder_init_eq)
  moreover have "length (pf_sample_type ?p) = 2"
    using st(3) by (auto simp: header_read_def dest!: arg_cong [of _ _ length])
  moreover have "length (sm_value s) = 2 \<and> (\<forall>i \<in> set (sm_location_id s). read_frame ?p i \<noteq> None)"
    if "s \<in> set (pf_sample ?p)" for s
  proof -
    have "read_sample ?p s \<in> set (map (spec_sample period) traces)"
      using that st(4) by (metis image_eqI list.set_map)
    then obtain tr c where "map (read_frame ?p) (sm_location_id s) = map Some tr"
      "sm_value s = [c, period * c]"
      by (auto simp: read_sample_def spec_sample_def)
    then show ?thesis by (metis imageE image_eqI length_Cons list.set_map list.size(3)
          numeral_2_eq_2 option.distinct(1))
  qed
  ultimately show ?thesis
    using wf numbers_distinct_pos [of fn_id "pf_function ?p"] numbers_distinct_pos [of lc_id "pf_location ?p"]
    by (auto simp: valid_profile_def wf_strings_def wf_functions_def wf_locations_def string_keys_def
        function_keys_def location_keys_def)
qed

text \<open>What the profilers return when they return bytes.\<close>

lemma build_profile_valid:
  assumes "runtime_ok rt" "build_profile rt traces ty un period d = Inr bytes"
  obtains p where "bytes = pb_gzip rt (pb_serialize rt p)" "valid_profile p" "header_read p ty un period d"
    "map (read_sample p) (pf_sample p) = map (spec_sample period) traces"
proof -
  obtain b where run: "populate_profile rt traces ty un period d Builder_init = (Inr (), b)"
    and e: "bytes = emit rt b"
    using assms(2) by (auto simp: build_profile_def split: prod.splits sum.splits)
  from populate_profile_step [OF assms(1) run] populated_valid [OF assms(1) run] e show ?thesis
    by (intro that [of "b_profile b"]) (simp_all add: emit_def)
qed

section \<open>Properties\<close>

text \<open>
  C4: populating a fresh builder stores what it is given. Reading the profile back as the
  format prescribes, resolving every location, function and string identifier, gives the traces
  of the input in their order, each with its count and its count times the period, and the
  header holds the types, the period and the duration.
\<close>

theorem populate_profile_reads_back:
  assumes "runtime_ok rt"
    and "populate_profile rt traces profile_type period_unit period duration_ns Builder_init = (Inr u, b)"
  shows "map (read_sample (b_profile b)) (pf_sample (b_profile b)) =
      map (\<lambda>(trace, count). (map Some trace, [count, period * count])) traces \<and>
    header_read (b_profile b) profile_type period_unit period duration_ns"
  using populate_profile_step [OF assms] by (simp add: spec_sample_def case_prod_beta')

theorem populate_profile_reads_back_witness:
  "\<exists>b. populate_profile sample_runtime [([(''f'', ''a.py'', 3), (''g'', ''a.py'', 9)], 2)]
      ''CPU'' ''nanoseconds'' 10000000 1000000000 Builder_init = (Inr (), b) \<and>
    map (read_sample (b_profile b)) (pf_sample (b_profile b)) =
      [([Some (''f'', ''a.py'', 3), Some (''g'', ''a.py'', 9)], [2, 20000000])]"
proof -
  obtain b where run: "populate_profile sample_runtime [([(''f'', ''a.py'', 3), (''g'', ''a.py'', 9)], 2)]
      ''CPU'' ''nanoseconds'' 10000000 1000000000 Builder_init = (Inr (), b)"
    using populate_profile_outcome [OF sample_runtime_ok,
        of "[([(''f'', ''a.py'', 3), (''g'', ''a.py'', 9)], 2)]" 10000000 1000000000 "''CPU''" "''nanoseconds''"]
    by (auto simp: frames_total_def data_fits_def item_fits_def frame_fits_def)
  with populate_profile_reads_back [OF sample_runtime_ok run] show ?thesis by auto
qed

text \<open>
  C5: the profile is valid: the string table starts with the empty string, no string, function
  or location occurs twice, no identifier is zero, every sample has one value per sample type
  and every location identifier of a sample resolves to a frame.
\<close>

theorem populate_profile_valid:
  assumes "runtime_ok rt"
    and "populate_profile rt traces profile_type period_unit period duration_ns Builder_init = (Inr u, b)"
  shows "valid_profile (b_profile b) \<and>
    distinct (map func_of (pf_function (b_profile b))) \<and>
    distinct (map loc_of (pf_location (b_profile b)))"
  by (rule populated_valid [OF assms])

theorem populate_profile_valid_witness:
  "\<exists>b. populate_profile sample_runtime [([(''f'', ''a.py'', 3), (''f'', ''a.py'', 3)], 2)]
      ''CPU'' ''nanoseconds'' 10000000 1000000000 Builder_init = (Inr (), b) \<and>
    valid_profile (b_profile b)"
proof -
  obtain b where run: "populate_profile sample_runtime [([(''f'', ''a.py'', 3), (''f'', ''a.py'', 3)], 2)]
      ''CPU'' ''nanoseconds'' 10000000 1000000000 Builder_init = (Inr (), b)"
    using populate_profile_outcome [OF sample_runtime_ok,
        of "[([(''f'', ''a.py'', 3), (''f'', ''a.py'', 3)], 2)]" 10000000 1000000000 "''CPU''" "''nanoseconds''"]
    by (auto simp: frames_total_def data_fits_def item_fits_def frame_fits_def)
  with populate_profile_valid [OF sample_runtime_ok run] show ?thesis by auto
qed

text \<open>
  C6: population raises \<open>ValueError\<close> exactly when a number does not fit its 64-bit field
  (the period, the duration, a count, a count times the period, or a line number), whatever
  the traces, as long as the identifiers themselves cannot overflow.
\<close>

theorem populate_profile_result:
  assumes "runtime_ok rt" and "7 + 4 * frames_total traces < 2 ^ 63"
  shows "fst (populate_profile rt traces profile_type period_unit period duration_ns Builder_init) =
    (if data_fits traces period duration_ns then Inr () else Inl ValueError)"
  using populate_profile_outcome [OF assms, of period duration_ns profile_type period_unit]
  by (auto split: if_splits)

theorem populate_profile_result_witness:
  "fst (populate_profile sample_runtime [([(''f'', ''a.py'', 3)], 2 ^ 40)] ''CPU'' ''nanoseconds''
      10000000 1000000000 Builder_init) = Inl ValueError"
  using populate_profile_result [OF sample_runtime_ok,
      of "[([(''f'', ''a.py'', 3)], 2 ^ 40)]" "''CPU''" "''nanoseconds''" 10000000 1000000000]
  by (simp add: frames_total_def data_fits_def item_fits_def frame_fits_def)

end
