(* ===== verification/PyFloat.thy ===== *)
theory PyFloat
  imports Prelude "HOL-Library.Log_Nat"
begin

text \<open>
  Python's \<open>float\<close>: IEEE 754 binary64 with round-half-even, as a rounding function on
  exact rationals. A float is the rational it denotes; each arithmetic operation of the code is
  the exact operation followed by \<open>fl\<close>. Subnormals are rounded at the fixed exponent
  \<open>-1074\<close>; infinities and NaN are not modelled (the quantities of the agent, seconds and
  nanoseconds, stay far below \<open>2 ^ 1023\<close>).
\<close>

type_synonym pyfloat = rat

section \<open>Rounding\<close>

definition rne :: "rat \<Rightarrow> int" where
  "rne x = (let q = \<lfloor>x\<rfloor>; r = x - of_int q in
     if r < 1 / 2 \<or> (r = 1 / 2 \<and> even q) then q else q + 1)"

definition ilog2 :: "rat \<Rightarrow> int" where
  "ilog2 x = (let (n, d) = quotient_of x; k = bitlen n - bitlen d in
     if 2 powi k \<le> x then k else k - 1)"

definition ulp_exp :: "rat \<Rightarrow> int" where
  "ulp_exp x = max (ilog2 x - 52) (-1074)"

definition fl_pos :: "rat \<Rightarrow> pyfloat" where
  "fl_pos x = (let e = ulp_exp x in of_int (rne (x / 2 powi e)) * 2 powi e)"

definition fl :: "rat \<Rightarrow> pyfloat" where
  "fl x = (if x = 0 then 0 else if x < 0 then - fl_pos (- x) else fl_pos x)"

text \<open>The operations the code uses: \<open>int()\<close> truncates towards zero.\<close>

definition float_of_int :: "int \<Rightarrow> pyfloat" where
  "float_of_int n = fl (of_int n)"

definition fadd :: "pyfloat \<Rightarrow> pyfloat \<Rightarrow> pyfloat" where
  "fadd x y = fl (x + y)"

definition fsub :: "pyfloat \<Rightarrow> pyfloat \<Rightarrow> pyfloat" where
  "fsub x y = fl (x - y)"

definition fmul :: "pyfloat \<Rightarrow> pyfloat \<Rightarrow> pyfloat" where
  "fmul x y = fl (x * y)"

definition fdiv :: "pyfloat \<Rightarrow> pyfloat \<Rightarrow> pyfloat res" where
  "fdiv x y = (if y = 0 then Inl ZeroDivisionError else Inr (fl (x / y)))"

definition int_truediv :: "int \<Rightarrow> int \<Rightarrow> pyfloat res" where
  "int_truediv a b = (if b = 0 then Inl ZeroDivisionError else Inr (fl (of_int a / of_int b)))"

definition int_of_float :: "pyfloat \<Rightarrow> int" where
  "int_of_float x = (if 0 \<le> x then \<lfloor>x\<rfloor> else \<lceil>x\<rceil>)"

text \<open>
  \<open>time.sleep\<close>: the duration is converted to signed 64-bit nanoseconds; one that does not fit
  or is negative raises.
\<close>

definition time_sleep :: "pyfloat \<Rightarrow> unit res" where
  "time_sleep d = (let ns = fmul d 1000000000 in
     if ns < - (2 ^ 63) \<or> 2 ^ 63 \<le> ns then Inl OverflowError
     else if d < 0 then Inl ValueError else Inr ())"

section \<open>Rounding to an integer\<close>

lemma rne_of_int [simp]: "rne (of_int n) = n"
  by (simp add: rne_def)

lemma rne_bounds: "\<bar>of_int (rne x) - x\<bar> \<le> 1 / 2"
proof -
  have "of_int \<lfloor>x\<rfloor> \<le> x" "x < of_int \<lfloor>x\<rfloor> + 1" by linarith+
  then show ?thesis unfolding rne_def Let_def by auto
qed

lemma rne_mono:
  assumes "x \<le> y" shows "rne x \<le> rne y"
proof (cases "\<lfloor>x\<rfloor> = \<lfloor>y\<rfloor>")
  case True
  with assms show ?thesis by (auto simp: rne_def Let_def)
next
  case False
  with floor_mono [OF assms] have "\<lfloor>x\<rfloor> + 1 \<le> \<lfloor>y\<rfloor>" by linarith
  moreover have "rne x \<le> \<lfloor>x\<rfloor> + 1" "\<lfloor>y\<rfloor> \<le> rne y" by (simp_all add: rne_def Let_def)
  ultimately show ?thesis by linarith
qed

section \<open>The binary exponent\<close>

lemma powi_mono: "e \<le> f \<Longrightarrow> (2 :: rat) powi e \<le> 2 powi f"
  by (simp add: power_int_increasing)

lemma powi_strict_mono: "e < f \<Longrightarrow> (2 :: rat) powi e < 2 powi f"
  by (simp add: power_int_strict_increasing)

lemma powi_pos [simp]: "(0 :: rat) < 2 powi e"
  by simp

lemma powi_less_cancel: "(2 :: rat) powi e < 2 powi f \<Longrightarrow> e < f"
  by (meson powi_mono not_le)

lemma powi_bitlen:
  assumes "0 < n"
  shows "(2 :: rat) powi (bitlen n - 1) \<le> of_int n" "of_int n < (2 :: rat) powi bitlen n"
proof -
  have pos: "0 < bitlen n"
    using assms bitlen_nonneg [of n] bitlen_eq_zero_iff [of n] by linarith
  have "(of_int (2 ^ nat (bitlen n - 1)) :: rat) \<le> of_int n"
    using bitlen_bounds [OF assms] by (simp only: of_int_le_iff)
  moreover have "(2 :: rat) powi (bitlen n - 1) = of_int (2 ^ nat (bitlen n - 1))"
    using pos by (simp add: power_int_def)
  ultimately show "(2 :: rat) powi (bitlen n - 1) \<le> of_int n" by simp
  have "(of_int n :: rat) < of_int (2 ^ nat (bitlen n))"
    using bitlen_bounds [OF assms] by (simp only: of_int_less_iff)
  moreover have "(2 :: rat) powi bitlen n = of_int (2 ^ nat (bitlen n))"
    using pos by (simp add: power_int_def)
  ultimately show "of_int n < (2 :: rat) powi bitlen n" by simp
qed

lemma ilog2_bounds:
  assumes "0 < x"
  shows "2 powi ilog2 x \<le> x" "x < 2 powi (ilog2 x + 1)"
proof -
  obtain n d where nd: "quotient_of x = (n, d)" by force
  have d: "0 < d" using quotient_of_denom_pos [OF nd] .
  have x: "x = of_int n / of_int d" by (rule quotient_of_div [OF nd])
  have n: "0 < n" using assms d by (simp add: x zero_less_divide_iff)
  let ?k = "bitlen n - bitlen d"
  have lo: "2 powi (?k - 1) \<le> x"
  proof -
    have "(2 :: rat) powi (?k - 1) = 2 powi (bitlen n - 1) / 2 powi bitlen d"
      by (simp add: power_int_diff)
    also have "\<dots> \<le> of_int n / of_int d"
      using powi_bitlen [OF n] powi_bitlen [OF d] d n by (intro frac_le) auto
    finally show ?thesis by (simp add: x)
  qed
  have hi: "x < 2 powi (?k + 1)"
  proof -
    have "of_int n / of_int d < 2 powi bitlen n / (2 :: rat) powi (bitlen d - 1)"
      using powi_bitlen [OF n] powi_bitlen [OF d] d n by (intro frac_less) auto
    also have "\<dots> = 2 powi (?k + 1)" by (simp add: power_int_diff power_int_add field_simps)
    finally show ?thesis by (simp add: x)
  qed
  show "2 powi ilog2 x \<le> x" "x < 2 powi (ilog2 x + 1)"
    using lo hi by (auto simp: ilog2_def nd Let_def)
qed

lemma ilog2_mono: "0 < x \<Longrightarrow> x \<le> y \<Longrightarrow> ilog2 x \<le> ilog2 y"
  using ilog2_bounds [of x] ilog2_bounds [of y] powi_less_cancel [of "ilog2 x" "ilog2 y + 1"]
  by linarith

lemma ulp_exp_mono: "0 < x \<Longrightarrow> x \<le> y \<Longrightarrow> ulp_exp x \<le> ulp_exp y"
  using ilog2_mono [of x y] by (simp add: ulp_exp_def)

lemma ilog2_eqI:
  assumes "2 powi k \<le> x" "x < 2 powi (k + 1)"
  shows "ilog2 x = k"
proof -
  have "0 < x" using assms(1) powi_pos [of k] by linarith
  from ilog2_bounds [OF this] assms have "(2 :: rat) powi k < 2 powi (ilog2 x + 1)"
    "(2 :: rat) powi ilog2 x < 2 powi (k + 1)" by linarith+
  then show ?thesis by (auto dest!: powi_less_cancel)
qed

section \<open>Properties of the rounding\<close>

lemma fl_pos_nonneg: "0 < x \<Longrightarrow> 0 \<le> fl_pos x"
  using rne_mono [of 0 "x / 2 powi ulp_exp x"] rne_of_int [of 0]
  by (simp add: fl_pos_def Let_def)

lemma fl_pos_upper:
  assumes "0 < x" shows "fl_pos x \<le> 2 powi (ulp_exp x + 53)"
proof -
  let ?e = "ulp_exp x"
  have "x < 2 powi (ilog2 x + 1)" by (rule ilog2_bounds [OF assms])
  also have "\<dots> \<le> 2 powi (?e + 53)" by (intro powi_mono) (simp add: ulp_exp_def)
  also have "\<dots> = of_int (2 ^ 53) * 2 powi ?e" by (simp add: power_int_add)
  finally have "x / 2 powi ?e \<le> of_int (2 ^ 53)" by (simp add: divide_le_eq)
  from rne_mono [OF this] have "rne (x / 2 powi ?e) \<le> 2 ^ 53" by (simp only: rne_of_int)
  then have "(of_int (rne (x / 2 powi ?e)) :: rat) \<le> of_int (2 ^ 53)" by (simp only: of_int_le_iff)
  then have "fl_pos x \<le> of_int (2 ^ 53) * 2 powi ?e"
    unfolding fl_pos_def Let_def by (intro mult_right_mono) auto
  then show ?thesis by (simp add: power_int_add)
qed

lemma fl_pos_lower:
  assumes "0 < x" "-1074 < ulp_exp x" shows "2 powi (ulp_exp x + 52) \<le> fl_pos x"
proof -
  let ?e = "ulp_exp x"
  have e: "?e + 52 = ilog2 x" using assms(2) by (simp add: ulp_exp_def max_def split: if_splits)
  have "of_int (2 ^ 52) * 2 powi ?e = (2 :: rat) powi ilog2 x" by (simp add: power_int_add flip: e)
  also have "\<dots> \<le> x" by (rule ilog2_bounds [OF assms(1)])
  finally have "of_int (2 ^ 52) \<le> x / 2 powi ?e" by (simp add: le_divide_eq)
  from rne_mono [OF this] have "2 ^ 52 \<le> rne (x / 2 powi ?e)" by (simp only: rne_of_int)
  then have "of_int (2 ^ 52) \<le> (of_int (rne (x / 2 powi ?e)) :: rat)" by (simp only: of_int_le_iff)
  then have "of_int (2 ^ 52) * 2 powi ?e \<le> fl_pos x"
    unfolding fl_pos_def Let_def by (intro mult_right_mono) auto
  then show ?thesis by (simp add: power_int_add)
qed

lemma fl_pos_mono:
  assumes "0 < x" "x \<le> y" shows "fl_pos x \<le> fl_pos y"
proof (cases "ulp_exp x = ulp_exp y")
  case True
  have "rne (x / 2 powi ulp_exp y) \<le> rne (y / 2 powi ulp_exp y)"
    using assms by (intro rne_mono divide_right_mono) auto
  with True show ?thesis unfolding fl_pos_def Let_def by (simp add: mult_right_mono)
next
  case False
  with ulp_exp_mono [OF assms] have less: "ulp_exp x < ulp_exp y" by simp
  have "fl_pos x \<le> 2 powi (ulp_exp x + 53)" by (rule fl_pos_upper [OF assms(1)])
  also have "\<dots> \<le> 2 powi (ulp_exp y + 52)" using less by (intro powi_mono) simp
  also have "\<dots> \<le> fl_pos y"
    using assms less by (intro fl_pos_lower) (auto simp: ulp_exp_def)
  finally show ?thesis .
qed

lemma fl_0 [simp]: "fl 0 = 0"
  by (simp add: fl_def)

lemma fl_minus [simp]: "fl (- x) = - fl x"
  by (simp add: fl_def)

lemma fl_mono:
  assumes "x \<le> y" shows "fl x \<le> fl y"
proof -
  consider "0 < x" | "x \<le> 0" "0 \<le> y" | "y < 0" by linarith
  then show ?thesis
  proof cases
    case 1
    with fl_pos_mono [of x y] assms show ?thesis by (simp add: fl_def)
  next
    case 2
    have "fl x \<le> 0" using 2 fl_pos_nonneg [of "- x"] by (auto simp: fl_def)
    moreover have "0 \<le> fl y" using 2 fl_pos_nonneg [of y] by (auto simp: fl_def)
    ultimately show ?thesis by simp
  next
    case 3
    with fl_pos_mono [of "- y" "- x"] assms show ?thesis by (simp add: fl_def)
  qed
qed

lemma fl_nonneg: "0 \<le> x \<Longrightarrow> 0 \<le> fl x"
  using fl_mono [of 0 x] by simp

lemma fl_nonpos: "x \<le> 0 \<Longrightarrow> fl x \<le> 0"
  using fl_mono [of x 0] by simp

text \<open>
  A value that is a multiple of its own unit in the last place is a float, and rounding leaves
  it alone: the integers up to \<open>2 ^ 53\<close> are of this kind, and so is every rounded value.
\<close>

lemma fl_pos_exact:
  assumes "x = of_int m * 2 powi ulp_exp x" shows "fl_pos x = x"
proof -
  have "x / 2 powi ulp_exp x = of_int m"
    by (subst assms) simp
  then show ?thesis using assms by (simp add: fl_pos_def Let_def)
qed

lemma fl_pos_representable:
  assumes "0 < m" "m \<le> 2 ^ 53" "-1074 \<le> e"
  shows "fl_pos (of_int m * 2 powi e) = of_int m * 2 powi e"
proof (cases "m = 2 ^ 53")
  case True
  let ?x = "of_int m * 2 powi e :: rat"
  have x: "?x = 2 powi (e + 53)" by (simp add: True power_int_add)
  have "ilog2 ?x = e + 53" unfolding x by (rule ilog2_eqI) (auto intro: powi_strict_mono)
  then have "ulp_exp ?x = e + 1" using assms(3) by (simp add: ulp_exp_def)
  then show ?thesis by (intro fl_pos_exact [of _ "2 ^ 52"]) (simp add: True power_int_add)
next
  case False
  let ?x = "of_int m * 2 powi e :: rat"
  have pos: "0 < ?x" using assms by simp
  have "(of_int m :: rat) < of_int (2 ^ 53)" using assms False by (simp only: of_int_less_iff)
  then have "?x < 2 powi (e + 53)" by (simp add: power_int_add)
  with ilog2_bounds(1) [OF pos] have "(2 :: rat) powi ilog2 ?x < 2 powi (e + 53)" by linarith
  from powi_less_cancel [OF this] assms(3) have u: "ulp_exp ?x \<le> e" by (simp add: ulp_exp_def)
  define u where "u = ulp_exp ?x"
  have "(2 :: rat) powi e = 2 powi (e - u) * 2 powi u" by (simp add: power_int_diff)
  also have "(2 :: rat) powi (e - u) = of_int (2 ^ nat (e - u))"
    using u by (simp add: power_int_def u_def)
  finally have "?x = of_int (m * 2 ^ nat (e - u)) * 2 powi u" by simp
  then show ?thesis unfolding u_def by (rule fl_pos_exact)
qed

lemma fl_pos_of_int: "0 < n \<Longrightarrow> n \<le> 2 ^ 53 \<Longrightarrow> fl_pos (of_int n) = of_int n"
  using fl_pos_representable [of n 0] by simp

lemma rne_ulp_bounds:
  assumes "0 < x"
  shows "0 \<le> rne (x / 2 powi ulp_exp x)" "rne (x / 2 powi ulp_exp x) \<le> 2 ^ 53"
proof -
  show "0 \<le> rne (x / 2 powi ulp_exp x)"
    using rne_mono [of 0 "x / 2 powi ulp_exp x"] rne_of_int [of 0] assms by simp
  have "of_int (rne (x / 2 powi ulp_exp x)) * 2 powi ulp_exp x
      \<le> of_int (2 ^ 53) * (2 :: rat) powi ulp_exp x"
    using fl_pos_upper [OF assms] by (simp add: fl_pos_def Let_def power_int_add)
  then have "(of_int (rne (x / 2 powi ulp_exp x)) :: rat) \<le> of_int (2 ^ 53)"
    by (rule mult_right_le_imp_le) simp
  then show "rne (x / 2 powi ulp_exp x) \<le> 2 ^ 53" by (simp only: of_int_le_iff)
qed

lemma fl_of_pos: "0 < x \<Longrightarrow> fl x = fl_pos x"
  by (simp add: fl_def)

lemma fl_fl_pos:
  assumes "0 < x" shows "fl (fl_pos x) = fl_pos x"
proof (cases "fl_pos x = 0")
  case True
  then show ?thesis by simp
next
  case False
  define m where "m = rne (x / 2 powi ulp_exp x)"
  have eq: "fl_pos x = of_int m * 2 powi ulp_exp x" by (simp add: fl_pos_def Let_def m_def)
  have "m \<noteq> 0" using False by (auto simp: eq)
  with rne_ulp_bounds [OF assms] have m: "0 < m" "m \<le> 2 ^ 53" unfolding m_def by linarith+
  have "0 < fl_pos x" using m(1) by (simp add: eq)
  then show ?thesis
    using fl_pos_representable [OF m, of "ulp_exp x"] by (simp add: fl_of_pos eq ulp_exp_def)
qed

lemma fl_idem [simp]: "fl (fl x) = fl x"
proof (cases x "0 :: rat" rule: linorder_cases)
  case less
  then have "fl x = - fl_pos (- x)" by (simp add: fl_def)
  then show ?thesis using less fl_fl_pos [of "- x"] by simp
next
  case equal
  then show ?thesis by simp
next
  case greater
  then show ?thesis by (simp add: fl_fl_pos fl_of_pos)
qed

lemma fl_of_int: "\<bar>n\<bar> \<le> 2 ^ 53 \<Longrightarrow> fl (of_int n) = of_int n"
  using fl_pos_of_int [of n] fl_pos_of_int [of "- n"] by (auto simp: fl_def)

lemma fl_numeral:
  assumes "(numeral k :: int) \<le> 2 ^ 53" shows "fl (numeral k) = numeral k"
  using fl_of_int [of "numeral k"] assms by simp

lemma fl_1 [simp]: "fl 1 = 1"
  using fl_of_int [of 1] by simp

text \<open>The rounding error is at most half a unit in the last place.\<close>

lemma fl_pos_error: "\<bar>fl_pos x - x\<bar> \<le> 2 powi ulp_exp x / 2"
proof -
  let ?p = "2 powi ulp_exp x :: rat"
  have "fl_pos x - x = (of_int (rne (x / ?p)) - x / ?p) * ?p"
    by (simp add: fl_pos_def Let_def field_simps)
  then have "\<bar>fl_pos x - x\<bar> = \<bar>of_int (rne (x / ?p)) - x / ?p\<bar> * ?p"
    by (simp add: abs_mult)
  also have "\<dots> \<le> 1 / 2 * ?p" by (intro mult_right_mono rne_bounds) simp
  finally show ?thesis by simp
qed

lemma fl_rel_error:
  assumes "2 powi (-1022) \<le> x" shows "\<bar>fl x - x\<bar> \<le> x / 2 ^ 53"
proof -
  have pos: "0 < x" using assms powi_pos [of "-1022"] by linarith
  have "(2 :: rat) powi (-1022) < 2 powi (ilog2 x + 1)"
    using assms ilog2_bounds(2) [OF pos] by linarith
  from powi_less_cancel [OF this] have "ulp_exp x = ilog2 x - 52" by (simp add: ulp_exp_def)
  then have "2 powi ulp_exp x / 2 = 2 powi ilog2 x / (2 ^ 53 :: rat)"
    by (simp add: power_int_diff)
  also have "\<dots> \<le> x / 2 ^ 53" using ilog2_bounds(1) [OF pos] by (intro divide_right_mono) auto
  finally show ?thesis using fl_pos_error [of x] pos by (simp add: fl_def)
qed

text \<open>A rule to compute one rounding: the exponent and the nearest integer are given.\<close>

lemma rne_eqI: "\<bar>x - of_int m\<bar> < 1 / 2 \<Longrightarrow> rne x = m"
  using rne_bounds [of x] by linarith

lemma fl_eqI:
  assumes "2 powi k \<le> x" "x < 2 powi (k + 1)" "-1022 \<le> k"
    and "\<bar>x / 2 powi (k - 52) - of_int m\<bar> < 1 / 2" "y = of_int m * 2 powi (k - 52)"
  shows "fl x = y"
proof -
  have pos: "0 < x" using assms(1) powi_pos [of k] by linarith
  have "ulp_exp x = k - 52" using ilog2_eqI [OF assms(1,2)] assms(3) by (simp add: ulp_exp_def)
  then show ?thesis
    using rne_eqI [OF assms(4)] assms(5) pos by (simp add: fl_of_pos fl_pos_def Let_def)
qed

section \<open>Sleeping\<close>

lemma fl_power: "fl 16777216 = 16777216" "fl 8589934592 = 8589934592"
  using fl_of_int [of 16777216] fl_of_int [of 8589934592] by simp_all

lemma time_sleep_ok:
  assumes "0 \<le> d" "d \<le> 2 ^ 33" shows "time_sleep d = Inr ()"
proof -
  have "fl (d * 1000000000) \<le> fl (of_int 1000000000 * 2 powi 33)"
    by (rule fl_mono) (use assms in \<open>simp add: power_int_def\<close>)
  moreover have "fl (of_int 1000000000 * 2 powi 33) = of_int 1000000000 * 2 powi 33"
    using fl_pos_representable [of 1000000000 33] by (simp add: fl_of_pos)
  moreover have "(of_int 1000000000 * 2 powi 33 :: rat) < 2 ^ 63" by (simp add: power_int_def)
  moreover have "0 \<le> fl (d * 1000000000)" by (rule fl_nonneg) (use assms in simp)
  ultimately show ?thesis using assms by (simp add: time_sleep_def fmul_def Let_def)
qed

text \<open>
  A wait until a target that is at most \<open>2 ^ 24\<close> seconds after a clock reading below \<open>2 ^ 32\<close>
  seconds can be slept, whatever the clock reads meanwhile.
\<close>

lemma wait_bound:
  assumes "start \<le> 2 ^ 32" "pd \<le> 2 ^ 24" "0 \<le> now"
  shows "fsub (fadd start pd) now \<le> 2 ^ 33"
proof -
  have "fadd start pd \<le> fl (2 ^ 33)" unfolding fadd_def by (rule fl_mono) (use assms in simp)
  then have "fsub (fadd start pd) now \<le> fl (2 ^ 33)"
    unfolding fsub_def by (intro fl_mono) (use assms(3) in \<open>simp add: fl_power\<close>)
  then show ?thesis by (simp add: fl_power)
qed

end
