(* ===== verification/Json.thy ===== *)
theory Json
  imports Prelude "HOL-Library.Sublist"
begin

text \<open>
  The values of Python's \<open>json\<close> module, with the dynamic operations the agent applies to a
  decoded value: \<open>get\<close>, iteration, \<open>in\<close> and indexing by a string, each with the
  exceptions Python raises on a value of the wrong type.
\<close>

datatype json =
    JNull
  | JBool bool
  | JNum rat
  | JStr string
  | JArr "json list"
  | JObj "(string \<times> json) list"

text \<open>\<open>value.get(key, default)\<close>.\<close>

fun json_get :: "json \<Rightarrow> string \<Rightarrow> json \<Rightarrow> json res" where
  "json_get (JObj kvs) k d = Inr (dict_get_default kvs k d)"
| "json_get _ k d = Inl AttributeError"

text \<open>\<open>for x in value\<close>: a list gives its elements, a string its characters, an object its keys.\<close>

fun json_iter :: "json \<Rightarrow> json list res" where
  "json_iter (JArr xs) = Inr xs"
| "json_iter (JStr s) = Inr (map (\<lambda>c. JStr [c]) s)"
| "json_iter (JObj kvs) = Inr (map (\<lambda>p. JStr (fst p)) kvs)"
| "json_iter _ = Inl TypeError"

text \<open>\<open>key in value\<close>.\<close>

fun json_contains :: "string \<Rightarrow> json \<Rightarrow> bool res" where
  "json_contains k (JObj kvs) = Inr (k \<in> set (map fst kvs))"
| "json_contains k (JArr xs) = Inr (\<exists>x \<in> set xs. case x of JStr s \<Rightarrow> s = k | _ \<Rightarrow> False)"
| "json_contains k (JStr s) = Inr (sublist k s)"
| "json_contains k _ = Inl TypeError"

text \<open>\<open>value[key]\<close> for a string key.\<close>

fun json_index :: "json \<Rightarrow> string \<Rightarrow> json res" where
  "json_index (JObj kvs) k = (case dict_get kvs k of None \<Rightarrow> Inl KeyError | Some v \<Rightarrow> Inr v)"
| "json_index _ k = Inl TypeError"

text \<open>\<open>value[key] = v\<close>.\<close>

fun json_set :: "json \<Rightarrow> string \<Rightarrow> json \<Rightarrow> json res" where
  "json_set (JObj kvs) k v = Inr (JObj (dict_set kvs k v))"
| "json_set _ k v = Inl TypeError"

text \<open>The truth value of a decoded value.\<close>

fun json_truthy :: "json \<Rightarrow> bool" where
  "json_truthy JNull = False"
| "json_truthy (JBool b) = b"
| "json_truthy (JNum r) = (r \<noteq> 0)"
| "json_truthy (JStr s) = (s \<noteq> [])"
| "json_truthy (JArr xs) = (xs \<noteq> [])"
| "json_truthy (JObj kvs) = (kvs \<noteq> [])"

fun_cases json_get_InrE: "json_get j k d = Inr v"
fun_cases json_iter_InrE: "json_iter j = Inr xs"
fun_cases json_index_InrE: "json_index j k = Inr v"
fun_cases json_set_InrE: "json_set j k v = Inr w"

end
