(* ===== verification/Backoff.thy ===== *)
theory Backoff
  imports PyFloat Json
begin

text \<open>
  \<open>backoff.py\<close>: how long the polling thread waits after a failed request. The state is the
  four fields of the \<open>Backoff\<close> object; the error is what the code looks at in the
  exception; the draw of \<open>random.random()\<close> and the protobuf parser of a JSON duration are
  parameters. Floats are rounded as Python rounds them.
\<close>

section \<open>The backoff object\<close>

record backoff =
  min_envelope_sec :: pyfloat
  max_envelope_sec :: pyfloat
  multiplier :: pyfloat
  current_envelope_sec :: pyfloat

definition Backoff_init :: "pyfloat \<Rightarrow> pyfloat \<Rightarrow> pyfloat \<Rightarrow> backoff" where
  "Backoff_init min_sec max_sec mult = \<lparr>min_envelope_sec = min_sec, max_envelope_sec = max_sec,
     multiplier = mult, current_envelope_sec = min_sec\<rparr>"

text \<open>\<open>Backoff()\<close>, with the default arguments 60.0, 3600.0 and 1.3.\<close>

definition default_backoff :: backoff where
  "default_backoff = Backoff_init 60 3600 (fl (13 / 10))"

text \<open>
  An \<open>HttpError\<close> is known by what \<open>json.loads(error.content.decode('utf-8'))\<close> gives: the
  decoded body or the exception the decoding raises.
\<close>

datatype api_error = ApiOSError int | ApiHttpError "json res" | ApiOtherError

definition EPIPE :: int where
  "EPIPE = 32"

text \<open>\<open>random.uniform(a, b)\<close> is \<open>a + (b - a) * random()\<close>.\<close>

definition random_uniform :: "pyfloat \<Rightarrow> pyfloat \<Rightarrow> pyfloat \<Rightarrow> pyfloat" where
  "random_uniform r a b = fadd a (fmul (fsub b a) r)"

definition NANOS_PER_SEC :: int where
  "NANOS_PER_SEC = 1000 * 1000 * 1000"

text \<open>The seconds of a parsed duration: \<open>delay.seconds + float(delay.nanos) / _NANOS_PER_SEC\<close>.\<close>

definition delay_seconds :: "int \<times> int \<Rightarrow> pyfloat res" where
  "delay_seconds d = res_bind (fdiv (float_of_int (snd d)) (float_of_int NANOS_PER_SEC))
     (\<lambda>q. Inr (fadd (float_of_int (fst d)) q))"

text \<open>The loop over the details of the error body.\<close>

primrec scan_details :: "(json \<Rightarrow> (int \<times> int) res) \<Rightarrow> json list \<Rightarrow> pyfloat option res" where
  "scan_details parse [] = Inr None"
| "scan_details parse (detail # details) =
     res_bind (json_contains ''retryDelay'' detail) (\<lambda>present.
       if present then
         res_bind (json_index detail ''retryDelay'') (\<lambda>j.
         res_bind (parse j) (\<lambda>d.
         res_bind (delay_seconds d) (\<lambda>s. Inr (Some s))))
       else scan_details parse details)"

definition server_delay :: "(json \<Rightarrow> (int \<times> int) res) \<Rightarrow> json res \<Rightarrow> pyfloat option res" where
  "server_delay parse body = res_bind body (\<lambda>content.
     res_bind (json_get content ''error'' (JObj [])) (\<lambda>err.
     res_bind (json_get err ''details'' (JArr [])) (\<lambda>details.
     res_bind (json_iter details) (scan_details parse))))"

definition exponential :: "pyfloat \<Rightarrow> backoff \<Rightarrow> pyfloat \<times> backoff" where
  "exponential r b = (random_uniform r 0 (current_envelope_sec b),
     b\<lparr>current_envelope_sec := min (max_envelope_sec b) (fmul (current_envelope_sec b) (multiplier b))\<rparr>)"

text \<open>
  The whole method. Any exception in the inspection of the error is caught and leads to the
  exponential backoff, as does an error without a server delay.
\<close>

definition next_backoff ::
  "(json \<Rightarrow> (int \<times> int) res) \<Rightarrow> pyfloat \<Rightarrow> api_error option \<Rightarrow> backoff \<Rightarrow> pyfloat \<times> backoff" where
  "next_backoff parse r error b = (case error of
       Some (ApiOSError errno) \<Rightarrow>
         if errno = EPIPE then (random_uniform r 1 10, b) else exponential r b
     | Some (ApiHttpError body) \<Rightarrow>
         (case server_delay parse body of Inr (Some s) \<Rightarrow> (s, b) | _ \<Rightarrow> exponential r b)
     | _ \<Rightarrow> exponential r b)"

section \<open>The envelope invariant\<close>

definition is_float :: "rat \<Rightarrow> bool" where
  "is_float x \<longleftrightarrow> fl x = x"

definition wf_backoff :: "backoff \<Rightarrow> bool" where
  "wf_backoff b \<longleftrightarrow> 0 \<le> min_envelope_sec b \<and> 1 \<le> multiplier b \<and>
     min_envelope_sec b \<le> current_envelope_sec b \<and> current_envelope_sec b \<le> max_envelope_sec b \<and>
     is_float (current_envelope_sec b) \<and> is_float (max_envelope_sec b)"

lemma is_float_fl [simp]: "is_float (fl x)"
  by (simp add: is_float_def)

lemma is_float_ops [simp]: "is_float (fadd x y)" "is_float (fmul x y)" "is_float (fsub x y)"
  by (simp_all add: fadd_def fmul_def fsub_def)

lemma fmul_ge:
  assumes "is_float c" "0 \<le> c" "1 \<le> m" shows "c \<le> fmul c m"
proof -
  have "c * 1 \<le> c * m" using assms(2,3) by (intro mult_left_mono) auto
  then have "fl c \<le> fl (c * m)" by (intro fl_mono) simp
  then show ?thesis using assms(1) by (simp add: fmul_def is_float_def)
qed

lemma fmul_le:
  assumes "is_float c" "0 \<le> c" "m \<le> 1" shows "fmul c m \<le> c"
proof -
  have "c * m \<le> c * 1" using assms(2,3) by (intro mult_left_mono) auto
  then have "fl (c * m) \<le> fl c" by (intro fl_mono) simp
  then show ?thesis using assms(1) by (simp add: fmul_def is_float_def)
qed

lemma random_uniform_0:
  assumes "is_float c" "0 \<le> c" "0 \<le> r" "r \<le> 1"
  shows "0 \<le> random_uniform r 0 c" "random_uniform r 0 c \<le> c" "random_uniform r 0 c = fl (c * r)"
proof -
  show eq: "random_uniform r 0 c = fl (c * r)"
    using assms(1) by (simp add: random_uniform_def fsub_def fadd_def fmul_def is_float_def)
  show "0 \<le> random_uniform r 0 c" unfolding eq using assms by (intro fl_nonneg) simp
  show "random_uniform r 0 c \<le> c" unfolding eq fmul_def [symmetric] using assms by (intro fmul_le)
qed

lemma random_uniform_1_10:
  assumes "0 \<le> r" "r \<le> 1"
  shows "1 \<le> random_uniform r 1 10" "random_uniform r 1 10 \<le> 10" "random_uniform r 1 10 = fl (1 + fl (9 * r))"
proof -
  have nine: "is_float 9" "is_float 10" using fl_of_int [of 9] fl_of_int [of 10] by (simp_all add: is_float_def)
  have eq: "random_uniform r 1 10 = fl (1 + fmul 9 r)"
    using nine by (simp add: random_uniform_def fsub_def fadd_def is_float_def)
  have "0 \<le> fmul 9 r" unfolding fmul_def using assms by (intro fl_nonneg) simp
  then have "fl 1 \<le> fl (1 + fmul 9 r)" by (intro fl_mono) simp
  then show "1 \<le> random_uniform r 1 10" by (simp add: eq)
  have "fmul 9 r \<le> 9" using assms nine by (intro fmul_le) auto
  then have "fl (1 + fmul 9 r) \<le> fl 10" by (intro fl_mono) simp
  then show "random_uniform r 1 10 \<le> 10" using nine by (simp add: eq is_float_def)
  show "random_uniform r 1 10 = fl (1 + fl (9 * r))" by (simp add: eq fmul_def)
qed

lemma wf_exponential:
  assumes "wf_backoff b" shows "wf_backoff (snd (exponential r b))"
proof -
  have "current_envelope_sec b \<le> fmul (current_envelope_sec b) (multiplier b)"
    using assms by (intro fmul_ge) (auto simp: wf_backoff_def)
  then show ?thesis using assms by (auto simp: exponential_def wf_backoff_def min_def)
qed

lemma next_backoff_cases:
  obtains (exponential) "next_backoff parse r e b = exponential r b"
  | (pipe) "e = Some (ApiOSError EPIPE)" "next_backoff parse r e b = (random_uniform r 1 10, b)"
  | (server) body s where "e = Some (ApiHttpError body)" "server_delay parse body = Inr (Some s)"
      "next_backoff parse r e b = (s, b)"
proof -
  consider "e = None \<or> e = Some ApiOtherError" | n where "e = Some (ApiOSError n)" "n \<noteq> EPIPE"
    | "e = Some (ApiOSError EPIPE)"
    | body s where "e = Some (ApiHttpError body)" "server_delay parse body = Inr (Some s)"
    | body where "e = Some (ApiHttpError body)" "\<forall>s. server_delay parse body \<noteq> Inr (Some s)"
    by (metis api_error.exhaust option.exhaust)
  then show thesis
  proof cases
    case 5
    then have "next_backoff parse r e b = exponential r b"
      by (auto simp: next_backoff_def split: sum.split option.split)
    then show thesis by (rule exponential)
  qed (auto simp: next_backoff_def intro: exponential pipe server)
qed

lemma wf_next_backoff: "wf_backoff b \<Longrightarrow> wf_backoff (snd (next_backoff parse r e b))"
  by (rule next_backoff_cases [of parse r e b]) (simp_all add: wf_exponential)

lemma wf_default_backoff: "wf_backoff default_backoff"
proof -
  have "fl 1 \<le> fl (13 / 10)" by (intro fl_mono) simp
  moreover have "fl 60 = 60" "fl 3600 = 3600" using fl_of_int [of 60] fl_of_int [of 3600] by simp_all
  ultimately show ?thesis
    by (simp add: wf_backoff_def default_backoff_def Backoff_init_def is_float_def)
qed

section \<open>Repeated failures\<close>

text \<open>The object after a run of failures, and the durations it asked for, one draw per failure.\<close>

primrec run_failures ::
  "(json \<Rightarrow> (int \<times> int) res) \<Rightarrow> (pyfloat \<times> api_error option) list \<Rightarrow> backoff \<Rightarrow> pyfloat list \<times> backoff" where
  "run_failures parse [] b = ([], b)"
| "run_failures parse (f # fs) b =
     (let (d, b1) = next_backoff parse (fst f) (snd f) b; (ds, b2) = run_failures parse fs b1
      in (d # ds, b2))"

lemma next_backoff_params [simp]:
  "min_envelope_sec (snd (next_backoff parse r e b)) = min_envelope_sec b"
  "max_envelope_sec (snd (next_backoff parse r e b)) = max_envelope_sec b"
  "multiplier (snd (next_backoff parse r e b)) = multiplier b"
  by (rule next_backoff_cases [of parse r e b]; simp add: exponential_def)+

definition no_server_delay :: "(json \<Rightarrow> (int \<times> int) res) \<Rightarrow> api_error option \<Rightarrow> bool" where
  "no_server_delay parse e \<longleftrightarrow>
     (case e of Some (ApiHttpError body) \<Rightarrow>
        (case server_delay parse body of Inr (Some s) \<Rightarrow> False | _ \<Rightarrow> True) | _ \<Rightarrow> True)"

definition no_special :: "(json \<Rightarrow> (int \<times> int) res) \<Rightarrow> api_error option \<Rightarrow> bool" where
  "no_special parse e \<longleftrightarrow> no_server_delay parse e \<and> e \<noteq> Some (ApiOSError EPIPE)"

lemma next_backoff_no_special:
  "no_special parse e \<Longrightarrow> next_backoff parse r e b = exponential r b"
  by (rule next_backoff_cases [of parse r e b]) (auto simp: no_special_def no_server_delay_def)

definition grow_envelope :: "backoff \<Rightarrow> backoff" where
  "grow_envelope b = b\<lparr>current_envelope_sec :=
     min (max_envelope_sec b) (fmul (current_envelope_sec b) (multiplier b))\<rparr>"

lemma exponential_eq: "exponential r b = (random_uniform r 0 (current_envelope_sec b), grow_envelope b)"
  by (simp add: exponential_def grow_envelope_def)

lemma run_failures_envelope:
  assumes "\<forall>f \<in> set fs. no_special parse (snd f)"
  shows "snd (run_failures parse fs b) = (grow_envelope ^^ length fs) b"
  using assms
proof (induction fs arbitrary: b)
  case (Cons f fs)
  have "next_backoff parse (fst f) (snd f) b = exponential (fst f) b"
    using Cons.prems by (intro next_backoff_no_special) simp
  with Cons show ?case by (simp add: Let_def case_prod_beta' exponential_eq funpow_Suc_right del: funpow.simps)
qed simp

lemma grow_envelope_stays:
  assumes "wf_backoff b" "current_envelope_sec b = max_envelope_sec b"
  shows "grow_envelope b = b"
proof -
  have "max_envelope_sec b \<le> fmul (current_envelope_sec b) (multiplier b)"
    using assms(1) unfolding assms(2) [symmetric] by (intro fmul_ge) (auto simp: wf_backoff_def)
  then show ?thesis using assms(2) by (simp add: grow_envelope_def min_def)
qed

lemma wf_grow_envelope: "wf_backoff b \<Longrightarrow> wf_backoff (grow_envelope b)"
  using wf_exponential [of b 0] by (simp add: exponential_def grow_envelope_def)

text \<open>The sixteen products of the default envelope, rounded as Python rounds them.\<close>

lemma fl_13_10: "fl (13 / 10) = 5854679515581645 / 4503599627370496"
  by (rule fl_eqI [of 0 _ "5854679515581645"]) simp_all

lemma envelope_steps:
  shows "fmul (60) (fl (13 / 10)) = 78"
    and "fmul (78) (fl (13 / 10)) = 3567695329807565 / 35184372088832"
    and "fmul (3567695329807565 / 35184372088832) (fl (13 / 10)) = 4638003928749835 / 35184372088832"
    and "fmul (4638003928749835 / 35184372088832) (fl (13 / 10)) = 3014702553687393 / 17592186044416"
    and "fmul (3014702553687393 / 17592186044416) (fl (13 / 10)) = 3919113319793611 / 17592186044416"
    and "fmul (3919113319793611 / 17592186044416) (fl (13 / 10)) = 2547423657865847 / 8796093022208"
    and "fmul (2547423657865847 / 8796093022208) (fl (13 / 10)) = 3311650755225601 / 8796093022208"
    and "fmul (3311650755225601 / 8796093022208) (fl (13 / 10)) = 8610291963586563 / 17592186044416"
    and "fmul (8610291963586563 / 17592186044416) (fl (13 / 10)) = 2798344888165633 / 4398046511104"
    and "fmul (2798344888165633 / 4398046511104) (fl (13 / 10)) = 3637848354615323 / 4398046511104"
    and "fmul (3637848354615323 / 4398046511104) (fl (13 / 10)) = 295575178812495 / 274877906944"
    and "fmul (295575178812495 / 274877906944) (fl (13 / 10)) = 768495464912487 / 549755813888"
    and "fmul (768495464912487 / 549755813888) (fl (13 / 10)) = 7992352835089865 / 4398046511104"
    and "fmul (7992352835089865 / 4398046511104) (fl (13 / 10)) = 1298757335702103 / 549755813888"
    and "fmul (1298757335702103 / 549755813888) (fl (13 / 10)) = 844192268206367 / 274877906944"
    and "fmul (844192268206367 / 274877906944) (fl (13 / 10)) = 8779599589346217 / 2199023255552"
  unfolding fmul_def fl_13_10
  subgoal by (rule fl_eqI [of 6 _ "5488762045857792"]) simp_all
  subgoal by (rule fl_eqI [of 6 _ "7135390659615130"]) simp_all
  subgoal by (rule fl_eqI [of 7 _ "4638003928749835"]) simp_all
  subgoal by (rule fl_eqI [of 7 _ "6029405107374786"]) simp_all
  subgoal by (rule fl_eqI [of 7 _ "7838226639587222"]) simp_all
  subgoal by (rule fl_eqI [of 8 _ "5094847315731694"]) simp_all
  subgoal by (rule fl_eqI [of 8 _ "6623301510451202"]) simp_all
  subgoal by (rule fl_eqI [of 8 _ "8610291963586563"]) simp_all
  subgoal by (rule fl_eqI [of 9 _ "5596689776331266"]) simp_all
  subgoal by (rule fl_eqI [of 9 _ "7275696709230646"]) simp_all
  subgoal by (rule fl_eqI [of 10 _ "4729202860999920"]) simp_all
  subgoal by (rule fl_eqI [of 10 _ "6147963719299896"]) simp_all
  subgoal by (rule fl_eqI [of 10 _ "7992352835089865"]) simp_all
  subgoal by (rule fl_eqI [of 11 _ "5195029342808412"]) simp_all
  subgoal by (rule fl_eqI [of 11 _ "6753538145650936"]) simp_all
  subgoal by (rule fl_eqI [of 11 _ "8779599589346217"]) simp_all
  done

lemma default_envelope_15: "current_envelope_sec ((grow_envelope ^^ 15) default_backoff) < 3600"
  by (simp add: eval_nat_numeral grow_envelope_def default_backoff_def Backoff_init_def envelope_steps)

lemma default_envelope_16: "current_envelope_sec ((grow_envelope ^^ 16) default_backoff) = 3600"
  by (simp add: eval_nat_numeral grow_envelope_def default_backoff_def Backoff_init_def envelope_steps)

lemma default_envelope_max: "max_envelope_sec ((grow_envelope ^^ n) default_backoff) = 3600"
  by (induction n) (simp_all add: grow_envelope_def default_backoff_def Backoff_init_def)

lemma wf_grow_default: "wf_backoff ((grow_envelope ^^ n) default_backoff)"
  by (induction n) (simp_all add: wf_default_backoff wf_grow_envelope)

lemma default_envelope_saturates: "16 \<le> n \<Longrightarrow> current_envelope_sec ((grow_envelope ^^ n) default_backoff) = 3600"
proof (induction n rule: dec_induct)
  case base
  show ?case by (rule default_envelope_16)
next
  case (step n)
  then show ?case
    using grow_envelope_stays [OF wf_grow_default, of n] by (simp add: default_envelope_max)
qed

lemma grow_envelope_mono:
  assumes "wf_backoff b" shows "current_envelope_sec b \<le> current_envelope_sec (grow_envelope b)"
  using assms fmul_ge [of "current_envelope_sec b" "multiplier b"]
  by (auto simp: grow_envelope_def wf_backoff_def)

lemma default_envelope_mono:
  "m \<le> n \<Longrightarrow> current_envelope_sec ((grow_envelope ^^ m) default_backoff)
     \<le> current_envelope_sec ((grow_envelope ^^ n) default_backoff)"
proof (induction n rule: dec_induct)
  case base
  show ?case by simp
next
  case (step n)
  then show ?case using grow_envelope_mono [OF wf_grow_default, of n] by simp
qed

lemma next_backoff_wait:
  assumes "wf_backoff b" "0 \<le> r" "r \<le> 1" "no_server_delay parse e"
    and "next_backoff parse r e b = (d, b')"
  shows "if e = Some (ApiOSError EPIPE) then 1 \<le> d \<and> d \<le> 10 \<and> d = fl (1 + fl (9 * r)) \<and> b' = b
    else 0 \<le> d \<and> d \<le> current_envelope_sec b \<and> d = fl (current_envelope_sec b * r) \<and>
      b' = b\<lparr>current_envelope_sec := min (max_envelope_sec b) (fl (current_envelope_sec b * multiplier b))\<rparr> \<and>
      wf_backoff b' \<and> current_envelope_sec b \<le> current_envelope_sec b'"
proof (cases "e = Some (ApiOSError EPIPE)")
  case True
  then have "d = random_uniform r 1 10" "b' = b" using assms(5) by (simp_all add: next_backoff_def)
  with True random_uniform_1_10 [OF assms(2,3)] show ?thesis by simp
next
  case False
  then have "no_special parse e" using assms(4) by (simp add: no_special_def)
  from next_backoff_no_special [OF this, of r b] assms(5)
  have d: "d = random_uniform r 0 (current_envelope_sec b)" and b': "b' = grow_envelope b"
    by (simp_all add: exponential_eq)
  have "is_float (current_envelope_sec b)" "0 \<le> current_envelope_sec b"
    using assms(1) by (simp_all add: wf_backoff_def)
  note draw = random_uniform_0 [OF this assms(2,3)]
  have "b' = b\<lparr>current_envelope_sec := min (max_envelope_sec b) (fl (current_envelope_sec b * multiplier b))\<rparr>"
    by (simp add: b' grow_envelope_def fmul_def)
  then show ?thesis
    using False draw wf_grow_envelope [OF assms(1)] grow_envelope_mono [OF assms(1)]
    by (simp add: d b')
qed

lemma next_backoff_range:
  assumes "wf_backoff b" "0 \<le> r" "r \<le> 1" "no_server_delay parse e"
    and "next_backoff parse r e b = (d, b')"
  shows "0 \<le> d \<and> d \<le> max 10 (max_envelope_sec b)"
  using next_backoff_wait [OF assms] assms(1) by (auto simp: wf_backoff_def split: if_splits)

section \<open>Properties\<close>

text \<open>
  C7: how long a failed request makes the thread wait when the server asks for no delay, however
  malformed the body of the error is. A broken pipe waits between one and ten seconds and leaves
  the object as it is. Every other failure waits a share of the current envelope, never negative
  nor longer than it, and multiplies the envelope up to its maximum: the object keeps its
  invariant and the envelope does not shrink. Products and sums are rounded as Python's are.
\<close>

theorem next_backoff_bounds:
  assumes "wf_backoff b" "0 \<le> r" "r \<le> 1" "no_server_delay parse e"
    and "next_backoff parse r e b = (d, b')"
  shows "if e = Some (ApiOSError EPIPE) then 1 \<le> d \<and> d \<le> 10 \<and> d = fl (1 + fl (9 * r)) \<and> b' = b
    else 0 \<le> d \<and> d \<le> current_envelope_sec b \<and> d = fl (current_envelope_sec b * r) \<and>
      b' = b\<lparr>current_envelope_sec := min (max_envelope_sec b) (fl (current_envelope_sec b * multiplier b))\<rparr> \<and>
      wf_backoff b' \<and> current_envelope_sec b \<le> current_envelope_sec b'"
  by (rule next_backoff_wait [OF assms])

theorem next_backoff_bounds_witness:
  "next_backoff (\<lambda>_. Inl ValueError) (1 / 2) (Some (ApiHttpError (Inr (JStr ''oops'')))) default_backoff =
     (30, default_backoff\<lparr>current_envelope_sec := 78\<rparr>) \<and>
   fst (next_backoff (\<lambda>_. Inl ValueError) (1 / 2) (Some (ApiOSError 32)) default_backoff) \<le> 10"
proof -
  let ?e = "Some (ApiHttpError (Inr (JStr ''oops'')))" and ?pipe = "Some (ApiOSError 32)"
  have none: "no_server_delay (\<lambda>_. Inl ValueError) ?e" "no_server_delay (\<lambda>_. Inl ValueError) ?pipe"
    by (simp_all add: no_server_delay_def server_delay_def)
  have unit: "(0 :: pyfloat) \<le> 1 / 2" "(1 / 2 :: pyfloat) \<le> 1" by simp_all
  have "fl 30 = 30" "fl (60 * fl (13 / 10)) = 78"
    using fl_of_int [of 30] envelope_steps(1) by (simp_all add: fmul_def)
  then show ?thesis
    using next_backoff_bounds [OF wf_default_backoff unit none(1) surjective_pairing]
      next_backoff_bounds [OF wf_default_backoff unit none(2) surjective_pairing]
    by (simp add: EPIPE_def default_backoff_def Backoff_init_def prod_eq_iff)
qed

text \<open>
  C8: with the default arguments the envelope reaches its maximum of one hour after exactly
  sixteen failures without a server delay, and stays there, with the products rounded as
  Python rounds them.
\<close>

theorem default_envelope_saturation:
  assumes "\<forall>f \<in> set fs. no_special parse (snd f)"
  shows "current_envelope_sec (snd (run_failures parse fs default_backoff)) = 3600 \<longleftrightarrow> 16 \<le> length fs"
proof (cases "16 \<le> length fs")
  case True
  then show ?thesis using run_failures_envelope [OF assms] default_envelope_saturates by simp
next
  case False
  then show ?thesis
    using run_failures_envelope [OF assms] default_envelope_15 default_envelope_mono [of "length fs" 15]
    by (simp add: not_le)
qed

theorem default_envelope_saturation_witness:
  "current_envelope_sec (snd (run_failures (\<lambda>_. Inl ValueError) (replicate 16 (1 / 3, Some ApiOtherError))
      default_backoff)) = 3600"
  using default_envelope_saturation [of "replicate 16 (1 / 3, Some ApiOtherError)" "\<lambda>_. Inl ValueError"]
  by (simp add: no_special_def no_server_delay_def)

lemma scan_details_skip:
  assumes "\<forall>d \<in> set pre. json_contains ''retryDelay'' d = Inr False"
  shows "scan_details parse (pre @ rest) = scan_details parse rest"
  using assms by (induction pre) simp_all

text \<open>
  C9: whatever else the body of an error holds, its code, its message and its status, when its
  details are a list the delay of the first detail that has a \<open>retryDelay\<close> is used as it is, and
  the envelope is not touched.
\<close>

theorem server_delay_used:
  assumes "dict_get content ''error'' = Some (JObj err)" "dict_get err ''details'' = Some (JArr (pre @ JObj detail # post))"
    and "\<forall>d \<in> set pre. json_contains ''retryDelay'' d = Inr False"
    and "dict_get detail ''retryDelay'' = Some j" "parse j = Inr (secs, nanos)"
  shows "next_backoff parse r (Some (ApiHttpError (Inr (JObj content)))) b =
    (fl (fl (of_int secs) + fl (fl (of_int nanos) / 1000000000)), b)"
proof -
  have "''retryDelay'' \<in> set (map fst detail)"
    using assms(4) dict_get_None_iff [of detail "''retryDelay''"] by auto
  moreover have "fl 1000000000 = 1000000000" using fl_of_int [of 1000000000] by simp
  ultimately show ?thesis
    using assms(4,5) scan_details_skip [OF assms(3), of parse "JObj detail # post"]
    by (simp add: next_backoff_def server_delay_def dict_get_default_def assms(1,2)
        delay_seconds_def fdiv_def float_of_int_def NANOS_PER_SEC_def fadd_def)
qed

definition aborted_error :: "(string, json) dict" where
  "aborted_error = [(''error'', JObj [(''status'', JStr ''ABORTED''), (''code'', JNum 409),
     (''message'', JStr ''generic::aborted: action throttled, backoff for 32m0s''),
     (''details'', JArr [JObj [(''@type'', JStr ''type.googleapis.com/google.rpc.Help'')], JStr ''note'',
       JObj [(''@type'', JStr ''type.googleapis.com/google.rpc.RetryInfo''), (''retryDelay'', JStr ''1920s'')]])])]"

theorem server_delay_used_witness:
  "next_backoff (\<lambda>j. if j = JStr ''1920s'' then Inr (1920, 0) else Inl ValueError) (1 / 2)
     (Some (ApiHttpError (Inr (JObj aborted_error)))) default_backoff
   = (fl (fl 1920 + fl (fl 0 / 1000000000)), default_backoff)"
proof -
  have "\<not> sublist ''retryDelay'' ''note''" using sublist_length_le [of "''retryDelay''" "''note''"] by fastforce
  then show ?thesis
    using server_delay_used [of aborted_error _ "[JObj [(''@type'', JStr ''type.googleapis.com/google.rpc.Help'')], JStr ''note'']"
      "[(''@type'', JStr ''type.googleapis.com/google.rpc.RetryInfo''), (''retryDelay'', JStr ''1920s'')]" "[]" "JStr ''1920s''"
      "\<lambda>j. if j = JStr ''1920s'' then Inr (1920, 0) else Inl ValueError" 1920 0 "1 / 2" default_backoff]
    by (simp add: aborted_error_def dict_get_def)
qed

end
