(* ===== verification/WallProfiler.thy ===== *)
theory WallProfiler
  imports PyFloat Builder
begin

text \<open>
  \<open>pythonprofiler.py\<close>: the wall-time profiler. The record holds the fields of the
  \<open>WallProfiler\<close> object, the reentrant lock (how often the main thread holds it), and the
  process state the code sets: the real-time interval timer and the registration of the signal
  handler. Clock readings, the interrupted frames and the order in which signals arrive are
  the environment's and are arguments.

  In this theory the signal handler runs as one step; the interleaving of its statements with
  the polling thread is the subject of theory \<open>WallRace\<close>.
\<close>

section \<open>State\<close>

record wall =
  w_profile_type :: string
  w_period_sec :: pyfloat
  w_traces :: "(trace, int) dict"
  w_in_handler :: bool
  w_started :: bool
  w_last_sample_time :: "pyfloat option"
  w_trace_count :: int
  w_lock_depth :: nat
  w_itimer :: "pyfloat \<times> pyfloat"
  w_handler_registered :: bool
  w_siginterrupt :: bool
  w_atexit_stops_timer :: bool

definition MAX_STACK_DEPTH :: nat where
  "MAX_STACK_DEPTH = 128"

definition WALL_NANOS_PER_SEC :: int where
  "WALL_NANOS_PER_SEC = 1000 * 1000 * 1000"

text \<open>
  The constructor: \<open>float(period_ms) / 1000\<close> rounds twice. The process starts with the timer
  off, no handler, and system calls that a signal interrupts.
\<close>

definition WallProfiler_init :: "int \<Rightarrow> wall" where
  "WallProfiler_init period_ms = \<lparr>w_profile_type = ''wall'',
     w_period_sec = fl (float_of_int period_ms / 1000), w_traces = [], w_in_handler = False,
     w_started = False, w_last_sample_time = None, w_trace_count = 0, w_lock_depth = 0,
     w_itimer = (0, 0), w_handler_registered = False, w_siginterrupt = True,
     w_atexit_stops_timer = False\<rparr>"

section \<open>Signals\<close>

text \<open>
  \<open>register_handler\<close> installs the handler, asks for restarted system calls and for the timer
  to be stopped at exit. \<open>signal.signal\<close> raises \<open>ValueError\<close> off the main thread.
\<close>

definition register_handler :: "bool \<Rightarrow> (wall, unit) py" where
  "register_handler main_thread =
     py_bind (if main_thread then py_set (\<lambda>w. w\<lparr>w_handler_registered := True\<rparr>) else py_raise ValueError) (\<lambda>_.
     py_bind (py_set (\<lambda>w. w\<lparr>w_siginterrupt := False\<rparr>)) (\<lambda>_.
     py_set (\<lambda>w. w\<lparr>w_atexit_stops_timer := True\<rparr>)))"

text \<open>\<open>signal.setitimer\<close> refuses a negative time with \<open>EINVAL\<close>.\<close>

definition setitimer :: "pyfloat \<Rightarrow> pyfloat \<Rightarrow> (wall, unit) py" where
  "setitimer value interval =
     (if value < 0 \<or> interval < 0 then py_raise (OSError 22)
      else py_set (\<lambda>w. w\<lparr>w_itimer := (value, if value = 0 then 0 else interval)\<rparr>))"

section \<open>Recording a stack\<close>

datatype pyframe = PyFrame (co_name: string) (co_filename: string) (f_lineno: int)
  (f_back: "pyframe option")

function record_loop :: "nat \<Rightarrow> pyframe option \<Rightarrow> trace" where
  "record_loop depth frame = (case frame of None \<Rightarrow> []
     | Some f \<Rightarrow> if depth < MAX_STACK_DEPTH
         then (co_name f, co_filename f, f_lineno f) # record_loop (depth + 1) (f_back f)
         else [])"
  by pat_completeness auto
termination
  by (relation "measure (\<lambda>(depth, frame). MAX_STACK_DEPTH - depth)") auto

declare record_loop.simps [simp del]

definition record_trace :: "pyframe \<Rightarrow> trace" where
  "record_trace frame = record_loop 0 (Some frame)"

section \<open>The signal handler\<close>

definition lock_acquire :: "(wall, unit) py" where
  "lock_acquire = py_set (\<lambda>w. w\<lparr>w_lock_depth := w_lock_depth w + 1\<rparr>)"

definition lock_release :: "(wall, unit) py" where
  "lock_release = py_bind (py_get w_lock_depth) (\<lambda>n.
     if n = 0 then py_raise RuntimeError else py_set (\<lambda>w. w\<lparr>w_lock_depth := n - 1\<rparr>))"

text \<open>How many timer periods the signal stands for, and the new sample time.\<close>

definition tick_count :: "pyfloat \<Rightarrow> (wall, int) py" where
  "tick_count now = py_bind (py_get w_last_sample_time) (\<lambda>last.
     case last of
       None \<Rightarrow> py_bind (py_set (\<lambda>w. w\<lparr>w_last_sample_time := Some now\<rparr>)) (\<lambda>_. py_return 1)
     | Some t \<Rightarrow>
         py_bind (py_get w_period_sec) (\<lambda>period.
         py_bind (py_lift (fdiv (fsub now t) period)) (\<lambda>q.
         let n = max 1 (int_of_float q) in
         py_bind (py_set (\<lambda>w. w\<lparr>w_last_sample_time := Some (fadd t (fmul period (float_of_int n)))\<rparr>))
           (\<lambda>_. py_return n))))"

definition handler :: "pyfloat \<Rightarrow> pyframe \<Rightarrow> (wall, unit) py" where
  "handler now frame = py_bind (py_get (\<lambda>w. \<not> w_started w \<or> w_in_handler w)) (\<lambda>skip.
     if skip then py_return () else
     py_bind (py_set (\<lambda>w. w\<lparr>w_in_handler := True\<rparr>)) (\<lambda>_.
     let trace = record_trace frame in
     py_bind lock_acquire (\<lambda>_.
     py_bind (tick_count now) (\<lambda>n.
     py_bind lock_release (\<lambda>_.
     py_bind (py_set (\<lambda>w. w\<lparr>w_traces := dict_set (w_traces w) trace
       (dict_get_default (w_traces w) trace 0 + n)\<rparr>)) (\<lambda>_.
     py_bind (py_set (\<lambda>w. w\<lparr>w_trace_count := w_trace_count w + n\<rparr>)) (\<lambda>_.
     py_set (\<lambda>w. w\<lparr>w_in_handler := False\<rparr>))))))))"

text \<open>
  Signals delivered one after the other on the main thread. An exception in the handler is
  raised in the interrupted code of the main thread: for the profiler only the state counts.
\<close>

definition deliver :: "(pyfloat \<times> pyframe) list \<Rightarrow> wall \<Rightarrow> wall" where
  "deliver samples w = fold (\<lambda>(now, frame) w. snd (handler now frame w)) samples w"

section \<open>Profiling for a duration\<close>

definition wall_reset :: "wall \<Rightarrow> wall" where
  "wall_reset w = w\<lparr>w_traces := [], w_last_sample_time := None, w_trace_count := 0\<rparr>"

definition start_profiling :: "(wall, unit) py" where
  "start_profiling = py_bind (py_set (\<lambda>w. w\<lparr>w_started := True\<rparr>)) (\<lambda>_.
     py_bind (py_get w_period_sec) (\<lambda>p. setitimer p p))"

text \<open>
  Waiting for the last handler: \<open>None\<close> is a wait that does not end. With handlers that run as
  one step the flag can only be left set by a handler that raised.
\<close>

partial_function (option) wait_handler :: "nat \<Rightarrow> wall \<Rightarrow> wall option" where
  "wait_handler count w = (if w_in_handler w then wait_handler (count + 1) w else Some w)"

definition stop_profiling :: "wall \<Rightarrow> wall option" where
  "stop_profiling w = wait_handler 0
     ((snd (setitimer 0 0 w))\<lparr>w_started := False\<rparr>)"

text \<open>
  One round of the wait in \<open>profile\<close> after its sleep: the signals delivered while the thread
  sleeps, and the clock reading after it. The lock is taken by the polling thread, so the round blocks for ever
  (\<open>None\<close>) if the main thread was left holding it.
\<close>

type_synonym sleep_round = "(pyfloat \<times> pyframe) list \<times> pyfloat"

definition profile_round :: "pyfloat \<Rightarrow> sleep_round \<Rightarrow> wall \<Rightarrow> (pyfloat res \<times> wall) option" where
  "profile_round target_time rd w =
     (let w1 = deliver (fst rd) w in
      if w_lock_depth w1 \<noteq> 0 then None else
      Some (py_bind (setitimer 0 0) (\<lambda>_.
        let profile_duration = fsub target_time (snd rd) in
        py_bind (py_get w_period_sec) (\<lambda>p.
        py_bind (setitimer p p) (\<lambda>_.
        py_bind (py_set (\<lambda>w. w\<lparr>w_last_sample_time := None\<rparr>)) (\<lambda>_.
        py_return profile_duration)))) w1))"

text \<open>
  The loop. \<open>time.sleep\<close> raises for a duration that does not fit its nanoseconds; nothing in
  \<open>profile\<close> catches that.
\<close>

fun profile_loop :: "pyfloat \<Rightarrow> pyfloat \<Rightarrow> sleep_round list \<Rightarrow> wall \<Rightarrow> (unit res \<times> wall) option" where
  "profile_loop target_time profile_duration rounds w =
     (if profile_duration \<le> 0 then Some (Inr (), w)
      else case time_sleep profile_duration of
        Inl e \<Rightarrow> Some (Inl e, w)
      | Inr _ \<Rightarrow>
          (case rounds of
             [] \<Rightarrow> None
           | rd # rest \<Rightarrow>
               (case profile_round target_time rd w of
                  None \<Rightarrow> None
                | Some (Inl e, w1) \<Rightarrow> Some (Inl e, w1)
                | Some (Inr d, w1) \<Rightarrow> profile_loop target_time d rest w1)))"

declare profile_loop.simps [simp del]

definition unknown_trace :: trace where
  "unknown_trace = [(''unknown'', ''unknown'', 0)]"

text \<open>The reported period, and the number of periods of the duration that no sample covers.\<close>

definition wall_period_ns :: "wall \<Rightarrow> int" where
  "wall_period_ns w = int_of_float (fmul (w_period_sec w) (float_of_int WALL_NANOS_PER_SEC))"

definition add_unknown :: "int \<Rightarrow> (wall, unit) py" where
  "add_unknown duration_ns = py_bind (py_get wall_period_ns) (\<lambda>period_ns.
     py_bind (py_lift (int_truediv duration_ns period_ns)) (\<lambda>q.
     py_bind (py_get w_trace_count) (\<lambda>count.
     let unknown_trace_count = int_of_float q - count in
     if 0 < unknown_trace_count
     then py_set (\<lambda>w. w\<lparr>w_traces := dict_set (w_traces w) unknown_trace unknown_trace_count\<rparr>)
     else py_return ())))"

definition serialize_and_clear_traces :: "pb_runtime \<Rightarrow> int \<Rightarrow> (wall, bytes) py" where
  "serialize_and_clear_traces rt duration_ns =
     py_bind (add_unknown duration_ns) (\<lambda>_.
     py_bind (py_get (\<lambda>w. build_profile rt (w_traces w) (w_profile_type w) ''nanoseconds''
        (wall_period_ns w) duration_ns)) (\<lambda>r.
     py_bind (py_lift r) (\<lambda>bytes.
     py_bind (py_set wall_reset) (\<lambda>_.
     py_return bytes))))"

text \<open>
  The whole of \<open>profile\<close>. The script gives the clock reading at the start, the rounds of the
  wait, and the signals that arrive between the last round and the stop.
\<close>

record profile_script =
  ps_start :: pyfloat
  ps_rounds :: "sleep_round list"
  ps_tail :: "(pyfloat \<times> pyframe) list"

definition wall_profile :: "pb_runtime \<Rightarrow> profile_script \<Rightarrow> int \<Rightarrow> wall \<Rightarrow> (bytes res \<times> wall) option" where
  "wall_profile rt ps duration_ns w =
     (let w0 = wall_reset w;
          profile_duration = fl (float_of_int duration_ns / of_int WALL_NANOS_PER_SEC);
          target_time = fadd (ps_start ps) profile_duration
      in case start_profiling w0 of
           (Inl e, w1) \<Rightarrow> Some (Inl e, w1)
         | (Inr _, w1) \<Rightarrow>
             (case profile_loop target_time profile_duration (ps_rounds ps) w1 of
                None \<Rightarrow> None
              | Some (Inl e, w2) \<Rightarrow> Some (Inl e, w2)
              | Some (Inr _, w2) \<Rightarrow>
                  (case stop_profiling (deliver (ps_tail ps) w2) of
                     None \<Rightarrow> None
                   | Some w3 \<Rightarrow> Some (serialize_and_clear_traces rt duration_ns w3))))"

end
