(* ===== verification/WallCorrect.thy ===== *)
theory WallCorrect
  imports WallProfiler BuilderSpec
begin

text \<open>
  Correctness of the wall-time profiler: what a recorded trace is, how ticks are counted and
  attributed, that the wait ends, and what the profile of a run holds.
\<close>

section \<open>Recorded traces\<close>

text \<open>The stack of a frame, leaf first.\<close>

primrec stack_of :: "pyframe \<Rightarrow> trace" where
  "stack_of (PyFrame name filename line back) = (name, filename, line) #
     (case map_option stack_of back of None \<Rightarrow> [] | Some t \<Rightarrow> t)"

definition stack_of_opt :: "pyframe option \<Rightarrow> trace" where
  "stack_of_opt f = (case f of None \<Rightarrow> [] | Some g \<Rightarrow> stack_of g)"

lemma stack_of_unfold:
  "stack_of f = (co_name f, co_filename f, f_lineno f) # stack_of_opt (f_back f)"
  by (cases f) (simp add: stack_of_opt_def option.case_eq_if option.map_sel)

lemma record_loop_stack: "record_loop depth f = take (MAX_STACK_DEPTH - depth) (stack_of_opt f)"
proof (induction depth f rule: record_loop.induct)
  case (1 depth f)
  show ?case
  proof (cases "f = None \<or> MAX_STACK_DEPTH \<le> depth")
    case True
    then show ?thesis
      by (auto simp: record_loop.simps [of depth f] stack_of_opt_def split: option.split)
  next
    case False
    then obtain g where g: "f = Some g" and d: "depth < MAX_STACK_DEPTH" by auto
    from d have "MAX_STACK_DEPTH - depth = Suc (MAX_STACK_DEPTH - (depth + 1))" by simp
    with "1" [OF g d] d show ?thesis
      unfolding g record_loop.simps [of depth "Some g"]
      by (simp add: stack_of_unfold [of g] stack_of_opt_def [of "Some g"])
  qed
qed

lemma record_trace_stack: "record_trace f = take 128 (stack_of f)"
  by (simp add: record_trace_def record_loop_stack stack_of_opt_def MAX_STACK_DEPTH_def)

lemma record_trace_nonempty: "record_trace f \<noteq> []"
  by (simp add: record_trace_stack stack_of_unfold)

section \<open>The handler\<close>

definition wf_wall :: "wall \<Rightarrow> bool" where
  "wf_wall w \<longleftrightarrow> dict_ok (w_traces w) \<and> dict_total (w_traces w) = w_trace_count w \<and>
     (\<forall>(t, n) \<in> set (w_traces w). 1 \<le> n)"

text \<open>The number of ticks of a signal at a given time, as the code computes it.\<close>

definition ticks :: "pyfloat \<Rightarrow> pyfloat option \<Rightarrow> pyfloat \<Rightarrow> int" where
  "ticks period prev now = (case prev of None \<Rightarrow> 1
     | Some t \<Rightarrow> max 1 (int_of_float (fl (fsub now t / period))))"

definition next_time :: "pyfloat \<Rightarrow> pyfloat option \<Rightarrow> pyfloat \<Rightarrow> pyfloat" where
  "next_time period prev now = (case prev of None \<Rightarrow> now
     | Some t \<Rightarrow> fadd t (fmul period (float_of_int (ticks period prev now))))"

lemma ticks_pos: "1 \<le> ticks p l t"
  by (simp add: ticks_def split: option.split)

lemma tick_count_eq:
  assumes "w_period_sec w \<noteq> 0"
  shows "tick_count now w = (Inr (ticks (w_period_sec w) (w_last_sample_time w) now),
    w\<lparr>w_last_sample_time := Some (next_time (w_period_sec w) (w_last_sample_time w) now)\<rparr>)"
  using assms
  by (simp add: tick_count_def py_monad ticks_def next_time_def fdiv_def Let_def split: option.split)

lemma handler_skips: "\<not> w_started w \<or> w_in_handler w \<Longrightarrow> handler now f w = (Inr (), w)"
  by (simp add: handler_def py_monad)

text \<open>A signal that is taken: one dictionary entry, the count and the sample time change.\<close>

definition sampled :: "pyfloat \<Rightarrow> pyframe \<Rightarrow> wall \<Rightarrow> wall" where
  "sampled now f w = (let n = ticks (w_period_sec w) (w_last_sample_time w) now; t = record_trace f in
     w\<lparr>w_traces := dict_set (w_traces w) t (dict_get_default (w_traces w) t 0 + n),
       w_trace_count := w_trace_count w + n,
       w_last_sample_time := Some (next_time (w_period_sec w) (w_last_sample_time w) now)\<rparr>)"

lemma handler_takes:
  assumes "w_started w" "\<not> w_in_handler w" "w_period_sec w \<noteq> 0"
  shows "handler now f w = (Inr (), sampled now f w)"
  using assms
  by (simp add: handler_def py_monad lock_acquire_def lock_release_def tick_count_eq sampled_def Let_def)

lemma wf_sampled:
  assumes "wf_wall w" shows "wf_wall (sampled now f w)"
proof -
  let ?t = "record_trace f" and ?n = "ticks (w_period_sec w) (w_last_sample_time w) now"
  have pos: "0 \<le> dict_get_default (w_traces w) ?t 0"
  proof (cases "dict_get (w_traces w) ?t")
    case (Some k)
    then have "(?t, k) \<in> set (w_traces w)" by (simp add: dict_get_def map_of_SomeD)
    with assms Some show ?thesis by (auto simp: wf_wall_def dict_get_default_def)
  qed (simp add: dict_get_default_def)
  show ?thesis
    using assms pos ticks_pos [of "w_period_sec w" "w_last_sample_time w" now]
      set_dict_set [of "w_traces w" ?t "dict_get_default (w_traces w) ?t 0 + ?n"]
    by (fastforce simp: wf_wall_def sampled_def Let_def dict_total_set)
qed

lemma sampled_fields [simp]:
  "w_started (sampled now f w) = w_started w" "w_in_handler (sampled now f w) = w_in_handler w"
  "w_period_sec (sampled now f w) = w_period_sec w" "w_lock_depth (sampled now f w) = w_lock_depth w"
  "w_itimer (sampled now f w) = w_itimer w" "w_profile_type (sampled now f w) = w_profile_type w"
  by (simp_all add: sampled_def Let_def)

section \<open>Sequences of signals\<close>

definition active :: "wall \<Rightarrow> bool" where
  "active w \<longleftrightarrow> w_started w \<and> \<not> w_in_handler w \<and> w_period_sec w \<noteq> 0 \<and> w_lock_depth w = 0"

lemma deliver_Nil [simp]: "deliver [] w = w"
  by (simp add: deliver_def)

lemma deliver_Cons: "deliver ((now, f) # ss) w = deliver ss (snd (handler now f w))"
  by (simp add: deliver_def)

lemma deliver_append: "deliver (ss @ ts) w = deliver ts (deliver ss w)"
  by (simp add: deliver_def)

lemma deliver_active:
  assumes "active w" "wf_wall w"
  shows "active (deliver ss w)" "wf_wall (deliver ss w)"
    "w_period_sec (deliver ss w) = w_period_sec w" "w_profile_type (deliver ss w) = w_profile_type w"
    "w_itimer (deliver ss w) = w_itimer w"
    "fst ` set (w_traces (deliver ss w)) = fst ` set (w_traces w) \<union> record_trace ` snd ` set ss"
    "w_trace_count w + int (length ss) \<le> w_trace_count (deliver ss w)"
proof -
  have "active (deliver ss w) \<and> wf_wall (deliver ss w) \<and>
    w_period_sec (deliver ss w) = w_period_sec w \<and> w_profile_type (deliver ss w) = w_profile_type w \<and>
    w_itimer (deliver ss w) = w_itimer w \<and>
    fst ` set (w_traces (deliver ss w)) = fst ` set (w_traces w) \<union> record_trace ` snd ` set ss \<and>
    w_trace_count w + int (length ss) \<le> w_trace_count (deliver ss w)"
    using assms
  proof (induction ss arbitrary: w)
    case Nil
    then show ?case by simp
  next
    case (Cons s ss)
    obtain now f where s: "s = (now, f)" by (cases s)
    have step: "deliver (s # ss) w = deliver ss (sampled now f w)"
      using Cons.prems(1) handler_takes [of w now f] by (simp add: s deliver_Cons active_def)
    have "active (sampled now f w)" using Cons.prems(1) by (simp add: active_def)
    note IH = Cons.IH [OF this wf_sampled [OF Cons.prems(2)]]
    have dom: "fst ` set (w_traces (sampled now f w)) = insert (record_trace f) (fst ` set (w_traces w))"
      by (simp add: sampled_def Let_def)
    have "w_trace_count w + 1 \<le> w_trace_count (sampled now f w)"
      using ticks_pos by (simp add: sampled_def Let_def)
    with IH dom show ?case unfolding step by (auto simp: s)
  qed
  then show "active (deliver ss w)" "wf_wall (deliver ss w)"
    "w_period_sec (deliver ss w) = w_period_sec w" "w_profile_type (deliver ss w) = w_profile_type w"
    "w_itimer (deliver ss w) = w_itimer w"
    "fst ` set (w_traces (deliver ss w)) = fst ` set (w_traces w) \<union> record_trace ` snd ` set ss"
    "w_trace_count w + int (length ss) \<le> w_trace_count (deliver ss w)" by blast+
qed

lemma deliver_stopped: "\<not> w_started w \<Longrightarrow> deliver ss w = w"
  by (induction ss) (auto simp: deliver_Cons handler_skips)

section \<open>The wait and the stop\<close>

lemma wait_handler_done: "\<not> w_in_handler w \<Longrightarrow> wait_handler n w = Some w"
  by (simp add: wait_handler.simps)

lemma setitimer_0: "setitimer 0 0 w = (Inr (), w\<lparr>w_itimer := (0, 0)\<rparr>)"
  by (simp add: setitimer_def py_set_def)

lemma setitimer_pos: "0 < p \<Longrightarrow> setitimer p p w = (Inr (), w\<lparr>w_itimer := (p, p)\<rparr>)"
  by (simp add: setitimer_def py_set_def)

lemma stop_profiling_eq:
  "\<not> w_in_handler w \<Longrightarrow> stop_profiling w = Some (w\<lparr>w_itimer := (0, 0), w_started := False\<rparr>)"
  by (simp add: stop_profiling_def setitimer_0 wait_handler_done)

lemma profile_round_active:
  assumes "active w" "wf_wall w" "0 < w_period_sec w"
  shows "profile_round target rd w = Some (Inr (fsub target (snd rd)),
    (deliver (fst rd) w)\<lparr>w_itimer := (w_period_sec w, w_period_sec w), w_last_sample_time := None\<rparr>)"
  using deliver_active [OF assms(1,2), of "fst rd"] assms(3)
  by (simp add: profile_round_def Let_def py_monad setitimer_0 setitimer_pos active_def)

section \<open>Truncated quotients\<close>

text \<open>
  \<open>int(a / b)\<close> is the integer quotient as long as the dividend is exact as a float: the rounding
  error is smaller than the distance of the quotient to the next integer.
\<close>

lemma int_of_float_quotient:
  assumes "0 \<le> a" "a < 2 ^ 53" "0 < b" "b < 2 ^ 63"
  shows "int_of_float (fl (of_int a / of_int b)) = a div b"
proof (cases "a = 0")
  case True
  then show ?thesis by (simp add: int_of_float_def)
next
  case False
  let ?x = "of_int a / of_int b :: rat" and ?k = "a div b"
  have "(2 :: rat) powi (-1022) \<le> 2 powi (-63)" by (rule powi_mono) simp
  also have "\<dots> = 1 / 2 ^ 63" by (simp add: power_int_minus field_simps)
  also have "\<dots> \<le> 1 / of_int b" using assms(3,4) by (simp add: field_simps)
  also have "\<dots> \<le> ?x" using assms False by (simp add: divide_right_mono)
  finally have "\<bar>fl ?x - ?x\<bar> \<le> ?x / 2 ^ 53" by (rule fl_rel_error)
  moreover have "?x / 2 ^ 53 < 1 / of_int b"
    using assms by (simp add: field_simps)
  ultimately have up: "fl ?x < ?x + 1 / of_int b" by linarith
  have "a + 1 \<le> (?k + 1) * b"
    using assms(3) by (metis add1_zle_eq div_mult_mod_eq distrib_right mult_1 add_strict_left_mono pos_mod_bound)
  then have "(of_int (a + 1) :: rat) \<le> of_int ((?k + 1) * b)" by (simp only: of_int_le_iff)
  then have "?x + 1 / of_int b \<le> of_int (?k + 1)"
    using assms(3) by (simp add: field_simps)
  with up have less: "fl ?x < of_int (?k + 1)" by linarith
  have k: "0 \<le> ?k" "?k \<le> 2 ^ 53"
    using assms by (simp_all add: pos_imp_zdiv_nonneg_iff) (smt (verit) div_by_1 zdiv_mono2)
  have "?k * b \<le> a" using assms(3) by (metis div_mult_mod_eq le_add_same_cancel1 pos_mod_sign)
  then have "of_int ?k \<le> ?x" using assms(3)
    by (simp add: pos_le_divide_eq) (metis of_int_le_iff of_int_mult)
  from fl_mono [OF this] k have low: "of_int ?k \<le> fl ?x" using fl_of_int [of ?k] by simp
  then have "0 \<le> fl ?x" using k(1) by (meson of_int_0_le_iff order_trans)
  then show ?thesis unfolding int_of_float_def using low less by (simp add: floor_unique)
qed

text \<open>Two roundings of a quotient move it by less than one as long as it is below \<open>2 ^ 50\<close>.\<close>

lemma two_roundings:
  assumes "2 powi (-1022) \<le> e" "0 < p" "p \<le> e" "e / p \<le> 2 ^ 50"
  shows "\<bar>fl (fl e / p) - e / p\<bar> < 1"
proof -
  let ?q = "fl e / p"
  have "0 < e" using assms(2,3) by linarith
  have "\<bar>fl e - e\<bar> \<le> e / 2 ^ 53" by (rule fl_rel_error [OF assms(1)])
  then have "\<bar>fl e - e\<bar> / p \<le> e / 2 ^ 53 / p" using assms(2) by (intro divide_right_mono) simp_all
  moreover have "?q - e / p = (fl e - e) / p" by (simp add: diff_divide_distrib)
  ultimately have d1: "\<bar>?q - e / p\<bar> \<le> (e / p) / 2 ^ 53" using assms(2) by (simp add: mult.commute)
  have ep: "1 \<le> e / p" using assms(2,3) by simp
  have half: "1 / 2 \<le> ?q" using d1 ep by (simp add: abs_le_iff)
  have "(2 :: rat) powi (-1022) \<le> 1 / 2" by (simp add: power_int_minus)
  from this half have "2 powi (-1022) \<le> ?q" by (rule order_trans)
  from fl_rel_error [OF this] have d2: "\<bar>fl ?q - ?q\<bar> \<le> ?q / 2 ^ 53" .
  have "?q \<le> 2 ^ 51" using d1 assms(4) by (simp add: abs_le_iff)
  with d1 d2 assms(4) show ?thesis by (simp add: abs_le_iff abs_less_iff)
qed

lemma ticks_floor:
  assumes "2 powi (-1022) \<le> now - t" "0 < p" "p \<le> now - t" "(now - t) / p \<le> 2 ^ 50"
  shows "\<bar>ticks p (Some t) now - \<lfloor>(now - t) / p\<rfloor>\<bar> \<le> 1"
proof -
  let ?x = "(now - t) / p" and ?y = "fl (fl (now - t) / p)"
  have "\<bar>?y - ?x\<bar> < 1" by (rule two_roundings [OF assms])
  moreover have "1 \<le> ?x" using assms(2,3) by simp
  ultimately have y: "0 \<le> ?y" "?x - 1 < ?y" "?y < ?x + 1" by linarith+
  then have "\<lfloor>?x\<rfloor> - 1 \<le> \<lfloor>?y\<rfloor>" "\<lfloor>?y\<rfloor> \<le> \<lfloor>?x\<rfloor> + 1" by linarith+
  moreover have "1 \<le> \<lfloor>?x\<rfloor>" using \<open>1 \<le> ?x\<close> by linarith
  ultimately show ?thesis using y(1)
    by (simp add: ticks_def fsub_def int_of_float_def) linarith
qed

section \<open>The wait for the duration\<close>

text \<open>What a wait keeps: the invariants, the configuration, and which traces are recorded.\<close>

definition waited :: "(pyfloat \<times> pyframe) list \<Rightarrow> wall \<Rightarrow> wall \<Rightarrow> bool" where
  "waited signals w w' \<longleftrightarrow> active w' \<and> wf_wall w' \<and> w_period_sec w' = w_period_sec w \<and>
     w_profile_type w' = w_profile_type w \<and>
     fst ` set (w_traces w') = fst ` set (w_traces w) \<union> record_trace ` snd ` set signals \<and>
     w_trace_count w + int (length signals) \<le> w_trace_count w'"

lemma waited_deliver:
  assumes "active w" "wf_wall w" shows "waited ss w (deliver ss w)"
  using deliver_active [OF assms, of ss] by (simp add: waited_def)

lemma waited_trans: "waited ss w w1 \<Longrightarrow> waited ts w1 w2 \<Longrightarrow> waited (ss @ ts) w w2"
  by (auto simp: waited_def image_Un)

lemma waited_timer:
  "waited ss w w' \<Longrightarrow> waited ss w (w'\<lparr>w_itimer := i, w_last_sample_time := None\<rparr>)"
  by (simp add: waited_def active_def wf_wall_def)

lemma profile_round_waited:
  assumes "active w" "wf_wall w" "0 < w_period_sec w"
  shows "\<exists>w'. profile_round target rd w = Some (Inr (fsub target (snd rd)), w') \<and> waited (fst rd) w w'"
  using profile_round_active [OF assms] waited_timer [OF waited_deliver [OF assms(1,2)]] by simp

lemma profile_loop_returns:
  assumes "active w" "wf_wall w" "0 < w_period_sec w" "0 < d" "d \<le> 2 ^ 33"
    and "\<forall>rd \<in> set pre. 0 < fsub target (snd rd) \<and> fsub target (snd rd) \<le> 2 ^ 33" "fsub target (snd rd) \<le> 0"
  shows "\<exists>w'. profile_loop target d (pre @ rd # post) w = Some (Inr (), w') \<and>
    waited (concat (map fst pre) @ fst rd) w w'"
  using assms
proof (induction pre arbitrary: w d)
  case Nil
  obtain w' where "profile_round target rd w = Some (Inr (fsub target (snd rd)), w')" "waited (fst rd) w w'"
    using profile_round_waited Nil.prems(1-3) by blast
  with Nil.prems(4,5,7) show ?case
    by (simp add: profile_loop.simps [of target d] profile_loop.simps [of target _ post] time_sleep_ok)
next
  case (Cons r pre)
  obtain w1 where r: "profile_round target r w = Some (Inr (fsub target (snd r)), w1)"
    and w1: "waited (fst r) w w1"
    using profile_round_waited Cons.prems(1-3) by blast
  have "active w1" "wf_wall w1" "0 < w_period_sec w1"
    using w1 Cons.prems(3) by (simp_all add: waited_def)
  from Cons.IH [OF this, of "fsub target (snd r)"] Cons.prems(6,7)
  obtain w' where "profile_loop target (fsub target (snd r)) (pre @ rd # post) w1 = Some (Inr (), w')"
    "waited (concat (map fst pre) @ fst rd) w1 w'" by auto
  with r waited_trans [OF w1] Cons.prems(4,5) show ?case
    by (auto simp: profile_loop.simps [of target d] time_sleep_ok)
qed

section \<open>Serialization\<close>

lemma add_unknown_eq:
  assumes "0 \<le> d" "d < 2 ^ 53" "0 < wall_period_ns w" "wall_period_ns w < 2 ^ 63"
  shows "add_unknown d w = (Inr (), let u = d div wall_period_ns w - w_trace_count w in
    if 0 < u then w\<lparr>w_traces := dict_set (w_traces w) unknown_trace u\<rparr> else w)"
  using assms int_of_float_quotient [OF assms]
  by (simp add: add_unknown_def py_monad int_truediv_def Let_def)

lemma add_unknown_total:
  assumes "0 \<le> d" "d < 2 ^ 53" "0 < wall_period_ns w" "wall_period_ns w < 2 ^ 63"
    and "wf_wall w" "unknown_trace \<notin> fst ` set (w_traces w)"
  obtains w' where "add_unknown d w = (Inr (), w')"
    "dict_total (w_traces w') = max (w_trace_count w) (d div wall_period_ns w)"
    "dict_ok (w_traces w')" "w' = w\<lparr>w_traces := w_traces w'\<rparr>"
    "fst ` set (w_traces w) \<subseteq> fst ` set (w_traces w')"
    "fst ` set (w_traces w') \<subseteq> insert unknown_trace (fst ` set (w_traces w))"
proof -
  have none: "dict_get_default (w_traces w) unknown_trace 0 = 0"
    using assms(6) dict_get_None_iff [of "w_traces w" unknown_trace] by (simp add: dict_get_default_def)
  show ?thesis
  proof (cases "0 < d div wall_period_ns w - w_trace_count w")
    case True
    then show ?thesis
      using add_unknown_eq [OF assms(1-4)] assms(5) none
      by (intro that [of "w\<lparr>w_traces := dict_set (w_traces w) unknown_trace
          (d div wall_period_ns w - w_trace_count w)\<rparr>"]) (auto simp: dict_total_set wf_wall_def)
  next
    case False
    then show ?thesis
      using add_unknown_eq [OF assms(1-4)] assms(5) by (intro that [of w]) (auto simp: wf_wall_def)
  qed
qed

lemma wall_reset_wf: "wf_wall (wall_reset w)"
  by (simp add: wf_wall_def wall_reset_def)

lemma serialize_eq:
  assumes "add_unknown d w = (Inr (), w')" "w' = w\<lparr>w_traces := w_traces w'\<rparr>"
  shows "serialize_and_clear_traces rt d w =
    (let r = build_profile rt (w_traces w') (w_profile_type w) ''nanoseconds'' (wall_period_ns w) d in
     (r, case r of Inl e \<Rightarrow> w' | Inr b \<Rightarrow> wall_reset w'))"
proof -
  have "w_profile_type w' = w_profile_type w" "wall_period_ns w' = wall_period_ns w"
    by (subst assms(2), simp add: wall_period_ns_def)+
  with assms(1) show ?thesis
    by (simp add: serialize_and_clear_traces_def py_monad Let_def split: sum.split)
qed

end
