(* ===== verification/WallSpec.thy ===== *)
theory WallSpec
  imports WallCorrect
begin

text \<open>
  The contract of the wall-time profiler: the properties of the manifest about
  \<open>pythonprofiler.py\<close>, with signals delivered as whole handler runs.
\<close>

section \<open>Example data\<close>

definition sample_frame :: pyframe where
  "sample_frame = PyFrame ''work'' ''app.py'' 12 (Some (PyFrame ''main'' ''app.py'' 30 None))"

definition sample_wall :: wall where
  "sample_wall = (WallProfiler_init 10)\<lparr>w_started := True\<rparr>"

lemma fl_10_ms: "fl (1 / 100) = 5764607523034235 / 576460752303423488"
  by (rule fl_eqI [of "-7" _ "5764607523034235"]) (simp_all add: power_int_minus)

lemma fl_10_7: "fl (5764607523034235 / 576460752303423488 * 1000000000) = 10000000"
  by (rule fl_eqI [of 23 _ "5368709120000000"]) (simp_all add: power_int_minus)

lemma fl_1001_ms: "fl (1001 / 1000) = 2254051613498933 / 2251799813685248"
  by (rule fl_eqI [of 0 _ "4508103226997866"]) (simp_all add: power_int_minus)

lemma fl_1001_ns: "fl (2254051613498933 / 2251799813685248 * 1000000000) = 8396996607999999 / 8388608"
  by (rule fl_eqI [of 29 _ "8396996607999999"]) (simp_all add: power_int_minus)

lemma fl_10_7_normal: "fl (11258999068426240234375 / 1125899906842624) = 10000000"
  using fl_10_7 by simp

lemma fl_1001_ns_normal: "fl (4402444557615103515625 / 4398046511104) = 8396996607999999 / 8388608"
  using fl_1001_ns by simp

lemmas wall_period_defs = wall_period_ns_def WallProfiler_init_def fmul_def float_of_int_def
  WALL_NANOS_PER_SEC_def

lemma sample_wall_facts:
  "wf_wall sample_wall" "active sample_wall" "w_traces sample_wall = []" "w_trace_count sample_wall = 0"
  "w_period_sec sample_wall = 5764607523034235 / 576460752303423488"
  "w_last_sample_time sample_wall = None" "wall_period_ns sample_wall = 10000000"
  "w_started sample_wall" "\<not> w_in_handler sample_wall"
  using fl_numeral [of "num.Bit0 (num.Bit1 (num.Bit0 num.One))"] fl_numeral [of "Num.num_of_nat 1000000000"]
  by (simp_all add: sample_wall_def wf_wall_def active_def wall_period_defs fl_10_ms fl_10_7_normal
      fl_numeral int_of_float_def)

text \<open>A relative error of \<open>2 ^ -53\<close> twice over is less than one up to \<open>10 ^ 12\<close>.\<close>

lemma two_errors:
  fixes n y z :: rat
  assumes "\<bar>y - n\<bar> \<le> n / 2 ^ 53" "1000000 \<le> n" "n \<le> 1000000000000"
  shows "1 \<le> y" "\<bar>z - y\<bar> \<le> y / 2 ^ 53 \<Longrightarrow> \<bar>z - n\<bar> < 1"
proof -
  have y: "y - n \<le> n / 2 ^ 53" "n - y \<le> n / 2 ^ 53" using assms(1) by linarith+
  then show "1 \<le> y" using assms(2) by (simp add: field_simps)
  assume "\<bar>z - y\<bar> \<le> y / 2 ^ 53"
  then have "z - y \<le> y / 2 ^ 53" "y - z \<le> y / 2 ^ 53" by linarith+
  then show "\<bar>z - n\<bar> < 1" using y assms(3) by (simp add: abs_less_iff field_simps)
qed

section \<open>Properties\<close>

text \<open>
  C10: a recorded trace is the stack of the frame, leaf first and cut at the outermost frames
  when it is deeper than 128.
\<close>

theorem record_trace_leaf_first: "record_trace frame = take 128 (stack_of frame)"
  by (rule record_trace_stack)

text \<open>
  C11: a signal that finds the profiler stopped or a handler running changes nothing. Any other
  signal adds its ticks, at least one, to the count of exactly its own trace and to the total,
  releases the lock and the handler flag and keeps the counts consistent.
\<close>

theorem handler_counts_one_trace:
  assumes "wf_wall w" and "w_period_sec w \<noteq> 0"
  shows "\<exists>w'. handler now frame w = (Inr (), w') \<and> wf_wall w' \<and>
    w_in_handler w' = w_in_handler w \<and> w_lock_depth w' = w_lock_depth w \<and> w_started w' = w_started w \<and>
    (if \<not> w_started w \<or> w_in_handler w then w' = w
     else \<exists>n \<ge> 1. w_trace_count w' = w_trace_count w + n \<and>
       (\<forall>t. dict_get_default (w_traces w') t 0 =
          dict_get_default (w_traces w) t 0 + (if t = record_trace frame then n else 0)))"
proof (cases "\<not> w_started w \<or> w_in_handler w")
  case True
  then show ?thesis using assms handler_skips by auto
next
  case False
  then have "handler now frame w = (Inr (), sampled now frame w)" using handler_takes assms(2) by blast
  then show ?thesis
    using False wf_sampled [OF assms(1)] ticks_pos
    by (auto simp: sampled_def Let_def dict_get_default_def
        intro!: exI [of _ "ticks (w_period_sec w) (w_last_sample_time w) now"])
qed

theorem handler_counts_one_trace_witness:
  "\<exists>w'. handler 5 sample_frame sample_wall = (Inr (), w') \<and> wf_wall w' \<and> 1 \<le> w_trace_count w'"
  using handler_counts_one_trace [OF sample_wall_facts(1), of 5 sample_frame] sample_wall_facts
  by auto

text \<open>
  C12: a signal that comes late stands for the periods that passed: with the two roundings of
  the code, the number of ticks is within one of the periods elapsed since the last sample.
\<close>

theorem handler_ticks_elapsed:
  assumes "w_started w" "\<not> w_in_handler w" "w_last_sample_time w = Some t" "0 < w_period_sec w"
    and "2 powi (-1022) \<le> now - t" "w_period_sec w \<le> now - t" "(now - t) / w_period_sec w \<le> 2 ^ 50"
  shows "\<bar>w_trace_count (snd (handler now frame w)) - w_trace_count w
    - \<lfloor>(now - t) / w_period_sec w\<rfloor>\<bar> \<le> 1"
  using ticks_floor [OF assms(5,4,6,7)] handler_takes [OF assms(1,2)] assms(3,4)
  by (simp add: sampled_def Let_def)

theorem handler_ticks_elapsed_witness:
  "\<bar>w_trace_count (snd (handler 9 sample_frame (sample_wall\<lparr>w_last_sample_time := Some 8\<rparr>)))
     - \<lfloor>576460752303423488 / 5764607523034235 :: rat\<rfloor>\<bar> \<le> 1"
  using handler_ticks_elapsed [of "sample_wall\<lparr>w_last_sample_time := Some 8\<rparr>" 8 9 sample_frame]
    sample_wall_facts by (simp add: power_int_minus)

text \<open>
  C13: the period the profile reports is the configured one or one nanosecond less, for every
  period from a millisecond to a thousand seconds: \<open>int()\<close> truncates the rounded product.
\<close>

theorem wall_period_reported:
  assumes "1 \<le> ms" "ms \<le> 1000000"
  shows "wall_period_ns (WallProfiler_init ms) \<in> {ms * 1000000 - 1, ms * 1000000}"
proof -
  let ?x = "of_int ms / 1000 :: rat" and ?n = "of_int (ms * 1000000) :: rat"
  have f: "fl (of_int ms) = of_int ms" "fl 1000000000 = 1000000000"
    using fl_of_int [of ms] fl_of_int [of 1000000000] assms by simp_all
  have tiny: "(2 :: rat) powi (-1022) \<le> 1 / 2000" by (simp add: power_int_minus)
  have x: "1 / 1000 \<le> ?x" "?x \<le> 1000" "?x * 1000000000 = ?n" using assms by simp_all
  from x(1) tiny have "2 powi (-1022) \<le> ?x" by linarith
  from fl_rel_error [OF this] have e1: "\<bar>fl ?x - ?x\<bar> \<le> ?x / 2 ^ 53" .
  let ?y = "fl ?x * 1000000000"
  have y: "\<bar>?y - ?n\<bar> \<le> ?n / 2 ^ 53" using e1 x(3) unfolding abs_le_iff
    by (elim conjE, intro conjI) (simp_all add: field_simps)
  have n: "1000000 \<le> ?n" "?n \<le> 1000000000000" using assms by simp_all
  note close = two_errors [OF y n]
  from close(1) tiny have "2 powi (-1022) \<le> ?y" by linarith
  from close(2) [OF fl_rel_error [OF this]] have "\<bar>fl ?y - ?n\<bar> < 1" .
  moreover have "wall_period_ns (WallProfiler_init ms) = \<lfloor>fl ?y\<rfloor>"
    using f fl_nonneg [of ?y] close(1) by (simp add: wall_period_defs int_of_float_def)
  ultimately show ?thesis by (simp add: abs_less_iff) linarith
qed

theorem wall_period_reported_witness:
  "wall_period_ns (WallProfiler_init 1001) = 1001 * 1000000 - 1"
  using wall_period_reported [of 1001] fl_of_int [of 1001] fl_of_int [of 1000000000]
  by (simp add: wall_period_defs fl_1001_ms fl_1001_ns_normal int_of_float_def floor_eq_iff)

text \<open>
  C14: the periods of the duration that no sample covers are attributed to the unknown trace,
  and only they: afterwards the counts add up to the number of periods of the duration, or to
  the number of ticks counted when that is larger.
\<close>

theorem unknown_trace_completes:
  assumes "wf_wall w" "unknown_trace \<notin> fst ` set (w_traces w)"
    and "0 \<le> d" "d < 2 ^ 53" "0 < wall_period_ns w" "wall_period_ns w < 2 ^ 63"
  shows "\<exists>w'. add_unknown d w = (Inr (), w') \<and>
    dict_total (w_traces w') = max (w_trace_count w) (d div wall_period_ns w) \<and>
    dict_get_default (w_traces w') unknown_trace 0 = max 0 (d div wall_period_ns w - w_trace_count w) \<and>
    (\<forall>t. t \<noteq> unknown_trace \<longrightarrow> dict_get (w_traces w') t = dict_get (w_traces w) t)"
proof -
  have "dict_get (w_traces w) unknown_trace = None"
    using assms(2) dict_get_None_iff [of "w_traces w" unknown_trace] by simp
  then show ?thesis
    using assms(1) add_unknown_eq [OF assms(3-6)]
    by (auto simp: Let_def dict_total_set dict_get_default_def wf_wall_def)
qed

theorem unknown_trace_completes_witness:
  "\<exists>w'. add_unknown 1000000000 sample_wall = (Inr (), w') \<and> dict_total (w_traces w') = 100"
  using unknown_trace_completes [of sample_wall 1000000000] sample_wall_facts by auto

lemma profile_duration_pos:
  assumes "0 < d" shows "0 < fl (float_of_int d / of_int WALL_NANOS_PER_SEC)"
proof -
  have "fl (of_int 1) \<le> fl (of_int d)" by (rule fl_mono) (use assms in simp)
  then have "1 / 1000000000 \<le> float_of_int d / of_int WALL_NANOS_PER_SEC"
    by (simp add: float_of_int_def WALL_NANOS_PER_SEC_def)
  from fl_mono [OF this] have "fl (1 / 1000000000) \<le> fl (float_of_int d / of_int WALL_NANOS_PER_SEC)" .
  moreover have "fl (1 / 1000000000) = 4835703278458517 / 4835703278458516698824704"
    by (rule fl_eqI [of "-30" _ "4835703278458517"]) (simp_all add: power_int_minus)
  ultimately show ?thesis by simp
qed

lemma profile_duration_upper:
  assumes "d < 2 ^ 53" shows "fl (float_of_int d / of_int WALL_NANOS_PER_SEC) \<le> 2 ^ 24"
proof -
  have "fl (of_int d) \<le> fl (of_int (2 ^ 53))" by (rule fl_mono) (use assms in simp)
  then have "fl (of_int d) \<le> 2 ^ 53" using fl_of_int [of "2 ^ 53"] by simp
  then have "fl (float_of_int d / of_int WALL_NANOS_PER_SEC) \<le> fl (2 ^ 24)"
    by (intro fl_mono) (simp add: float_of_int_def WALL_NANOS_PER_SEC_def)
  then show ?thesis by (simp add: fl_power)
qed

lemma start_profiling_eq:
  "0 < w_period_sec w \<Longrightarrow> start_profiling w =
    (Inr (), w\<lparr>w_started := True, w_itimer := (w_period_sec w, w_period_sec w)\<rparr>)"
  by (simp add: start_profiling_def py_monad setitimer_pos)


lemma wall_profile_run:
  assumes "\<not> w_in_handler w" "w_lock_depth w = 0" "0 < w_period_sec w"
    and "0 < d" "d < 2 ^ 53" "0 < wall_period_ns w" "wall_period_ns w < 2 ^ 63"
    and "target = fadd (ps_start ps) (fl (float_of_int d / of_int WALL_NANOS_PER_SEC))"
    and "ps_rounds ps = pre @ rd # post"
    and "\<forall>r \<in> set pre. 0 < fsub target (snd r)" "fsub target (snd rd) \<le> 0"
    and "ps_start ps \<le> 2 ^ 32" "\<forall>r \<in> set pre. 0 \<le> snd r"
    and "signals = concat (map fst pre) @ fst rd @ ps_tail ps"
    and "unknown_trace \<notin> record_trace ` snd ` set signals"
  obtains traces w' where
    "wall_profile rt ps d w = Some (build_profile rt traces (w_profile_type w) ''nanoseconds'' (wall_period_ns w) d, w')"
    "record_trace ` snd ` set signals \<subseteq> fst ` set traces"
    "fst ` set traces \<subseteq> insert unknown_trace (record_trace ` snd ` set signals)"
    "d div wall_period_ns w \<le> dict_total traces" "int (length signals) \<le> dict_total traces"
    "\<not> w_started w'" "w_itimer w' = (0, 0)" "dict_ok traces"
    "\<forall>bytes. build_profile rt traces (w_profile_type w) ''nanoseconds'' (wall_period_ns w) d = Inr bytes
       \<longrightarrow> w_traces w' = [] \<and> w_trace_count w' = 0 \<and> w_last_sample_time w' = None"
proof -
  let ?pd = "fl (float_of_int d / of_int WALL_NANOS_PER_SEC)" and ?p = "w_period_sec w"
  let ?w1 = "(wall_reset w)\<lparr>w_started := True, w_itimer := (?p, ?p)\<rparr>"
  have start: "start_profiling (wall_reset w) = (Inr (), ?w1)"
    using assms(3) by (simp add: start_profiling_eq wall_reset_def)
  have "active ?w1" "wf_wall ?w1" "0 < w_period_sec ?w1"
    using assms(1-3) by (simp_all add: active_def wf_wall_def wall_reset_def)
  have upper: "?pd \<le> 2 ^ 24" by (rule profile_duration_upper [OF assms(5)])
  then have "?pd \<le> 2 ^ 33" by simp
  moreover have "\<forall>r \<in> set pre. 0 < fsub target (snd r) \<and> fsub target (snd r) \<le> 2 ^ 33"
    using assms(8,10,13) wait_bound [OF assms(12) upper] by auto
  moreover note \<open>active ?w1\<close> \<open>wf_wall ?w1\<close> \<open>0 < w_period_sec ?w1\<close>
  ultimately
  obtain w2 where loop: "profile_loop target ?pd (pre @ rd # post) ?w1 = Some (Inr (), w2)"
    and w2: "waited (concat (map fst pre) @ fst rd) ?w1 w2"
    using profile_loop_returns [OF _ _ _ profile_duration_pos [OF assms(4)] _ _ assms(11)] by blast
  let ?w3 = "deliver (ps_tail ps) w2"
  have w3: "waited signals ?w1 ?w3"
    using waited_trans [OF w2 waited_deliver, of "ps_tail ps"] w2 by (simp add: assms(14) waited_def)
  let ?w4 = "?w3\<lparr>w_itimer := (0, 0), w_started := False\<rparr>"
  have "\<not> w_in_handler ?w3" using w3 by (simp add: waited_def active_def)
  note stop = stop_profiling_eq [OF this]
  have period: "wall_period_ns ?w4 = wall_period_ns w" "w_profile_type ?w4 = w_profile_type w"
    using w3 by (simp_all add: waited_def wall_period_ns_def wall_reset_def)
  have keys: "fst ` set (w_traces ?w4) = record_trace ` snd ` set signals"
    and wf4: "wf_wall ?w4" and count: "int (length signals) \<le> w_trace_count ?w4"
    using w3 by (simp_all add: waited_def wall_reset_def wf_wall_def)
  from add_unknown_total [of d ?w4] assms(4-7,15) keys wf4 period
  obtain w5 where w5: "add_unknown d ?w4 = (Inr (), w5)"
    "dict_total (w_traces w5) = max (w_trace_count ?w4) (d div wall_period_ns w)"
    "dict_ok (w_traces w5)" "w5 = ?w4\<lparr>w_traces := w_traces w5\<rparr>"
    "record_trace ` snd ` set signals \<subseteq> fst ` set (w_traces w5)"
    "fst ` set (w_traces w5) \<subseteq> insert unknown_trace (record_trace ` snd ` set signals)"
    by (metis order_less_imp_le)
  have run: "wall_profile rt ps d w = Some (serialize_and_clear_traces rt d ?w4)"
    by (simp add: wall_profile_def start Let_def loop stop assms(8,9) [symmetric] flip: assms(8))
      (simp add: assms(9) loop stop)
  have fields: "\<not> w_started w5" "w_itimer w5 = (0, 0)" by (subst w5(4), simp)+
  show ?thesis
    using run serialize_eq [OF w5(1,4)] w5 count period fields
    by (intro that [of "w_traces w5" "snd (serialize_and_clear_traces rt d ?w4)"])
      (auto simp: Let_def wall_reset_def split: sum.splits)
qed


text \<open>
  C15: on a clock that starts below \<open>2 ^ 32\<close> seconds and reads no negative time, a profiling run
  of a duration below \<open>2 ^ 53\<close> nanoseconds returns as soon as the clock has passed the target,
  however often the sleep was cut short, and leaves the profiler stopped with its timer off. When it returns
  bytes, they are a profile whose samples are the traces of the signals delivered while it ran,
  and possibly the unknown trace, with counts that cover every signal and every period of the
  duration; and the collected traces are cleared.
\<close>

theorem wall_profile_returns:
  assumes "runtime_ok rt" "\<not> w_in_handler w" "w_lock_depth w = 0" "0 < w_period_sec w"
    and "0 < d" "d < 2 ^ 53" "0 < wall_period_ns w" "wall_period_ns w < 2 ^ 63"
    and "target = fadd (ps_start ps) (fl (float_of_int d / of_int WALL_NANOS_PER_SEC))"
    and "ps_rounds ps = pre @ rd # post"
    and "\<forall>r \<in> set pre. 0 < fsub target (snd r)" "fsub target (snd rd) \<le> 0"
    and "ps_start ps \<le> 2 ^ 32" "\<forall>r \<in> set pre. 0 \<le> snd r"
    and "signals = concat (map fst pre) @ fst rd @ ps_tail ps"
    and "unknown_trace \<notin> record_trace ` snd ` set signals"
  shows "\<exists>r w'. wall_profile rt ps d w = Some (r, w') \<and> \<not> w_started w' \<and> w_itimer w' = (0, 0) \<and>
    (\<forall>bytes. r = Inr bytes \<longrightarrow> w_traces w' = [] \<and> w_trace_count w' = 0 \<and>
      (\<exists>p traces. bytes = pb_gzip rt (pb_serialize rt p) \<and>
        map (read_sample p) (pf_sample p) =
          map (\<lambda>(trace, n). (map Some trace, [n, wall_period_ns w * n])) traces \<and>
        pf_period p = wall_period_ns w \<and> pf_duration_nanos p = d \<and> dict_ok traces \<and>
        record_trace ` snd ` set signals \<subseteq> fst ` set traces \<and>
        fst ` set traces \<subseteq> insert unknown_trace (record_trace ` snd ` set signals) \<and>
        d div wall_period_ns w \<le> dict_total traces \<and> int (length signals) \<le> dict_total traces))"
proof -
  obtain traces w' where run:
    "wall_profile rt ps d w = Some (build_profile rt traces (w_profile_type w) ''nanoseconds'' (wall_period_ns w) d, w')"
    "record_trace ` snd ` set signals \<subseteq> fst ` set traces"
    "fst ` set traces \<subseteq> insert unknown_trace (record_trace ` snd ` set signals)"
    "d div wall_period_ns w \<le> dict_total traces" "int (length signals) \<le> dict_total traces"
    "\<not> w_started w'" "w_itimer w' = (0, 0)" "dict_ok traces"
    "\<forall>bytes. build_profile rt traces (w_profile_type w) ''nanoseconds'' (wall_period_ns w) d = Inr bytes
       \<longrightarrow> w_traces w' = [] \<and> w_trace_count w' = 0 \<and> w_last_sample_time w' = None"
    by (rule wall_profile_run [OF assms(2-16)])
  show ?thesis
  proof (cases "build_profile rt traces (w_profile_type w) ''nanoseconds'' (wall_period_ns w) d")
    case (Inr bytes)
    obtain p where p: "bytes = pb_gzip rt (pb_serialize rt p)"
      "map (read_sample p) (pf_sample p) = map (spec_sample (wall_period_ns w)) traces"
      "header_read p (w_profile_type w) ''nanoseconds'' (wall_period_ns w) d"
      by (rule build_profile_reads [OF assms(1) Inr])
    have "spec_sample (wall_period_ns w) = (\<lambda>(trace, n). (map Some trace, [n, wall_period_ns w * n]))"
      by (simp add: spec_sample_def fun_eq_iff)
    moreover have "pf_period p = wall_period_ns w" "pf_duration_nanos p = d"
      using p(3) by (simp_all add: header_read_def)
    ultimately show ?thesis using run p(1,2) Inr by auto
  qed (use run in auto)
qed

theorem wall_profile_returns_witness:
  "\<exists>r w'. wall_profile sample_runtime \<lparr>ps_start = 100, ps_rounds = [([(101, sample_frame)], 200)], ps_tail = []\<rparr>
      10000000000 (WallProfiler_init 10) = Some (r, w') \<and> \<not> w_started w' \<and> w_itimer w' = (0, 0)"
proof -
  let ?target = "fadd 100 (fl (float_of_int 10000000000 / of_int WALL_NANOS_PER_SEC))"
  have f: "fl 10000000000 = 10000000000" "fl 10 = 10" "fl 110 = 110" "fl (110 - 200) = - 90"
    using fl_of_int [of 10000000000] fl_of_int [of 10] fl_of_int [of 110] fl_of_int [of "-90"] by simp_all
  have t: "fsub ?target 200 \<le> 0"
    using f by (simp add: fadd_def fsub_def float_of_int_def WALL_NANOS_PER_SEC_def)
  have "record_trace sample_frame = [(''work'', ''app.py'', 12), (''main'', ''app.py'', 30)]"
    by (simp add: sample_frame_def record_trace_stack)
  then have u: "unknown_trace \<notin> record_trace ` snd ` set [(101, sample_frame)]"
    by (simp add: unknown_trace_def)
  have w: "\<not> w_in_handler (WallProfiler_init 10)" "w_lock_depth (WallProfiler_init 10) = 0"
    "0 < w_period_sec (WallProfiler_init 10)" "wall_period_ns (WallProfiler_init 10) = 10000000"
    using sample_wall_facts by (simp_all add: sample_wall_def wall_period_ns_def WallProfiler_init_def)
  show ?thesis
    using wall_profile_returns [OF sample_runtime_ok w(1-3), of 10000000000 ?target
        "\<lparr>ps_start = 100, ps_rounds = [([(101, sample_frame)], 200)], ps_tail = []\<rparr>" "[]"
        "([(101, sample_frame)], 200)" "[]" "[(101, sample_frame)]"] t u w(4) by auto
qed

section \<open>A duration that cannot be slept\<close>

lemma unsleepable:
  assumes "2 ^ 64 \<le> d"
  shows "time_sleep (fl (float_of_int d / of_int WALL_NANOS_PER_SEC)) = Inl OverflowError"
proof -
  have r: "fl (2 powi 64) = 2 powi 64" "fl (2 powi 34) = 2 powi 34"
    "fl (of_int 1000000000 * 2 powi 34) = of_int 1000000000 * 2 powi 34"
    using fl_pos_representable [of 1 64] fl_pos_representable [of 1 34]
      fl_pos_representable [of 1000000000 34] by (simp_all add: fl_of_pos)
  have "(of_int (2 ^ 64) :: rat) \<le> of_int d" using assms by (simp only: of_int_le_iff)
  then have "2 powi 64 \<le> (of_int d :: rat)" by (simp add: power_int_def)
  from fl_mono [OF this] have "2 powi 64 \<le> float_of_int d" by (simp only: r float_of_int_def)
  then have "2 powi 34 \<le> float_of_int d / of_int WALL_NANOS_PER_SEC"
    by (simp add: WALL_NANOS_PER_SEC_def power_int_def)
  from fl_mono [OF this] have "2 powi 34 \<le> fl (float_of_int d / of_int WALL_NANOS_PER_SEC)"
    by (simp only: r)
  then have "of_int 1000000000 * 2 powi 34 \<le> fl (float_of_int d / of_int WALL_NANOS_PER_SEC) * 1000000000"
    by simp
  from fl_mono [OF this] have
    "of_int 1000000000 * 2 powi 34 \<le> fl (fl (float_of_int d / of_int WALL_NANOS_PER_SEC) * 1000000000)"
    by (simp only: r)
  moreover have "(2 ^ 63 :: rat) \<le> of_int 1000000000 * 2 powi 34" by (simp add: power_int_def)
  ultimately show ?thesis unfolding time_sleep_def fmul_def Let_def by (simp del: of_int_numeral)
qed

text \<open>
  C16: a duration of \<open>2 ^ 64\<close> nanoseconds or more, which the protocol's durations reach, cannot
  be slept: \<open>profile\<close> raises after it has started the profiler and nothing stops it, so the timer
  stays armed and the handler goes on collecting samples that no profile will contain.
\<close>

theorem unsleepable_duration_leaves_running:
  assumes "0 < w_period_sec w" "\<not> w_in_handler w"
    and "2 ^ 64 \<le> d" "d \<le> 315576000000 * WALL_NANOS_PER_SEC"
  shows "\<exists>w'. wall_profile rt ps d w = Some (Inl OverflowError, w') \<and> w_started w' \<and>
    w_itimer w' = (w_period_sec w, w_period_sec w) \<and>
    (\<forall>now frame. 1 \<le> w_trace_count (snd (handler now frame w')))"
proof -
  let ?pd = "fl (float_of_int d / of_int WALL_NANOS_PER_SEC)"
  let ?w1 = "(wall_reset w)\<lparr>w_started := True, w_itimer := (w_period_sec w, w_period_sec w)\<rparr>"
  have "0 < d" using assms(3) by (rule less_le_trans [rotated]) simp
  then have pos: "0 < ?pd" by (rule profile_duration_pos)
  have "profile_loop target ?pd rounds ?w1 = Some (Inl OverflowError, ?w1)" for target rounds
    using unsleepable [OF assms(3)] pos by (simp add: profile_loop.simps)
  moreover have "start_profiling (wall_reset w) = (Inr (), ?w1)"
    using assms(1) by (simp add: start_profiling_eq wall_reset_def)
  ultimately have run: "wall_profile rt ps d w = Some (Inl OverflowError, ?w1)"
    by (simp add: wall_profile_def Let_def)
  have "handler now frame ?w1 = (Inr (), sampled now frame ?w1)" for now frame
    using assms(1,2) by (intro handler_takes) (simp_all add: wall_reset_def)
  then have "1 \<le> w_trace_count (snd (handler now frame ?w1))" for now frame
    using ticks_pos by (simp add: sampled_def Let_def wall_reset_def)
  then show ?thesis using run by simp
qed

theorem unsleepable_duration_leaves_running_witness:
  "\<exists>w'. wall_profile sample_runtime \<lparr>ps_start = 100, ps_rounds = [([], 200)], ps_tail = []\<rparr>
      20000000000000000000 sample_wall = Some (Inl OverflowError, w') \<and> w_started w'"
  using unsleepable_duration_leaves_running [of sample_wall 20000000000000000000 sample_runtime
      "\<lparr>ps_start = 100, ps_rounds = [([], 200)], ps_tail = []\<rparr>"] sample_wall_facts
  by (auto simp: WALL_NANOS_PER_SEC_def)

end
