(* ===== verification/Steps.thy ===== *)
theory Steps
  imports Main
begin

text \<open>
  Step relations: the states that a program reaches, and the contract of an invariant that is
  kept by every step. The interleavings of the wall profiler and of the native tables are
  instances.
\<close>

inductive reachable :: "('s \<Rightarrow> 's \<Rightarrow> bool) \<Rightarrow> 's \<Rightarrow> 's \<Rightarrow> bool" for step s0 where
  Init: "reachable step s0 s0"
| Step: "reachable step s0 s \<Longrightarrow> step s s' \<Longrightarrow> reachable step s0 s'"

lemma reachable_trans:
  assumes "reachable step s0 s" "reachable step s s'"
  shows "reachable step s0 s'"
  using assms(2,1) by (induction rule: reachable.induct) (auto intro: reachable.Step)

locale step_invariant =
  fixes step :: "'s \<Rightarrow> 's \<Rightarrow> bool"
    and inv :: "'s \<Rightarrow> bool"
  assumes inv_step: "step s s' \<Longrightarrow> inv s \<Longrightarrow> inv s'"
begin

lemma inv_reachable: "reachable step s0 s \<Longrightarrow> inv s0 \<Longrightarrow> inv s"
  by (induction rule: reachable.induct) (auto intro: inv_step)

end

end
