(* ===== verification/WallRace.thy ===== *)
theory WallRace
  imports WallCorrect Steps
begin

text \<open>
  The interleaving of the wall profiler's signal handler, which runs statement by statement on
  the main thread and can be interrupted by a further signal, with the statements of the
  polling thread in \<open>profile\<close>, \<open>_stop_profiling\<close> and \<open>_serialize_and_clear_traces\<close>. The flag
  \<open>atomic\<close> tells whether the test of the two flags and the setting of \<open>_in_handler\<close> are one
  step; in the code they are two.
\<close>

section \<open>Program counters and the shared state\<close>

datatype hpc = HCheck | HEnter | HLock | HTick | HUnlock | HTraces | HCount | HExit

text \<open>A running handler: where it is, the frame it was called with, the time, and its tick count.\<close>

datatype hact = HAct (act_pc: hpc) (act_frame: pyframe) (act_now: pyfloat) (act_ticks: int)

datatype ppc = PSleep | PLock | PTimerOff | PTimerOn | PClear | PUnlock | PStopTimer | PClearStarted
  | PWait | PSerialize | PIter nat nat | PReset | PDone | PRaised pyerr

record race =
  r_wall :: wall
  r_stack :: "hact list"
  r_poll :: ppc
  r_poll_lock :: bool
  r_duration :: int
  r_out :: "(trace, int) dict option"

section \<open>Steps\<close>

text \<open>
  One step of the innermost handler; \<open>None\<close> when there is none or when it waits for the lock
  that the polling thread holds.
\<close>

fun handler_step :: "bool \<Rightarrow> race \<Rightarrow> race option" where
  "handler_step atomic r = (case r_stack r of [] \<Rightarrow> None
   | HAct pc f now n # rest \<Rightarrow>
     (let w = r_wall r in
      case pc of
        HCheck \<Rightarrow>
          if \<not> w_started w \<or> w_in_handler w then Some (r\<lparr>r_stack := rest\<rparr>)
          else if atomic then Some (r\<lparr>r_wall := w\<lparr>w_in_handler := True\<rparr>, r_stack := HAct HLock f now n # rest\<rparr>)
          else Some (r\<lparr>r_stack := HAct HEnter f now n # rest\<rparr>)
      | HEnter \<Rightarrow> Some (r\<lparr>r_wall := w\<lparr>w_in_handler := True\<rparr>, r_stack := HAct HLock f now n # rest\<rparr>)
      | HLock \<Rightarrow> if r_poll_lock r then None
          else Some (r\<lparr>r_wall := snd (lock_acquire w), r_stack := HAct HTick f now n # rest\<rparr>)
      | HTick \<Rightarrow> (case tick_count now w of
            (Inr k, w1) \<Rightarrow> Some (r\<lparr>r_wall := w1, r_stack := HAct HUnlock f now k # rest\<rparr>)
          | (Inl e, w1) \<Rightarrow> Some (r\<lparr>r_wall := w1, r_stack := rest\<rparr>))
      | HUnlock \<Rightarrow> Some (r\<lparr>r_wall := snd (lock_release w), r_stack := HAct HTraces f now n # rest\<rparr>)
      | HTraces \<Rightarrow> Some (r\<lparr>r_wall := w\<lparr>w_traces := dict_set (w_traces w) (record_trace f)
            (dict_get_default (w_traces w) (record_trace f) 0 + n)\<rparr>, r_stack := HAct HCount f now n # rest\<rparr>)
      | HCount \<Rightarrow> Some (r\<lparr>r_wall := w\<lparr>w_trace_count := w_trace_count w + n\<rparr>, r_stack := HAct HExit f now n # rest\<rparr>)
      | HExit \<Rightarrow> Some (r\<lparr>r_wall := w\<lparr>w_in_handler := False\<rparr>, r_stack := rest\<rparr>)))"

text \<open>
  One step of the polling thread; \<open>again\<close> is whether the remaining duration is still positive
  after a round. It blocks on the lock and waits while the flag of the handler is set. The
  traces are serialized by iterating over the dictionary: \<open>PIter n k\<close> is the iterator that was
  made when it had \<open>n\<close> keys, at position \<open>k\<close>; its next step raises when their number has changed.
\<close>

fun poll_thread_step :: "bool \<Rightarrow> race \<Rightarrow> race option" where
  "poll_thread_step again r = (let w = r_wall r in case r_poll r of
      PSleep \<Rightarrow> Some (r\<lparr>r_poll := PLock\<rparr>)
    | PLock \<Rightarrow> if w_lock_depth w \<noteq> 0 then None else Some (r\<lparr>r_poll := PTimerOff, r_poll_lock := True\<rparr>)
    | PTimerOff \<Rightarrow> Some (r\<lparr>r_wall := snd (setitimer 0 0 w), r_poll := PTimerOn\<rparr>)
    | PTimerOn \<Rightarrow> Some (r\<lparr>r_wall := snd (setitimer (w_period_sec w) (w_period_sec w) w), r_poll := PClear\<rparr>)
    | PClear \<Rightarrow> Some (r\<lparr>r_wall := w\<lparr>w_last_sample_time := None\<rparr>, r_poll := PUnlock\<rparr>)
    | PUnlock \<Rightarrow> Some (r\<lparr>r_poll := (if again then PSleep else PStopTimer), r_poll_lock := False\<rparr>)
    | PStopTimer \<Rightarrow> Some (r\<lparr>r_wall := snd (setitimer 0 0 w), r_poll := PClearStarted\<rparr>)
    | PClearStarted \<Rightarrow> Some (r\<lparr>r_wall := w\<lparr>w_started := False\<rparr>, r_poll := PWait\<rparr>)
    | PWait \<Rightarrow> if w_in_handler w then Some r else Some (r\<lparr>r_poll := PSerialize\<rparr>)
    | PSerialize \<Rightarrow> (case add_unknown (r_duration r) w of
          (Inl e, w1) \<Rightarrow> Some (r\<lparr>r_wall := w1, r_poll := PRaised e\<rparr>)
        | (Inr _, w1) \<Rightarrow> Some (r\<lparr>r_wall := w1, r_out := Some [], r_poll := PIter (length (w_traces w1)) 0\<rparr>))
    | PIter n k \<Rightarrow>
        if length (w_traces w) \<noteq> n then Some (r\<lparr>r_poll := PRaised RuntimeError\<rparr>)
        else if k < n then Some (r\<lparr>r_out := map_option (\<lambda>items. items @ [w_traces w ! k]) (r_out r), r_poll := PIter n (k + 1)\<rparr>)
        else Some (r\<lparr>r_poll := PReset\<rparr>)
    | PReset \<Rightarrow> Some (r\<lparr>r_wall := wall_reset w, r_poll := PDone\<rparr>)
    | PDone \<Rightarrow> None
    | PRaised e \<Rightarrow> None)"

declare handler_step.simps [simp del] and poll_thread_step.simps [simp del]

definition signal :: "pyframe \<Rightarrow> pyfloat \<Rightarrow> race \<Rightarrow> race" where
  "signal f now r = r\<lparr>r_stack := HAct HCheck f now 0 # r_stack r\<rparr>"

inductive race_step :: "bool \<Rightarrow> race \<Rightarrow> race \<Rightarrow> bool" for atomic where
  Signal: "race_step atomic r (signal f now r)"
| Handler: "handler_step atomic r = Some r' \<Longrightarrow> race_step atomic r r'"
| Poll: "poll_thread_step again r = Some r' \<Longrightarrow> race_step atomic r r'"

inductive_cases race_stepE: "race_step atomic r r'"

abbreviation race_reach :: "bool \<Rightarrow> race \<Rightarrow> race \<Rightarrow> bool" where
  "race_reach atomic \<equiv> reachable (race_step atomic)"

text \<open>
  The state right after \<open>_start_profiling\<close>, with nothing sampled yet: the thread enters the loop
  when the duration is positive.
\<close>

definition profile_waits :: "int \<Rightarrow> bool" where
  "profile_waits d \<longleftrightarrow> 0 < fl (float_of_int d / of_int WALL_NANOS_PER_SEC)"

definition race_init :: "int \<Rightarrow> wall \<Rightarrow> race" where
  "race_init d w = \<lparr>r_wall = (wall_reset w)\<lparr>w_started := True\<rparr>, r_stack = [],
     r_poll = (if profile_waits d then PSleep else PStopTimer),
     r_poll_lock = False, r_duration = d, r_out = None\<rparr>"

section \<open>A scheduler\<close>

datatype choice = SignalNow pyframe pyfloat | RunHandler | RunPoll bool

fun pick :: "bool \<Rightarrow> choice \<Rightarrow> race \<Rightarrow> race option" where
  "pick atomic (SignalNow f now) r = Some (signal f now r)"
| "pick atomic RunHandler r = handler_step atomic r"
| "pick atomic (RunPoll again) r = poll_thread_step again r"

fun run_schedule :: "bool \<Rightarrow> choice list \<Rightarrow> race \<Rightarrow> race option" where
  "run_schedule atomic [] r = Some r"
| "run_schedule atomic (c # cs) r = (case pick atomic c r of None \<Rightarrow> None | Some r' \<Rightarrow> run_schedule atomic cs r')"

lemma pick_step: "pick atomic c r = Some r' \<Longrightarrow> race_step atomic r r'"
  by (cases c) (auto intro: race_step.intros)

lemma run_schedule_reach:
  "run_schedule atomic cs r = Some r' \<Longrightarrow> race_reach atomic r0 r \<Longrightarrow> race_reach atomic r0 r'"
proof (induction cs arbitrary: r)
  case (Cons c cs)
  then obtain r1 where r1: "pick atomic c r = Some r1" "run_schedule atomic cs r1 = Some r'"
    by (auto split: option.splits)
  have "race_reach atomic r0 r1" by (rule reachable.Step [OF Cons.prems(2) pick_step [OF r1(1)]])
  from Cons.IH [OF r1(2) this] show ?case .
qed simp

section \<open>Invariants\<close>

text \<open>A handler that has set the flag and not yet cleared it.\<close>

definition inside :: "hact \<Rightarrow> bool" where
  "inside a \<longleftrightarrow> act_pc a \<noteq> HCheck \<and> act_pc a \<noteq> HEnter"

definition stopped_poll :: "ppc \<Rightarrow> bool" where
  "stopped_poll p \<longleftrightarrow> (case p of PSerialize \<Rightarrow> True | PIter _ _ \<Rightarrow> True | PReset \<Rightarrow> True | PDone \<Rightarrow> True
     | PRaised _ \<Rightarrow> True | _ \<Rightarrow> False)"

definition guarded :: "race \<Rightarrow> bool" where
  "guarded r \<longleftrightarrow> (\<forall>a \<in> set (r_stack r). act_pc a \<noteq> HEnter) \<and>
     (w_in_handler (r_wall r) \<longleftrightarrow> (\<exists>a \<in> set (r_stack r). inside a)) \<and>
     length (filter inside (r_stack r)) \<le> 1 \<and> w_period_sec (r_wall r) \<noteq> 0 \<and>
     (r_poll r = PWait \<or> stopped_poll (r_poll r) \<longrightarrow> \<not> w_started (r_wall r)) \<and>
     (stopped_poll (r_poll r) \<longrightarrow> \<not> w_in_handler (r_wall r))"

lemma inside_simps [simp]: "inside (HAct pc f now n) \<longleftrightarrow> pc \<noteq> HCheck \<and> pc \<noteq> HEnter"
  by (simp add: inside_def)

lemma guarded_init: "w_period_sec w \<noteq> 0 \<Longrightarrow> \<not> w_in_handler w \<Longrightarrow> guarded (race_init d w)"
  by (simp add: guarded_def race_init_def stopped_poll_def wall_reset_def)

lemma guarded_signal: "guarded r \<Longrightarrow> guarded (signal f now r)"
  by (auto simp: guarded_def signal_def stopped_poll_def)

lemma lock_fields [simp]:
  "w_in_handler (snd (lock_acquire w)) = w_in_handler w" "w_started (snd (lock_acquire w)) = w_started w"
  "w_period_sec (snd (lock_acquire w)) = w_period_sec w"
  "w_in_handler (snd (lock_release w)) = w_in_handler w" "w_started (snd (lock_release w)) = w_started w"
  "w_period_sec (snd (lock_release w)) = w_period_sec w"
  "w_in_handler (snd (setitimer a b w)) = w_in_handler w" "w_started (snd (setitimer a b w)) = w_started w"
  "w_period_sec (snd (setitimer a b w)) = w_period_sec w"
  by (simp_all add: lock_acquire_def lock_release_def setitimer_def py_monad)

lemma add_unknown_fields:
  "\<exists>r traces. add_unknown d w = (r, w\<lparr>w_traces := traces\<rparr>)"
proof (cases "int_truediv d (wall_period_ns w)")
  case (Inl e)
  then have "add_unknown d w = (Inl e, w\<lparr>w_traces := w_traces w\<rparr>)" by (simp add: add_unknown_def py_monad)
  then show ?thesis by blast
next
  case (Inr q)
  let ?n = "int_of_float q - w_trace_count w"
  have "add_unknown d w = (Inr (), w\<lparr>w_traces := if 0 < ?n then dict_set (w_traces w) unknown_trace ?n else w_traces w\<rparr>)"
    using Inr by (simp add: add_unknown_def py_monad Let_def)
  then show ?thesis by blast
qed

text \<open>The steps from the serialization on leave the flags, the lock and the stack alone.\<close>

lemma poll_after_stop:
  assumes "poll_thread_step again r = Some r'" "stopped_poll (r_poll r)"
  shows "w_in_handler (r_wall r') = w_in_handler (r_wall r)" "w_started (r_wall r') = w_started (r_wall r)"
    "w_period_sec (r_wall r') = w_period_sec (r_wall r)" "w_lock_depth (r_wall r') = w_lock_depth (r_wall r)"
    "r_stack r' = r_stack r" "r_poll_lock r' = r_poll_lock r" "stopped_poll (r_poll r')"
proof -
  obtain x traces where a: "add_unknown (r_duration r) (r_wall r) = (x, (r_wall r)\<lparr>w_traces := traces\<rparr>)"
    using add_unknown_fields by blast
  from assms show "w_in_handler (r_wall r') = w_in_handler (r_wall r)" "w_started (r_wall r') = w_started (r_wall r)"
    "w_period_sec (r_wall r') = w_period_sec (r_wall r)" "w_lock_depth (r_wall r') = w_lock_depth (r_wall r)"
    "r_stack r' = r_stack r" "r_poll_lock r' = r_poll_lock r" "stopped_poll (r_poll r')"
    by (cases "r_poll r"; cases x; auto simp: poll_thread_step.simps Let_def stopped_poll_def wall_reset_def a
        split: if_splits)+
qed

lemma inside_all: "length (filter P xs) = 0 \<longleftrightarrow> (\<forall>x \<in> set xs. \<not> P x)"
  by (simp add: filter_empty_conv)

text \<open>The invariant of a stack with one more handler, inside or not.\<close>

definition idle_rest :: "hact list \<Rightarrow> bool" where
  "idle_rest acts \<longleftrightarrow> (\<forall>a \<in> set acts. act_pc a = HCheck)"

lemma idle_rest_facts:
  assumes "idle_rest acts"
  shows "filter inside acts = []" "\<not> (\<exists>a \<in> set acts. inside a)" "\<forall>a \<in> set acts. act_pc a \<noteq> HEnter"
  using assms by (auto simp: idle_rest_def filter_empty_conv inside_def)

lemma guarded_inside:
  assumes "r_stack r = HAct pc f now n # rest" "pc \<noteq> HCheck" "pc \<noteq> HEnter"
  shows "guarded r \<longleftrightarrow> idle_rest rest \<and> w_in_handler (r_wall r) \<and> w_period_sec (r_wall r) \<noteq> 0 \<and>
    (r_poll r = PWait \<longrightarrow> \<not> w_started (r_wall r)) \<and> \<not> stopped_poll (r_poll r)"
  using assms by (auto simp: guarded_def idle_rest_def filter_empty_conv inside_def stopped_poll_def)

lemma guarded_left:
  assumes "idle_rest (r_stack r)" "\<not> w_in_handler (r_wall r)" "w_period_sec (r_wall r) \<noteq> 0"
    "r_poll r = PWait \<or> stopped_poll (r_poll r) \<longrightarrow> \<not> w_started (r_wall r)"
  shows "guarded r"
  using assms idle_rest_facts [OF assms(1)] by (simp add: guarded_def)

lemma guarded_check:
  assumes "guarded r" "r_stack r = HAct HCheck f now n # rest"
  shows "guarded (r\<lparr>r_stack := rest\<rparr>)" "\<not> w_in_handler (r_wall r) \<Longrightarrow> idle_rest rest"
  using assms by (auto simp: guarded_def idle_rest_def inside_def)

lemma guarded_handler_inside:
  assumes "guarded r" "r_stack r = HAct pc f now n # rest" "pc \<noteq> HCheck" "handler_step True r = Some r'"
  shows "guarded r'"
proof -
  note st = assms(2) and False = assms(3) and step = assms(4) [unfolded handler_step.simps assms(2)]
  have "pc \<noteq> HEnter" using assms(1) by (auto simp: guarded_def st)
  note g = guarded_inside [OF st False this, THEN iffD1, OF assms(1)]
  from g have p: "w_period_sec (r_wall r) \<noteq> 0" by simp
  have keep: "guarded q"
    if "r_stack q = HAct pc' f now n' # rest" "pc' \<noteq> HCheck" "pc' \<noteq> HEnter" "r_poll q = r_poll r"
      "w_in_handler (r_wall q)" "w_period_sec (r_wall q) = w_period_sec (r_wall r)"
      "w_started (r_wall q) = w_started (r_wall r)" for q pc' n'
    using guarded_inside [OF that(1-3)] that(4-7) g by simp
  show ?thesis
  proof (cases pc)
    case HExit
    then have "r' = r\<lparr>r_wall := (r_wall r)\<lparr>w_in_handler := False\<rparr>, r_stack := rest\<rparr>"
      using step by (simp add: Let_def)
    then show ?thesis using g by (intro guarded_left) (auto simp: stopped_poll_def)
  next
    case HLock
    then show ?thesis using step g by (intro keep [of r' HTick n]) (auto simp: Let_def split: if_splits)
  next
    case HTick
    then show ?thesis using step g
      by (intro keep [of r' HUnlock "ticks (w_period_sec (r_wall r)) (w_last_sample_time (r_wall r)) now"])
        (auto simp: Let_def tick_count_eq [OF p])
  next
    case HUnlock
    then show ?thesis using step g by (intro keep [of r' HTraces n]) (auto simp: Let_def)
  next
    case HTraces
    then show ?thesis using step g by (intro keep [of r' HCount n]) (auto simp: Let_def)
  next
    case HCount
    then show ?thesis using step g by (intro keep [of r' HExit n]) (auto simp: Let_def)
  qed (use False \<open>pc \<noteq> HEnter\<close> in simp_all)
qed

lemma guarded_handler:
  assumes "guarded r" "handler_step True r = Some r'"
  shows "guarded r'"
proof -
  obtain pc f now n rest where st: "r_stack r = HAct pc f now n # rest"
    using assms(2) by (cases "r_stack r") (simp_all add: handler_step.simps, metis hact.exhaust)
  note step = assms(2) [unfolded handler_step.simps st]
  show ?thesis
  proof (cases "pc = HCheck")
    case True
    note chk = guarded_check [OF assms(1) st [unfolded True]]
    show ?thesis
    proof (cases "\<not> w_started (r_wall r) \<or> w_in_handler (r_wall r)")
      case skip: True
      then have "r' = r\<lparr>r_stack := rest\<rparr>" using step True by (simp add: Let_def)
      then show ?thesis using chk(1) by simp
    next
      case False
      then have r': "r' = r\<lparr>r_wall := (r_wall r)\<lparr>w_in_handler := True\<rparr>, r_stack := HAct HLock f now n # rest\<rparr>"
        using step True by (simp add: Let_def)
      have "w_period_sec (r_wall r) \<noteq> 0" "\<not> (r_poll r = PWait \<or> stopped_poll (r_poll r))"
        using assms(1) False by (auto simp: guarded_def)
      then show ?thesis
        using guarded_inside [of r' HLock f now n rest] chk(2) False by (simp add: r' stopped_poll_def)
    qed
  next
    case False
    show ?thesis by (rule guarded_handler_inside [OF assms(1) st False assms(2)])
  qed
qed

lemma guarded_poll:
  assumes "guarded r" "poll_thread_step again r = Some r'"
  shows "guarded r'"
proof (cases "stopped_poll (r_poll r)")
  case True
  from poll_after_stop [OF assms(2) this] assms(1) True show ?thesis by (auto simp: guarded_def)
next
  case False
  then show ?thesis using assms
    by (cases "r_poll r")
      (auto simp: poll_thread_step.simps guarded_def Let_def stopped_poll_def split: if_splits)
qed

lemma guarded_step: "race_step True r r' \<Longrightarrow> guarded r \<Longrightarrow> guarded r'"
  by (erule race_stepE) (auto intro: guarded_signal guarded_handler guarded_poll)

interpretation guarded_steps: step_invariant "race_step True" guarded
  by unfold_locales (rule guarded_step)

lemmas guarded_reach = guarded_steps.inv_reachable [OF _ guarded_init]

section \<open>The lock\<close>

definition locking :: "hact \<Rightarrow> bool" where
  "locking a \<longleftrightarrow> act_pc a = HTick \<or> act_pc a = HUnlock"

definition critical :: "ppc \<Rightarrow> bool" where
  "critical p \<longleftrightarrow> p \<in> {PTimerOff, PTimerOn, PClear, PUnlock}"

definition locked :: "race \<Rightarrow> bool" where
  "locked r \<longleftrightarrow> (r_poll_lock r \<longleftrightarrow> critical (r_poll r)) \<and> w_period_sec (r_wall r) \<noteq> 0 \<and>
     w_lock_depth (r_wall r) = length (filter locking (r_stack r)) \<and>
     (r_poll_lock r \<longrightarrow> w_lock_depth (r_wall r) = 0)"

lemma locking_simps [simp]: "locking (HAct pc f now n) \<longleftrightarrow> pc = HTick \<or> pc = HUnlock"
  by (simp add: locking_def)

lemma lock_depth [simp]:
  "w_lock_depth (snd (lock_acquire w)) = Suc (w_lock_depth w)"
  "w_lock_depth (snd (lock_release w)) = w_lock_depth w - 1"
  "w_lock_depth (snd (setitimer a b w)) = w_lock_depth w"
  by (simp_all add: lock_acquire_def lock_release_def setitimer_def py_monad)

lemma locked_handler:
  assumes "locked r" "handler_step atomic r = Some r'"
  shows "locked r'"
proof -
  obtain pc f now n rest where st: "r_stack r = HAct pc f now n # rest"
    using assms(2) by (cases "r_stack r") (simp_all add: handler_step.simps, metis hact.exhaust)
  note step = assms(2) [unfolded handler_step.simps st]
  have p: "w_period_sec (r_wall r) \<noteq> 0" using assms(1) by (simp add: locked_def)
  show ?thesis
    using step assms(1)
    by (cases pc) (auto simp: locked_def st Let_def tick_count_eq [OF p] split: if_splits)
qed

lemma locked_poll:
  assumes "locked r" "poll_thread_step again r = Some r'"
  shows "locked r'"
proof (cases "stopped_poll (r_poll r)")
  case True
  then have "\<not> critical (r_poll r)" by (auto simp: critical_def stopped_poll_def)
  moreover have "\<not> critical (r_poll r')"
    using poll_after_stop(7) [OF assms(2) True] by (auto simp: critical_def stopped_poll_def)
  ultimately show ?thesis using poll_after_stop(1-6) [OF assms(2) True] assms(1) by (simp add: locked_def)
next
  case False
  then show ?thesis using assms
    by (cases "r_poll r")
      (auto simp: poll_thread_step.simps locked_def Let_def critical_def stopped_poll_def split: if_splits)
qed

lemma locked_signal: "locked r \<Longrightarrow> locked (signal f now r)"
  by (auto simp: locked_def signal_def)

lemma locked_init: "w_period_sec w \<noteq> 0 \<Longrightarrow> w_lock_depth w = 0 \<Longrightarrow> locked (race_init d w)"
  by (simp add: locked_def race_init_def critical_def wall_reset_def)

interpretation locked_steps: step_invariant "race_step atomic" locked for atomic
  by unfold_locales (erule race_stepE, auto intro: locked_signal locked_handler locked_poll)

lemmas locked_reach = locked_steps.inv_reachable [OF _ locked_init]

end
