(* ===== verification/WallRaceSpec.thy ===== *)
theory WallRaceSpec
  imports WallRace WallSpec
begin

text \<open>
  What the interleaving of handler and polling thread allows: the properties of the manifest
  about the concurrency of \<open>pythonprofiler.py\<close>.
\<close>

definition race_wall :: wall where
  "race_wall = WallProfiler_init 10"

lemma race_wall_facts:
  "w_period_sec race_wall = 5764607523034235 / 576460752303423488" "\<not> w_in_handler race_wall"
  "w_lock_depth race_wall = 0" "w_period_sec race_wall \<noteq> 0"
proof -
  show p: "w_period_sec race_wall = 5764607523034235 / 576460752303423488"
    using sample_wall_facts(5) unfolding race_wall_def sample_wall_def by simp
  show "w_period_sec race_wall \<noteq> 0" unfolding p by simp
qed (simp_all add: race_wall_def WallProfiler_init_def)

text \<open>
  The schedule of the race: a signal arrives, the handler tests the flags, and before it sets
  its own flag the polling thread stops, sees no handler and serializes; then the handler goes on.
  A duration that is not positive has no round of the polling thread's loop before the signal.
\<close>

definition race_prefix :: "int \<Rightarrow> pyframe \<Rightarrow> pyfloat \<Rightarrow> choice list" where
  "race_prefix d f now = (if profile_waits d then replicate 6 (RunPoll False) else []) @ [SignalNow f now, RunHandler] @ replicate 3 (RunPoll False)"

lemma sample_waits: "profile_waits 10000000000"
  unfolding profile_waits_def by (rule profile_duration_pos) simp

lemma replicate_choices:
  "replicate 3 c = [c, c, c]" "replicate 5 c = [c, c, c, c, c]" "replicate 6 c = [c, c, c, c, c, c]"
  "replicate 7 c = [c, c, c, c, c, c, c]"
  by (simp_all add: eval_nat_numeral)

lemmas race_eval = handler_step.simps poll_thread_step.simps signal_def race_init_def Let_def wall_reset_def
  lock_acquire_def lock_release_def py_monad setitimer_pos setitimer_0

lemma race_prefix_run:
  assumes "\<not> w_in_handler w" "w_lock_depth w = 0" "0 < w_period_sec w"
  shows "\<exists>r. run_schedule False (race_prefix d f now) (race_init d w) = Some r \<and> r_poll r = PSerialize \<and> r_duration r = d \<and>
    r_stack r = [HAct HEnter f now 0] \<and> r_poll_lock r = False \<and> w_traces (r_wall r) = [] \<and>
    w_trace_count (r_wall r) = 0 \<and> w_period_sec (r_wall r) = w_period_sec w \<and>
    w_last_sample_time (r_wall r) = None \<and> w_lock_depth (r_wall r) = 0"
  unfolding race_prefix_def replicate_choices using assms by (cases "profile_waits d") (simp_all add: race_eval)

section \<open>Properties\<close>

text \<open>
  C27: the sample time is protected: whatever the order of signals, handler statements and
  polling statements, no handler is between acquiring and releasing the lock while the polling
  thread is between its own acquire and release.
\<close>

theorem sample_time_exclusion:
  assumes "race_reach atomic (race_init d w) r" "w_period_sec w \<noteq> 0" "w_lock_depth w = 0"
    and "r_poll r \<in> {PTimerOff, PTimerOn, PClear, PUnlock}" "a \<in> set (r_stack r)"
  shows "act_pc a \<notin> {HTick, HUnlock}"
proof -
  have "locked r" by (rule locked_reach [OF assms(1-3)])
  with assms(4) have "filter locking (r_stack r) = []"
    by (auto simp: locked_def critical_def)
  with assms(5) show ?thesis by (auto simp: filter_empty_conv locking_def)
qed

theorem sample_time_exclusion_witness:
  "\<exists>r. run_schedule False [RunPoll False, RunPoll False, SignalNow sample_frame 5, RunHandler, RunHandler]
     (race_init 10000000000 race_wall) = Some r \<and> r_poll r = PTimerOff \<and> act_pc (hd (r_stack r)) \<notin> {HTick, HUnlock}"
proof -
  let ?cs = "[RunPoll False, RunPoll False, SignalNow sample_frame 5, RunHandler, RunHandler]"
  obtain r where run: "run_schedule False ?cs (race_init 10000000000 race_wall) = Some r" "r_poll r = PTimerOff" "r_stack r \<noteq> []"
    using race_wall_facts by (simp add: race_eval sample_waits)
  have "race_reach False (race_init 10000000000 race_wall) r" by (rule run_schedule_reach [OF run(1) reachable.Init])
  from sample_time_exclusion [OF this race_wall_facts(4,3), of "hd (r_stack r)"] run show ?thesis by auto
qed

text \<open>
  If testing the two flags and setting the handler's flag were one step, the wait would do
  what it is for: in no reachable state is a handler between setting and clearing its flag
  once the polling thread has begun to serialize, so the traces it serializes do not change.
\<close>

theorem atomic_guard_no_overlap:
  assumes "race_reach True (race_init d w) r" "w_period_sec w \<noteq> 0" "\<not> w_in_handler w"
    and "stopped_poll (r_poll r)" "a \<in> set (r_stack r)"
  shows "act_pc a = HCheck \<and> \<not> w_started (r_wall r)"
proof -
  have g: "guarded r" by (rule guarded_reach [OF assms(1-3)])
  then have "\<not> w_in_handler (r_wall r)" "\<not> w_started (r_wall r)"
    using assms(4) by (auto simp: guarded_def)
  with g assms(5) show ?thesis by (auto simp: guarded_def inside_def)
qed

theorem atomic_guard_no_overlap_witness:
  "\<exists>r. run_schedule True (replicate 9 (RunPoll False) @ [SignalNow sample_frame 5]) (race_init 10000000000 race_wall) = Some r \<and>
     stopped_poll (r_poll r) \<and> act_pc (hd (r_stack r)) = HCheck \<and> \<not> w_started (r_wall r)"
proof -
  let ?cs = "replicate 9 (RunPoll False) @ [SignalNow sample_frame 5]"
  obtain r where run: "run_schedule True ?cs (race_init 10000000000 race_wall) = Some r" "stopped_poll (r_poll r)" "r_stack r \<noteq> []"
    using race_wall_facts by (simp add: race_eval sample_waits eval_nat_numeral stopped_poll_def)
  have "race_reach True (race_init 10000000000 race_wall) r" by (rule run_schedule_reach [OF run(1) reachable.Init])
  from atomic_guard_no_overlap [OF this race_wall_facts(4,2), of "hd (r_stack r)"] run show ?thesis by auto
qed

section \<open>The late handler\<close>

lemma poll_reach:
  assumes "race_reach atomic r0 r" "poll_thread_step again r = Some r'"
  shows "race_reach atomic r0 r'"
  by (rule reachable.Step [where s = r]) (use assms race_step.Poll in blast)+

text \<open>The iteration over a dictionary that does not change.\<close>

lemma iteration_reach:
  "r_poll r = PIter (length (w_traces (r_wall r))) k \<Longrightarrow> k \<le> length (w_traces (r_wall r)) \<Longrightarrow>
    r_out r = Some (take k (w_traces (r_wall r))) \<Longrightarrow>
    race_reach atomic r (r\<lparr>r_poll := PReset, r_out := Some (w_traces (r_wall r))\<rparr>)"
proof (induction "length (w_traces (r_wall r)) - k" arbitrary: r k)
  case 0
  let ?r = "r\<lparr>r_poll := PReset, r_out := Some (w_traces (r_wall r))\<rparr>"
  have "k = length (w_traces (r_wall r))" using 0 by simp
  then have "poll_thread_step False r = Some (r\<lparr>r_poll := PReset\<rparr>)" "?r = r\<lparr>r_poll := PReset\<rparr>"
    using 0 by (cases r; simp add: poll_thread_step.simps)+
  then show ?case using poll_reach [OF reachable.Init] by metis
next
  case (Suc m)
  let ?T = "w_traces (r_wall r)" and ?r = "r\<lparr>r_out := Some (take (k + 1) (w_traces (r_wall r))),
    r_poll := PIter (length (w_traces (r_wall r))) (k + 1)\<rparr>"
  have k: "k < length ?T" using Suc.hyps(2) by simp
  have "poll_thread_step False r = Some ?r"
    using Suc.prems k by (simp add: poll_thread_step.simps Let_def take_Suc_conv_app_nth)
  then have one: "race_reach atomic r ?r" by (rule poll_reach [OF reachable.Init])
  have "race_reach atomic ?r (?r\<lparr>r_poll := PReset, r_out := Some ?T\<rparr>)"
    using Suc.hyps(1) [of ?r "k + 1"] Suc.hyps(2) k by simp
  from reachable_trans [OF one this] show ?case by simp
qed

text \<open>From the moment the iteration starts with the handler still on its way: both outcomes.\<close>

lemma late_handler_outcomes:
  assumes "r_stack r = [HAct HEnter f now 0]" "r_poll r = PIter (length T) 0" "w_traces (r_wall r) = T"
    and "r_out r = Some []" "r_poll_lock r = False" "w_last_sample_time (r_wall r) = None"
    and "w_lock_depth (r_wall r) = 0" "dict_get T (record_trace f) = None"
  shows "\<exists>r'. race_reach False r r' \<and> r_poll r' = PDone \<and> r_out r' = Some T \<and>
      w_traces (r_wall r') = [(record_trace f, 1)] \<and> r_stack r' = []"
    and "\<exists>r'. race_reach False r r' \<and> r_poll r' = PRaised RuntimeError"
proof -
  let ?r = "r\<lparr>r_poll := PReset, r_out := Some T\<rparr>"
  have it: "race_reach False r ?r" using iteration_reach [of r 0 False] assms(2-4) by simp
  have "\<exists>r'. run_schedule False (RunPoll False # replicate 7 RunHandler) ?r = Some r' \<and> r_poll r' = PDone \<and>
      r_out r' = Some T \<and> w_traces (r_wall r') = [(record_trace f, 1)] \<and> r_stack r' = []"
    unfolding replicate_choices
    using assms by (simp add: race_eval tick_count_def dict_get_default_def dict_set_new)
  then show "\<exists>r'. race_reach False r r' \<and> r_poll r' = PDone \<and> r_out r' = Some T \<and>
      w_traces (r_wall r') = [(record_trace f, 1)] \<and> r_stack r' = []"
    using run_schedule_reach [OF _ it] by blast
  have "\<exists>r'. run_schedule False (replicate 5 RunHandler @ [RunPoll False]) r = Some r' \<and> r_poll r' = PRaised RuntimeError"
    unfolding replicate_choices
    using assms by (simp add: race_eval tick_count_def dict_get_default_def dict_set_new)
  then show "\<exists>r'. race_reach False r r' \<and> r_poll r' = PRaised RuntimeError"
    using run_schedule_reach [OF _ reachable.Init] by blast
qed

text \<open>
  C29: with the code's two steps a late sample is lost or breaks the profile: whatever the
  profiler, the frame and the time, there is an order of steps in which the polling thread
  stops, finds no handler running, serializes the traces and resets, and a handler that had tested the
  flags before records its trace afterwards; and one in which it does so while the traces are
  serialized, and the iteration over the dictionary raises \<open>RuntimeError\<close>.
\<close>

theorem late_handler_loses_sample:
  assumes "\<not> w_in_handler w" "w_lock_depth w = 0" "0 < w_period_sec w"
    and "0 \<le> d" "d < 2 ^ 53" "0 < wall_period_ns w" "wall_period_ns w < 2 ^ 63" "record_trace f \<noteq> unknown_trace"
  shows "(\<exists>r items. race_reach False (race_init d w) r \<and> r_poll r = PDone \<and> r_out r = Some items \<and>
      record_trace f \<notin> fst ` set items \<and> w_traces (r_wall r) = [(record_trace f, 1)] \<and> r_stack r = []) \<and>
    (\<exists>r. race_reach False (race_init d w) r \<and> r_poll r = PRaised RuntimeError)"
proof -
  obtain r where r: "run_schedule False (race_prefix d f now) (race_init d w) = Some r" "r_poll r = PSerialize"
    "r_duration r = d" "r_stack r = [HAct HEnter f now 0]" "r_poll_lock r = False" "w_traces (r_wall r) = []"
    "w_trace_count (r_wall r) = 0" "w_period_sec (r_wall r) = w_period_sec w"
    "w_last_sample_time (r_wall r) = None" "w_lock_depth (r_wall r) = 0"
    using race_prefix_run [OF assms(1-3)] by blast
  have p: "wall_period_ns (r_wall r) = wall_period_ns w" using r(8) by (simp add: wall_period_ns_def)
  let ?T = "if 0 < d div wall_period_ns w then [(unknown_trace, d div wall_period_ns w)] else []"
  let ?r = "r\<lparr>r_wall := (r_wall r)\<lparr>w_traces := ?T\<rparr>, r_out := Some [], r_poll := PIter (length ?T) 0\<rparr>"
  have "add_unknown d (r_wall r) = (Inr (), (r_wall r)\<lparr>w_traces := ?T\<rparr>)"
    using add_unknown_eq [of d "r_wall r"] assms(4-7) r(6,7) by (simp add: p dict_set_def)
  then have "poll_thread_step False r = Some ?r" using r(2,3) by (simp add: poll_thread_step.simps)
  then have reach: "race_reach False (race_init d w) ?r"
    by (rule poll_reach [OF run_schedule_reach [OF r(1) reachable.Init]])
  have new: "dict_get ?T (record_trace f) = None" using assms(8) by (simp add: dict_get_def)
  have "record_trace f \<notin> fst ` set ?T" using assms(8) by auto
  moreover
  have "\<exists>r'. race_reach False ?r r' \<and> r_poll r' = PDone \<and> r_out r' = Some ?T \<and>
      w_traces (r_wall r') = [(record_trace f, 1)] \<and> r_stack r' = []"
    by (rule late_handler_outcomes(1) [of _ f now ?T]) (use r new in simp_all)
  moreover have "\<exists>r'. race_reach False ?r r' \<and> r_poll r' = PRaised RuntimeError"
    by (rule late_handler_outcomes(2) [of _ f now ?T]) (use r new in simp_all)
  ultimately show ?thesis using reachable_trans [OF reach] by blast
qed

theorem late_handler_loses_sample_witness:
  "\<exists>r. race_reach False (race_init 10000000000 (WallProfiler_init 10)) r \<and> r_poll r = PRaised RuntimeError"
proof -
  have w: "0 < w_period_sec race_wall" unfolding race_wall_facts(1) by simp
  have p: "wall_period_ns race_wall = 10000000"
    using sample_wall_facts unfolding race_wall_def sample_wall_def by (simp add: wall_period_ns_def)
  have "record_trace sample_frame \<noteq> unknown_trace"
    by (simp add: sample_frame_def record_trace_stack unknown_trace_def)
  from late_handler_loses_sample [OF race_wall_facts(2,3) w _ _ _ _ this, of 10000000000] show ?thesis
    by (simp add: p) (simp add: race_wall_def)
qed

end
