(* ===== verification/WallRefine.thy ===== *)
theory WallRefine
  imports WallRaceSpec "HOL-Library.Multiset"
begin

text \<open>
  The interleaving of theory \<open>WallRace\<close> refines the model of \<open>WallProfiler\<close>, in which a signal
  handler runs as one step. A handler takes effect where it computes its ticks; what it has
  still to write is added to the state by \<open>settled\<close>. The only order that the refinement excludes
  is the one that loses samples: the polling thread ends its wait while a handler stands
  between the test of the flags and the setting of its own.
\<close>

section \<open>Schedules\<close>

type_synonym samples = "(pyfloat \<times> pyframe) list"

text \<open>The signals of a schedule.\<close>

fun signals_of :: "choice list \<Rightarrow> samples" where
  "signals_of [] = []"
| "signals_of (SignalNow f now # cs) = (now, f) # signals_of cs"
| "signals_of (RunHandler # cs) = signals_of cs"
| "signals_of (RunPoll again # cs) = signals_of cs"

lemma signals_of_append: "signals_of (cs @ ds) = signals_of cs @ signals_of ds"
  by (induction cs rule: signals_of.induct) simp_all

text \<open>The polling thread would end its wait while a handler is about to set its flag.\<close>

definition misses :: "choice \<Rightarrow> race \<Rightarrow> bool" where
  "misses c r \<longleftrightarrow> (case c of RunPoll _ \<Rightarrow> r_poll r = PWait \<and> \<not> w_in_handler (r_wall r) \<and>
     (\<exists>a \<in> set (r_stack r). act_pc a = HEnter) | _ \<Rightarrow> False)"

fun patient :: "bool \<Rightarrow> choice list \<Rightarrow> race \<Rightarrow> bool" where
  "patient atomic [] r = True"
| "patient atomic (c # cs) r = (\<not> misses c r \<and>
     (case pick atomic c r of None \<Rightarrow> True | Some r' \<Rightarrow> patient atomic cs r'))"

section \<open>The abstraction\<close>

text \<open>What a handler in progress has still to write to the traces and their count.\<close>

fun settle_act :: "hact \<Rightarrow> (trace, int) dict \<times> int \<Rightarrow> (trace, int) dict \<times> int" where
  "settle_act (HAct pc f now n) (traces, k) =
     (if pc = HUnlock \<or> pc = HTraces
      then (dict_set traces (record_trace f) (dict_get_default traces (record_trace f) 0 + n), k + n)
      else if pc = HCount then (traces, k + n) else (traces, k))"

definition settled :: "race \<Rightarrow> (trace, int) dict \<times> int" where
  "settled r = fold settle_act (r_stack r) (w_traces (r_wall r), w_trace_count (r_wall r))"

text \<open>The handlers that have not computed their ticks.\<close>

fun unticked :: "hact \<Rightarrow> bool" where
  "unticked (HAct pc f now n) \<longleftrightarrow> pc \<in> {HCheck, HEnter, HLock, HTick}"

fun sample_of :: "hact \<Rightarrow> pyfloat \<times> pyframe" where
  "sample_of (HAct pc f now n) = (now, f)"

definition open_samples :: "race \<Rightarrow> (pyfloat \<times> pyframe) multiset" where
  "open_samples r = mset (map sample_of (filter unticked (r_stack r)))"

text \<open>The rounds of the wait, with whole handlers.\<close>

definition after_round :: "samples \<Rightarrow> wall \<Rightarrow> wall" where
  "after_round ss w = (deliver ss w)\<lparr>w_itimer := (w_period_sec w, w_period_sec w), w_last_sample_time := None\<rparr>"

definition after_rounds :: "samples list \<Rightarrow> wall \<Rightarrow> wall" where
  "after_rounds rounds w = fold after_round rounds w"

definition replayed :: "samples list \<Rightarrow> samples \<Rightarrow> wall \<Rightarrow> wall" where
  "replayed rounds cur w = deliver cur (after_rounds rounds w)"

text \<open>No handler is past its test below one that is.\<close>

fun nested :: "hact list \<Rightarrow> bool" where
  "nested [] \<longleftrightarrow> True"
| "nested (a # acts) \<longleftrightarrow> (act_pc a = HCheck \<or> (\<forall>b \<in> set acts. \<not> inside b)) \<and> nested acts"

definition past_round :: "ppc \<Rightarrow> bool" where
  "past_round p \<longleftrightarrow> p \<in> {PUnlock, PStopTimer, PClearStarted, PWait, PSerialize}"

definition finished :: "ppc \<Rightarrow> bool" where
  "finished p \<longleftrightarrow> stopped_poll p \<and> p \<noteq> PSerialize"

text \<open>The state of the threads apart from the samples.\<close>

definition well_nested :: "race \<Rightarrow> bool" where
  "well_nested r \<longleftrightarrow> nested (r_stack r) \<and> (w_in_handler (r_wall r) \<longleftrightarrow> (\<exists>a \<in> set (r_stack r). inside a)) \<and>
     (r_poll r \<in> {PWait, PSerialize} \<longrightarrow> \<not> w_started (r_wall r)) \<and>
     (r_poll r = PSerialize \<longrightarrow> idle_rest (r_stack r)) \<and> w_period_sec (r_wall r) \<noteq> 0"

text \<open>A state of the interleaving and a sequence of whole handlers with the same samples.\<close>

definition replays :: "wall \<Rightarrow> samples list \<Rightarrow> samples \<Rightarrow> race \<Rightarrow> bool" where
  "replays w rounds cur r \<longleftrightarrow>
     settled r = (w_traces (replayed rounds cur w), w_trace_count (replayed rounds cur w)) \<and>
     w_last_sample_time (r_wall r) = w_last_sample_time (replayed rounds cur w) \<and>
     w_period_sec (r_wall r) = w_period_sec w \<and> w_profile_type (r_wall r) = w_profile_type w \<and>
     (past_round (r_poll r) \<longrightarrow> rounds \<noteq> [])"

section \<open>Rounds with whole handlers\<close>

definition ready :: "wall \<Rightarrow> bool" where
  "ready w \<longleftrightarrow> active w \<and> wf_wall w \<and> 0 < w_period_sec w"

lemma ready_deliver:
  assumes "ready w"
  shows "ready (deliver ss w)" "w_period_sec (deliver ss w) = w_period_sec w"
    "w_profile_type (deliver ss w) = w_profile_type w"
  using deliver_active [of w ss] assms by (simp_all add: ready_def)

lemma ready_round:
  assumes "ready w"
  shows "ready (after_round ss w)" "w_period_sec (after_round ss w) = w_period_sec w"
    "w_profile_type (after_round ss w) = w_profile_type w"
  using ready_deliver [OF assms, of ss] by (simp_all add: after_round_def ready_def active_def wf_wall_def)

lemma ready_rounds:
  "ready w \<Longrightarrow> ready (after_rounds rounds w) \<and> w_period_sec (after_rounds rounds w) = w_period_sec w \<and>
    w_profile_type (after_rounds rounds w) = w_profile_type w"
  unfolding after_rounds_def by (induction rounds arbitrary: w) (simp_all add: ready_round)

lemma ready_replayed:
  assumes "ready w"
  shows "ready (replayed rounds cur w)" "w_period_sec (replayed rounds cur w) = w_period_sec w"
    "w_profile_type (replayed rounds cur w) = w_profile_type w"
  using ready_rounds [OF assms, of rounds] ready_deliver [of "after_rounds rounds w" cur]
  by (simp_all add: replayed_def)

lemma replayed_round:
  assumes "ready w"
  shows "replayed (rounds @ [cur]) [] w = (replayed rounds cur w)\<lparr>w_itimer := (w_period_sec w, w_period_sec w),
    w_last_sample_time := None\<rparr>"
  using ready_rounds [OF assms, of rounds] by (simp add: replayed_def after_rounds_def after_round_def)

lemma replayed_sample:
  assumes "ready w"
  shows "replayed rounds (cur @ [(now, f)]) w = sampled now f (replayed rounds cur w)"
proof -
  have "active (replayed rounds cur w)" using ready_replayed(1) [OF assms] by (simp add: ready_def)
  then have "handler now f (replayed rounds cur w) = (Inr (), sampled now f (replayed rounds cur w))"
    by (intro handler_takes) (simp_all add: active_def)
  moreover have "replayed rounds (cur @ [(now, f)]) w = deliver [(now, f)] (replayed rounds cur w)"
    by (simp add: replayed_def deliver_append)
  ultimately show ?thesis by (simp add: deliver_Cons)
qed


section \<open>A handler's step\<close>

lemma settle_idle [simp]: "pc = HCheck \<or> pc = HEnter \<Longrightarrow> settle_act (HAct pc f now n) x = x"
  by (cases x) auto

lemma settle_outside: "\<forall>a \<in> set acts. \<not> inside a \<Longrightarrow> fold settle_act acts x = x"
proof (induction acts arbitrary: x)
  case (Cons a acts)
  then have "settle_act a x = x" by (cases a) auto
  then show ?case using Cons by simp
qed simp

text \<open>The innermost handler is the only one inside once it has passed its test.\<close>

lemma settled_top:
  assumes "nested (r_stack r)" "r_stack r = HAct pc f now n # rest" "pc \<noteq> HCheck"
  shows "settled r = settle_act (HAct pc f now n) (w_traces (r_wall r), w_trace_count (r_wall r))"
    "\<forall>b \<in> set rest. \<not> inside b" "nested rest"
  using assms by (simp_all add: settled_def settle_outside)

lemma well_nested_inside:
  assumes "r_stack r = HAct pc f now n # rest" "pc \<noteq> HCheck" "pc \<noteq> HEnter"
  shows "well_nested r \<longleftrightarrow> nested rest \<and> (\<forall>b \<in> set rest. \<not> inside b) \<and> w_in_handler (r_wall r) \<and>
    (r_poll r = PWait \<longrightarrow> \<not> w_started (r_wall r)) \<and> r_poll r \<noteq> PSerialize \<and> w_period_sec (r_wall r) \<noteq> 0"
  using assms by (auto simp: well_nested_def idle_rest_def)

lemma well_nested_outside:
  assumes "nested (r_stack r)" "\<forall>b \<in> set (r_stack r). \<not> inside b" "\<not> w_in_handler (r_wall r)"
    "r_poll r = PWait \<longrightarrow> \<not> w_started (r_wall r)" "r_poll r \<noteq> PSerialize" "w_period_sec (r_wall r) \<noteq> 0"
  shows "well_nested r"
  using assms by (auto simp: well_nested_def)

lemma well_nested_signal: "well_nested r \<Longrightarrow> well_nested (signal f now r)"
  by (auto simp: well_nested_def signal_def idle_rest_def)

lemma stack_top:
  assumes "handler_step atomic r = Some r'"
  obtains pc f now n rest where "r_stack r = HAct pc f now n # rest"
  using assms by (cases "r_stack r") (simp_all add: handler_step.simps, metis hact.exhaust)

text \<open>The steps of a handler that do not compute ticks, and the one that does.\<close>

lemma handler_cases:
  assumes "handler_step atomic r = Some r'" "well_nested r"
  obtains (skip) f now n rest where "r_stack r = HAct HCheck f now n # rest" "r' = r\<lparr>r_stack := rest\<rparr>"
    | (check) f now n rest where "r_stack r = HAct HCheck f now n # rest" "w_started (r_wall r)"
        "\<not> w_in_handler (r_wall r)" "\<not> atomic" "r' = r\<lparr>r_stack := HAct HEnter f now n # rest\<rparr>"
    | (enter) pc f now n rest where "r_stack r = HAct pc f now n # rest" "pc = HCheck \<or> pc = HEnter"
        "pc = HCheck \<longrightarrow> w_started (r_wall r) \<and> \<not> w_in_handler (r_wall r)"
        "r' = r\<lparr>r_wall := (r_wall r)\<lparr>w_in_handler := True\<rparr>, r_stack := HAct HLock f now n # rest\<rparr>"
    | (lock) f now n rest where "r_stack r = HAct HLock f now n # rest"
        "r' = r\<lparr>r_wall := snd (lock_acquire (r_wall r)), r_stack := HAct HTick f now n # rest\<rparr>"
    | (tick) f now n rest where "r_stack r = HAct HTick f now n # rest"
        "r' = r\<lparr>r_wall := (r_wall r)\<lparr>w_last_sample_time := Some (next_time (w_period_sec (r_wall r))
            (w_last_sample_time (r_wall r)) now)\<rparr>,
          r_stack := HAct HUnlock f now (ticks (w_period_sec (r_wall r)) (w_last_sample_time (r_wall r)) now) # rest\<rparr>"
    | (unlock) f now n rest where "r_stack r = HAct HUnlock f now n # rest"
        "r' = r\<lparr>r_wall := snd (lock_release (r_wall r)), r_stack := HAct HTraces f now n # rest\<rparr>"
    | (traces) f now n rest where "r_stack r = HAct HTraces f now n # rest"
        "r' = r\<lparr>r_wall := (r_wall r)\<lparr>w_traces := dict_set (w_traces (r_wall r)) (record_trace f)
          (dict_get_default (w_traces (r_wall r)) (record_trace f) 0 + n)\<rparr>, r_stack := HAct HCount f now n # rest\<rparr>"
    | (counted) f now n rest where "r_stack r = HAct HCount f now n # rest"
        "r' = r\<lparr>r_wall := (r_wall r)\<lparr>w_trace_count := w_trace_count (r_wall r) + n\<rparr>, r_stack := HAct HExit f now n # rest\<rparr>"
    | (exit) f now n rest where "r_stack r = HAct HExit f now n # rest"
        "r' = r\<lparr>r_wall := (r_wall r)\<lparr>w_in_handler := False\<rparr>, r_stack := rest\<rparr>"
proof -
  obtain pc f now n rest where st: "r_stack r = HAct pc f now n # rest" by (rule stack_top [OF assms(1)])
  have p: "w_period_sec (r_wall r) \<noteq> 0" using assms(2) by (simp add: well_nested_def)
  note step = assms(1) [unfolded handler_step.simps st]
  show ?thesis
  proof (cases pc)
    case HCheck
    consider "\<not> w_started (r_wall r) \<or> w_in_handler (r_wall r)"
      | "w_started (r_wall r)" "\<not> w_in_handler (r_wall r)" by blast
    then show ?thesis
    proof cases
      case 1
      then show ?thesis using step st HCheck by (intro skip [of f now n rest]) (simp_all add: Let_def)
    next
      case 2
      then show ?thesis using step st HCheck
        by (cases atomic) (intro enter [of HCheck f now n rest], simp_all add: Let_def,
            intro check [of f now n rest], simp_all)
    qed
  next
    case HEnter
    then show ?thesis using step st by (intro enter [of HEnter f now n rest]) (simp_all add: Let_def)
  next
    case HLock
    then show ?thesis using step st by (intro lock [of f now n rest]) (simp_all add: Let_def split: if_splits)
  next
    case HTick
    then show ?thesis using step st by (intro tick [of f now n rest]) (simp_all add: Let_def tick_count_eq [OF p])
  next
    case HUnlock
    then show ?thesis using step st by (intro unlock [of f now n rest]) (simp_all add: Let_def)
  next
    case HTraces
    then show ?thesis using step st by (intro traces [of f now n rest]) (simp_all add: Let_def)
  next
    case HCount
    then show ?thesis using step st by (intro counted [of f now n rest]) (simp_all add: Let_def)
  next
    case HExit
    then show ?thesis using step st by (intro exit [of f now n rest]) (simp_all add: Let_def)
  qed
qed


lemma handler_well_nested:
  assumes "handler_step atomic r = Some r'" "well_nested r"
  shows "well_nested r'"
proof -
  have move: "well_nested q"
    if "r_stack r = HAct pc f now n # rest" "pc \<noteq> HCheck" "pc \<noteq> HEnter"
      "r_stack q = HAct pc' f now n' # rest" "pc' \<noteq> HCheck" "pc' \<noteq> HEnter" "r_poll q = r_poll r"
      "w_in_handler (r_wall q) = w_in_handler (r_wall r)" "w_period_sec (r_wall q) = w_period_sec (r_wall r)"
      "w_started (r_wall q) = w_started (r_wall r)" for q pc f now n rest pc' n'
    using well_nested_inside [OF that(1-3), THEN iffD1, OF assms(2)] well_nested_inside [OF that(4-6)] that(7-10)
    by simp
  from assms show ?thesis
  proof (cases rule: handler_cases)
    case (skip f now n rest)
    then show ?thesis using assms(2) by (auto simp: well_nested_def idle_rest_def)
  next
    case (check f now n rest)
    then show ?thesis using assms(2) by (intro well_nested_outside) (auto simp: well_nested_def)
  next
    case (enter pc f now n rest)
    have "\<forall>b \<in> set rest. \<not> inside b" "nested rest" "r_poll r \<noteq> PSerialize"
      "r_poll r = PWait \<longrightarrow> \<not> w_started (r_wall r)"
      using assms(2) enter(1-3) by (auto simp: well_nested_def idle_rest_def)
    then show ?thesis using well_nested_inside [of r' HLock f now n rest] assms(2) enter(4)
      by (simp add: well_nested_def)
  next
    case (lock f now n rest)
    show ?thesis by (rule move [OF lock(1), of r' HTick]) (simp_all add: lock(2))
  next
    case (tick f now n rest)
    show ?thesis by (rule move [OF tick(1), of r' HUnlock]) (simp_all add: tick(2))
  next
    case (unlock f now n rest)
    show ?thesis by (rule move [OF unlock(1), of r' HTraces]) (simp_all add: unlock(2))
  next
    case (traces f now n rest)
    show ?thesis by (rule move [OF traces(1), of r' HCount]) (simp_all add: traces(2))
  next
    case (counted f now n rest)
    show ?thesis by (rule move [OF counted(1), of r' HExit]) (simp_all add: counted(2))
  next
    case (exit f now n rest)
    then show ?thesis using well_nested_inside [OF exit(1), THEN iffD1, OF _ _ assms(2)]
      by (intro well_nested_outside) simp_all
  qed
qed

lemma lock_samples [simp]:
  "w_traces (snd (lock_acquire w)) = w_traces w" "w_trace_count (snd (lock_acquire w)) = w_trace_count w"
  "w_last_sample_time (snd (lock_acquire w)) = w_last_sample_time w" "w_profile_type (snd (lock_acquire w)) = w_profile_type w"
  "w_traces (snd (lock_release w)) = w_traces w" "w_trace_count (snd (lock_release w)) = w_trace_count w"
  "w_last_sample_time (snd (lock_release w)) = w_last_sample_time w" "w_profile_type (snd (lock_release w)) = w_profile_type w"
  "w_traces (snd (setitimer a b w)) = w_traces w" "w_trace_count (snd (setitimer a b w)) = w_trace_count w"
  "w_last_sample_time (snd (setitimer a b w)) = w_last_sample_time w" "w_profile_type (snd (setitimer a b w)) = w_profile_type w"
  by (simp_all add: lock_acquire_def lock_release_def setitimer_def py_monad)

text \<open>A step that keeps the settled samples keeps the replay.\<close>

lemma replays_stutter:
  assumes "replays w rounds cur r" "settled r' = settled r"
    "w_last_sample_time (r_wall r') = w_last_sample_time (r_wall r)" "w_period_sec (r_wall r') = w_period_sec (r_wall r)"
    "w_profile_type (r_wall r') = w_profile_type (r_wall r)" "past_round (r_poll r') \<longrightarrow> past_round (r_poll r)"
  shows "replays w rounds cur r'"
  using assms by (auto simp: replays_def)

lemma replays_tick:
  assumes "replays w rounds cur r" "ready w" "well_nested r" "r_stack r = HAct HTick f now n # rest"
    and "r' = r\<lparr>r_wall := (r_wall r)\<lparr>w_last_sample_time := Some (next_time (w_period_sec (r_wall r))
            (w_last_sample_time (r_wall r)) now)\<rparr>,
          r_stack := HAct HUnlock f now (ticks (w_period_sec (r_wall r)) (w_last_sample_time (r_wall r)) now) # rest\<rparr>"
  shows "replays w rounds (cur @ [(now, f)]) r'"
proof -
  let ?v = "replayed rounds cur w"
  have "nested (r_stack r)" using assms(3) by (simp add: well_nested_def)
  note top = settled_top [OF this assms(4)]
  have v: "w_traces ?v = w_traces (r_wall r)" "w_trace_count ?v = w_trace_count (r_wall r)"
    "w_last_sample_time ?v = w_last_sample_time (r_wall r)" "w_period_sec ?v = w_period_sec (r_wall r)"
    using assms(1) top(1) ready_replayed(2) [OF assms(2), of rounds cur] by (simp_all add: replays_def)
  show ?thesis
    using assms(1) top(2)
    by (simp add: replays_def replayed_sample [OF assms(2)] sampled_def Let_def v assms(5) settled_def settle_outside)
qed

text \<open>A handler's step stutters, or is the sample of one signal.\<close>

lemma handler_replays:
  assumes "handler_step atomic r = Some r'" "well_nested r" "replays w rounds cur r" "ready w"
  shows "\<exists>new. replays w rounds (cur @ new) r' \<and> mset new + open_samples r' \<subseteq># open_samples r"
proof -
  have n: "nested (r_stack r)" using assms(2) by (simp add: well_nested_def)
  have stutter: ?thesis
    if "settled r' = settled r" "w_last_sample_time (r_wall r') = w_last_sample_time (r_wall r)"
      "w_period_sec (r_wall r') = w_period_sec (r_wall r)" "w_profile_type (r_wall r') = w_profile_type (r_wall r)"
      "r_poll r' = r_poll r" "open_samples r' \<subseteq># open_samples r"
    using replays_stutter [OF assms(3) that(1-4)] that(5,6) by (intro exI [of _ "[]"]) simp
  from assms(1,2) show ?thesis
  proof (cases rule: handler_cases)
    case (skip f now n rest)
    then show ?thesis by (intro stutter) (simp_all add: settled_def open_samples_def)
  next
    case (check f now n rest)
    then show ?thesis by (intro stutter) (simp_all add: settled_def open_samples_def)
  next
    case (enter pc f now n rest)
    then show ?thesis by (intro stutter) (auto simp: settled_def open_samples_def)
  next
    case (lock f now n rest)
    then show ?thesis by (intro stutter) (simp_all add: settled_def open_samples_def)
  next
    case (tick f now n rest)
    then show ?thesis using replays_tick [OF assms(3,4,2) tick]
      by (intro exI [of _ "[(now, f)]"]) (simp add: open_samples_def)
  next
    case (unlock f now n rest)
    then show ?thesis by (intro stutter) (simp_all add: settled_def open_samples_def)
  next
    case (traces f now n rest)
    then show ?thesis using settled_top [OF n traces(1)]
      by (intro stutter) (simp_all add: settled_def open_samples_def settle_outside)
  next
    case (counted f now n rest)
    then show ?thesis using settled_top [OF n counted(1)]
      by (intro stutter) (simp_all add: settled_def open_samples_def settle_outside)
  next
    case (exit f now n rest)
    then show ?thesis using settled_top [OF n exit(1)]
      by (intro stutter) (simp_all add: settled_def open_samples_def settle_outside)
  qed
qed


section \<open>A step of the polling thread\<close>

lemma poll_well_nested:
  assumes "poll_thread_step again r = Some r'" "well_nested r" "\<not> misses (RunPoll again) r" "\<not> finished (r_poll r')"
  shows "well_nested r'"
proof (cases "r_poll r = PWait \<and> \<not> w_in_handler (r_wall r)")
  case True
  then have "\<forall>a \<in> set (r_stack r). act_pc a \<noteq> HEnter \<and> \<not> inside a"
    using assms(2,3) by (auto simp: misses_def well_nested_def)
  then have "idle_rest (r_stack r)" by (auto simp: idle_rest_def inside_def)
  then show ?thesis using True assms(1,2) by (auto simp: poll_thread_step.simps Let_def well_nested_def)
next
  case False
  then show ?thesis using assms(1,2,4)
    by (cases "r_poll r")
      (auto simp: poll_thread_step.simps Let_def well_nested_def finished_def stopped_poll_def
        split: if_splits prod.splits sum.splits)
qed

lemma poll_replays:
  assumes "poll_thread_step again r = Some r'" "replays w rounds cur r" "ready w" "\<not> finished (r_poll r')"
  shows "\<exists>rounds' cur'. replays w rounds' cur' r' \<and> concat rounds' @ cur' = concat rounds @ cur \<and> r_stack r' = r_stack r"
proof (cases "r_poll r = PClear")
  case True
  then have "replays w (rounds @ [cur]) [] r' \<and> r_stack r' = r_stack r"
    using assms(1,2) by (auto simp: replays_def replayed_round [OF assms(3)] poll_thread_step.simps Let_def settled_def)
  then show ?thesis by (intro exI [of _ "rounds @ [cur]"] exI [of _ "[]"]) simp
next
  case False
  then have "settled r' = settled r" "w_last_sample_time (r_wall r') = w_last_sample_time (r_wall r)"
    "w_period_sec (r_wall r') = w_period_sec (r_wall r)" "w_profile_type (r_wall r') = w_profile_type (r_wall r)"
    "past_round (r_poll r') \<longrightarrow> past_round (r_poll r)" "r_stack r' = r_stack r"
    using assms(1,4)
    by (cases "r_poll r"; auto simp: poll_thread_step.simps Let_def settled_def finished_def stopped_poll_def
        past_round_def split: if_splits prod.splits sum.splits)+
  from replays_stutter [OF assms(2) this(1-5)] this(6) show ?thesis by blast
qed

section \<open>Runs\<close>

text \<open>The simulation relation, with the signals that are accounted for.\<close>

definition simulated :: "wall \<Rightarrow> samples \<Rightarrow> race \<Rightarrow> bool" where
  "simulated w sigs r \<longleftrightarrow> well_nested r \<and> (\<exists>rounds cur. replays w rounds cur r \<and>
     mset (concat rounds @ cur) + open_samples r \<subseteq># mset sigs)"

lemma handler_frame:
  assumes "handler_step atomic r = Some r'"
  shows "r_poll r' = r_poll r" "r_duration r' = r_duration r" "r_out r' = r_out r"
  using assms
  by (auto simp: handler_step.simps Let_def split: list.splits hact.splits hpc.splits if_splits prod.splits sum.splits)

lemma pick_duration: "pick atomic c r = Some r' \<Longrightarrow> r_duration r' = r_duration r"
  using handler_frame(2)
  by (cases c) (auto simp: signal_def poll_thread_step.simps Let_def
      split: ppc.splits if_splits prod.splits sum.splits)

lemma unfinished_step:
  assumes "pick atomic c r = Some r'" "\<not> finished (r_poll r')"
  shows "\<not> finished (r_poll r)"
proof (cases c)
  case (RunPoll again)
  then show ?thesis using assms
    by (cases "r_poll r") (auto simp: finished_def stopped_poll_def poll_thread_step.simps Let_def split: if_splits)
qed (use assms handler_frame(1) in \<open>auto simp: signal_def\<close>)

lemma simulatedI:
  "well_nested r \<Longrightarrow> replays w rounds cur r \<Longrightarrow> mset (concat rounds @ cur) + open_samples r \<subseteq># mset sigs \<Longrightarrow>
    simulated w sigs r"
  unfolding simulated_def by blast

lemma simulated_step:
  assumes "pick atomic c r = Some r'" "\<not> misses c r" "simulated w sigs r" "ready w" "\<not> finished (r_poll r')"
  shows "simulated w (sigs @ signals_of [c]) r'"
proof -
  obtain rounds cur where wn: "well_nested r" and re: "replays w rounds cur r"
    and ms: "mset (concat rounds @ cur) + open_samples r \<subseteq># mset sigs"
    using assms(3) by (auto simp: simulated_def)
  show ?thesis
  proof (cases c)
    case (SignalNow f now)
    then have r': "r' = signal f now r" using assms(1) by simp
    have "replays w rounds cur r'"
      by (rule replays_stutter [OF re]) (simp_all add: r' signal_def settled_def)
    moreover have "open_samples r' = add_mset (now, f) (open_samples r)"
      by (simp add: r' signal_def open_samples_def)
    ultimately show ?thesis
      using well_nested_signal [OF wn] ms by (intro simulatedI [of _ _ rounds cur]) (simp_all add: SignalNow r' add.assoc)
  next
    case RunHandler
    then have step: "handler_step atomic r = Some r'" using assms(1) by simp
    obtain new where new: "replays w rounds (cur @ new) r'" "mset new + open_samples r' \<subseteq># open_samples r"
      using handler_replays [OF step wn re assms(4)] by blast
    have "mset (concat rounds @ cur @ new) + open_samples r' = mset (concat rounds @ cur) + (mset new + open_samples r')"
      by simp
    also have "\<dots> \<subseteq># mset (concat rounds @ cur) + open_samples r" using new(2) by simp
    finally have "mset (concat rounds @ cur @ new) + open_samples r' \<subseteq># mset sigs"
      using ms by (rule subset_mset.order_trans)
    then show ?thesis
      using simulatedI [OF handler_well_nested [OF step wn] new(1)] by (simp add: RunHandler)
  next
    case (RunPoll again)
    then have step: "poll_thread_step again r = Some r'" using assms(1) by simp
    obtain rounds' cur' where re': "replays w rounds' cur' r'" and same: "concat rounds' @ cur' = concat rounds @ cur"
      and st: "r_stack r' = r_stack r"
      using poll_replays [OF step re assms(4,5)] by blast
    have "mset (concat rounds' @ cur') + open_samples r' \<subseteq># mset sigs"
      using ms unfolding same by (simp add: open_samples_def st)
    then show ?thesis
      using simulatedI [OF poll_well_nested [OF step wn assms(2) [unfolded RunPoll] assms(5)] re'] by (simp add: RunPoll)
  qed
qed

section \<open>The serialization\<close>

text \<open>
  After the wait nothing is left to handlers but to see that the profiler is stopped: what is
  iterated over stays the traces that the simulation gave, with the unknown trace added.
\<close>

definition serializing :: "wall \<Rightarrow> race \<Rightarrow> bool" where
  "serializing w1 r \<longleftrightarrow> (case r_poll r of
       PIter n k \<Rightarrow> n = length (w_traces w1) \<and> k \<le> n \<and> r_wall r = w1 \<and> r_out r = Some (take k (w_traces w1))
     | PReset \<Rightarrow> r_wall r = w1 \<and> r_out r = Some (w_traces w1)
     | PDone \<Rightarrow> r_wall r = wall_reset w1 \<and> r_out r = Some (w_traces w1)
     | _ \<Rightarrow> False)"

definition serialized :: "wall \<Rightarrow> samples \<Rightarrow> race \<Rightarrow> bool" where
  "serialized w sigs r \<longleftrightarrow> idle_rest (r_stack r) \<and> \<not> w_started (r_wall r) \<and>
     (\<exists>r0 y w1. simulated w sigs r0 \<and> r_poll r0 = PSerialize \<and> add_unknown (r_duration r) (r_wall r0) = (y, w1) \<and>
       ((\<exists>e. y = Inl e \<and> r_poll r = PRaised e) \<or> y = Inr () \<and> serializing w1 r))"

lemma serializedE:
  assumes "serialized w sigs r"
  obtains (raised) r0 e w1 where "simulated w sigs r0" "r_poll r0 = PSerialize"
      "add_unknown (r_duration r) (r_wall r0) = (Inl e, w1)" "r_poll r = PRaised e"
    | (items) r0 w1 where "simulated w sigs r0" "r_poll r0 = PSerialize"
      "add_unknown (r_duration r) (r_wall r0) = (Inr (), w1)" "serializing w1 r"
  using assms unfolding serialized_def by blast

lemma serializedI:
  assumes "idle_rest (r_stack r)" "\<not> w_started (r_wall r)" "simulated w sigs r0" "r_poll r0 = PSerialize"
    "add_unknown (r_duration r) (r_wall r0) = (y, w1)"
    "(\<exists>e. y = Inl e \<and> r_poll r = PRaised e) \<or> y = Inr () \<and> serializing w1 r"
  shows "serialized w sigs r"
  using assms unfolding serialized_def by blast

lemma serializing_poll:
  assumes "poll_thread_step again r = Some r'" "serializing w1 r"
  shows "serializing w1 r'"
  using assms
  by (cases "r_poll r")
    (auto simp: serializing_def poll_thread_step.simps Let_def take_Suc_conv_app_nth split: if_splits)

lemma simulated_more: "simulated w sigs r \<Longrightarrow> simulated w (sigs @ extra) r"
  unfolding simulated_def mset_append by (meson mset_subset_eq_add_left subset_mset.order_trans)

text \<open>A step that leaves the wall, the output and the counter of the polling thread alone.\<close>

lemma serialized_idle:
  assumes "serialized w sigs r" "r_wall r' = r_wall r" "r_out r' = r_out r" "r_poll r' = r_poll r"
    "r_duration r' = r_duration r" "idle_rest (r_stack r')"
  shows "serialized w sigs r'"
proof -
  have "serializing w1 r' = serializing w1 r" for w1 unfolding serializing_def assms(2-4) ..
  with assms show ?thesis unfolding serialized_def by presburger
qed

lemma serialized_step:
  assumes "pick atomic c r = Some r'" "serialized w sigs r"
  shows "serialized w sigs r'"
proof (cases c)
  case (SignalNow f now)
  then show ?thesis using assms
    by (intro serialized_idle [OF assms(2)]) (auto simp: signal_def serialized_def idle_rest_def)
next
  case RunHandler
  then have step: "handler_step atomic r = Some r'" using assms(1) by simp
  obtain pc f now n rest where st: "r_stack r = HAct pc f now n # rest" by (rule stack_top [OF step])
  have "pc = HCheck" "\<not> w_started (r_wall r)" "idle_rest rest" using assms(2) st by (auto simp: serialized_def idle_rest_def)
  moreover from this have "r' = r\<lparr>r_stack := rest\<rparr>" using step st by (simp add: handler_step.simps Let_def)
  ultimately show ?thesis by (intro serialized_idle [OF assms(2)]) simp_all
next
  case (RunPoll again)
  then have step: "poll_thread_step again r = Some r'" using assms(1) by simp
  from assms(2) show ?thesis
  proof (cases rule: serializedE)
    case raised
    then show ?thesis using step by (simp add: poll_thread_step.simps)
  next
    case (items r0 w1)
    have "stopped_poll (r_poll r)" using items(4) by (cases "r_poll r") (simp_all add: serializing_def stopped_poll_def)
    note after = poll_after_stop [OF step this]
    have "idle_rest (r_stack r')" "\<not> w_started (r_wall r')" using assms(2) after by (simp_all add: serialized_def)
    moreover have "add_unknown (r_duration r') (r_wall r0) = (Inr (), w1)" using pick_duration [OF assms(1)] items(3) by simp
    ultimately show ?thesis using items(1,2) serializing_poll [OF step items(4)] by (intro serializedI [of _ _ _ r0 "Inr ()" w1]) blast+
  qed
qed

text \<open>The step that makes the iterator.\<close>

lemma serialized_first:
  assumes "pick atomic c r = Some r'" "\<not> finished (r_poll r)" "finished (r_poll r')" "simulated w sigs r"
  shows "serialized w sigs r'"
proof -
  obtain again where c: "c = RunPoll again" using assms(1-3) handler_frame(1) [of atomic r r']
    by (cases c) (auto simp: signal_def)
  then have step: "poll_thread_step again r = Some r'" using assms(1) by simp
  have ps: "r_poll r = PSerialize" using step assms(2,3)
    by (cases "r_poll r") (auto simp: finished_def stopped_poll_def poll_thread_step.simps Let_def split: if_splits)
  note after = poll_after_stop [OF step]
  have "idle_rest (r_stack r')" "\<not> w_started (r_wall r')"
    using after assms(4) ps by (simp_all add: stopped_poll_def simulated_def well_nested_def)
  moreover obtain y w1 where a: "add_unknown (r_duration r) (r_wall r) = (y, w1)"
    by (cases "add_unknown (r_duration r) (r_wall r)")
  have "(\<exists>e. y = Inl e \<and> r_poll r' = PRaised e) \<or> y = Inr () \<and> serializing w1 r'"
    using step ps a by (cases y) (auto simp: poll_thread_step.simps Let_def serializing_def)
  ultimately show ?thesis using assms(4) ps a pick_duration [OF assms(1)] by (intro serializedI) simp_all
qed

section \<open>Whole runs\<close>

definition tracked :: "wall \<Rightarrow> samples \<Rightarrow> race \<Rightarrow> bool" where
  "tracked w sigs r \<longleftrightarrow> (if finished (r_poll r) then serialized w sigs r else simulated w sigs r)"

lemma serialized_more: "serialized w sigs r \<Longrightarrow> serialized w (sigs @ extra) r"
  unfolding serialized_def by (elim conjE exE, intro conjI exI simulated_more)

lemma tracked_step:
  assumes "pick atomic c r = Some r'" "\<not> misses c r" "tracked w sigs r" "ready w"
  shows "tracked w (sigs @ signals_of [c]) r'"
proof (cases "finished (r_poll r')")
  case False
  with simulated_step [OF assms(1,2) _ assms(4)] unfinished_step [OF assms(1)] assms(3)
  show ?thesis by (simp add: tracked_def)
next
  case True
  have "serialized w sigs r'"
    using assms(3) serialized_step [OF assms(1)] serialized_first [OF assms(1) _ True]
    by (cases "finished (r_poll r)") (simp_all add: tracked_def)
  then show ?thesis using True serialized_more by (simp add: tracked_def)
qed

lemma tracked_run:
  "run_schedule atomic cs r = Some r' \<Longrightarrow> patient atomic cs r \<Longrightarrow> tracked w sigs r \<Longrightarrow> ready w \<Longrightarrow>
    tracked w (sigs @ signals_of cs) r' \<and> r_duration r' = r_duration r"
proof (induction cs arbitrary: r sigs)
  case (Cons c cs)
  obtain r1 where c: "pick atomic c r = Some r1" and run: "run_schedule atomic cs r1 = Some r'"
    using Cons.prems(1) by (auto split: option.splits)
  have pat: "patient atomic cs r1" "\<not> misses c r" using Cons.prems(2) c by simp_all
  note s = tracked_step [OF c pat(2) Cons.prems(3,4)]
  have "signals_of (c # cs) = signals_of [c] @ signals_of cs" using signals_of_append [of "[c]" cs] by simp
  with Cons.IH [OF run pat(1) s Cons.prems(4)] pick_duration [OF c] show ?case by simp
qed simp

section \<open>From the start to the serialization\<close>

text \<open>The state with which the wait begins.\<close>

definition begun :: "wall \<Rightarrow> wall" where
  "begun w = (wall_reset w)\<lparr>w_started := True, w_itimer := (w_period_sec w, w_period_sec w)\<rparr>"

lemma begun_ready: "\<not> w_in_handler w \<Longrightarrow> w_lock_depth w = 0 \<Longrightarrow> 0 < w_period_sec w \<Longrightarrow> ready (begun w)"
  by (simp add: begun_def ready_def active_def wf_wall_def wall_reset_def)

lemma tracked_init:
  assumes "\<not> w_in_handler w" "0 < w_period_sec w" "0 < d"
  shows "tracked (begun w) [] (race_init d w)"
proof -
  have "profile_waits d" using profile_duration_pos [OF assms(3)] by (simp add: profile_waits_def)
  then have init: "race_init d w = \<lparr>r_wall = (wall_reset w)\<lparr>w_started := True\<rparr>, r_stack = [], r_poll = PSleep,
     r_poll_lock = False, r_duration = d, r_out = None\<rparr>" by (simp add: race_init_def)
  have "simulated (begun w) [] (race_init d w)"
    using assms by (intro simulatedI [of _ _ "[]" "[]"])
      (simp_all add: init well_nested_def replays_def settled_def replayed_def after_rounds_def begun_def
        open_samples_def wall_reset_def past_round_def)
  then show ?thesis by (simp add: tracked_def init finished_def stopped_poll_def)
qed

text \<open>Clock readings with which the wait has the given rounds: only the last one reaches the target.\<close>

fun clocked :: "pyfloat \<Rightarrow> samples list \<Rightarrow> sleep_round list" where
  "clocked target [] = []"
| "clocked target [ss] = [(ss, target)]"
| "clocked target (ss # rest) = (ss, 0) # clocked target rest"

lemma clocked_samples: "map fst (clocked target rounds) = rounds"
  by (induction target rounds rule: clocked.induct) simp_all

lemma loop_clocked:
  assumes "0 < d" "d \<le> 2 ^ 33" "fl d = d"
  shows "ready w \<Longrightarrow> rounds \<noteq> [] \<Longrightarrow> profile_loop d d (clocked d rounds) w = Some (Inr (), after_rounds rounds w)"
proof (induction rounds arbitrary: w rule: induct_list012)
  case (2 ss)
  have "profile_round d (ss, d) w = Some (Inr (fsub d d), after_round ss w)"
    using profile_round_active [of w d "(ss, d)"] 2 by (simp add: ready_def after_round_def)
  then show ?case
    using assms by (simp add: profile_loop.simps time_sleep_ok fsub_def after_rounds_def)
next
  case (3 ss tt rest)
  have "profile_round d (ss, 0) w = Some (Inr (fsub d 0), after_round ss w)"
    using profile_round_active [of w d "(ss, 0)"] 3 by (simp add: ready_def after_round_def)
  with assms 3(2) [of "after_round ss w"] ready_round(1) [OF 3(3)] show ?case
    by (simp add: profile_loop.simps [of d d "(ss, 0) # _"] time_sleep_ok fsub_def after_rounds_def)
qed simp

text \<open>What is serialized depends on the samples and the configuration.\<close>

lemma serialize_cong:
  assumes "w_traces v = w_traces w" "w_trace_count v = w_trace_count w" "w_period_sec v = w_period_sec w"
    "w_profile_type v = w_profile_type w"
  shows "fst (serialize_and_clear_traces rt d v) = fst (serialize_and_clear_traces rt d w)"
proof -
  have p: "wall_period_ns v = wall_period_ns w" using assms(3) by (simp add: wall_period_ns_def)
  obtain e where "fst (add_unknown d v) = e" "fst (add_unknown d w) = e"
    "w_traces (snd (add_unknown d v)) = w_traces (snd (add_unknown d w))"
    "w_profile_type (snd (add_unknown d v)) = w_profile_type (snd (add_unknown d w))"
    "wall_period_ns (snd (add_unknown d v)) = wall_period_ns (snd (add_unknown d w))"
    using assms p by (cases "int_truediv d (wall_period_ns w)")
      (auto simp: add_unknown_def py_monad Let_def wall_period_ns_def)
  then show ?thesis
    by (cases "add_unknown d v"; cases "add_unknown d w"; cases e)
      (auto simp: serialize_and_clear_traces_def py_monad split: sum.splits)
qed

lemma simulated_profile:
  assumes "simulated (begun w) sigs r" "r_poll r = PSerialize"
    and "\<not> w_in_handler w" "w_lock_depth w = 0" "0 < w_period_sec w" "0 < d" "d < 2 ^ 53"
  obtains ps where "map_option fst (wall_profile rt ps d w) = Some (fst (serialize_and_clear_traces rt d (r_wall r)))"
    "mset (concat (map fst (ps_rounds ps)) @ ps_tail ps) \<subseteq># mset sigs"
proof -
  let ?d = "fl (float_of_int d / of_int WALL_NANOS_PER_SEC)" and ?w = "begun w"
  obtain rounds cur where wn: "well_nested r" and re: "replays ?w rounds cur r"
    and ms: "mset (concat rounds @ cur) + open_samples r \<subseteq># mset sigs"
    using assms(1) by (auto simp: simulated_def)
  let ?v = "replayed rounds cur ?w"
  let ?v1 = "?v\<lparr>w_itimer := (0, 0), w_started := False\<rparr>"
  let ?ps = "\<lparr>ps_start = 0, ps_rounds = clocked ?d rounds, ps_tail = cur\<rparr>"
  have rdy: "ready ?w" by (rule begun_ready [OF assms(3-5)])
  have ne: "rounds \<noteq> []" using re assms(2) by (simp add: replays_def past_round_def)
  have d: "0 < ?d" "?d \<le> 2 ^ 33" "fadd 0 ?d = ?d"
    using profile_duration_pos [OF assms(6)] profile_duration_upper [OF assms(7)] by (simp_all add: fadd_def)
  have "\<not> w_in_handler ?v" using ready_replayed(1) [OF rdy] by (simp add: ready_def active_def)
  note stop = stop_profiling_eq [OF this, unfolded replayed_def]
  have "start_profiling (wall_reset w) = (Inr (), ?w)"
    using assms(5) by (simp add: start_profiling_eq wall_reset_def begun_def)
  then have run: "wall_profile rt ?ps d w = Some (serialize_and_clear_traces rt d ?v1)"
    using d loop_clocked [OF d(1,2) fl_idem rdy ne] stop
    by (simp add: wall_profile_def Let_def replayed_def)
  have "settled r = (w_traces (r_wall r), w_trace_count (r_wall r))"
    using wn assms(2) settle_outside [of "r_stack r"] idle_rest_facts(2) [of "r_stack r"]
    by (auto simp: settled_def well_nested_def)
  then have "w_traces ?v1 = w_traces (r_wall r)" "w_trace_count ?v1 = w_trace_count (r_wall r)"
    "w_period_sec ?v1 = w_period_sec (r_wall r)" "w_profile_type ?v1 = w_profile_type (r_wall r)"
    using re ready_replayed(2,3) [OF rdy, of rounds cur] by (simp_all add: replays_def)
  note same = serialize_cong [OF this, of rt d]
  have "mset (concat rounds @ cur) \<subseteq># mset sigs"
    using ms by (rule subset_mset.order_trans [rotated]) simp
  with run same show ?thesis by (intro that [of ?ps]) (simp_all add: clocked_samples)
qed


text \<open>What the polling thread returns: the profile of the items it has iterated over, or an exception.\<close>

definition race_result :: "pb_runtime \<Rightarrow> race \<Rightarrow> bytes res option" where
  "race_result rt r = (if r_poll r = PReset \<or> r_poll r = PDone
     then map_option (\<lambda>items. build_profile rt items (w_profile_type (r_wall r)) ''nanoseconds''
       (wall_period_ns (r_wall r)) (r_duration r)) (r_out r)
     else case r_poll r of PRaised e \<Rightarrow> Some (Inl e) | _ \<Rightarrow> None)"

lemma serialized_result:
  assumes "serialized w sigs r" "race_result rt r = Some x"
  obtains r0 where "simulated w sigs r0" "r_poll r0 = PSerialize"
    "x = fst (serialize_and_clear_traces rt (r_duration r) (r_wall r0))"
proof -
  from assms(1) show ?thesis
  proof (cases rule: serializedE)
    case (raised r0 e w1)
    then have "x = fst (serialize_and_clear_traces rt (r_duration r) (r_wall r0))"
      using assms(2) by (simp add: race_result_def serialize_and_clear_traces_def py_monad)
    with raised(1,2) show ?thesis by (rule that)
  next
    case (items r0 w1)
    obtain traces where w1: "w1 = (r_wall r0)\<lparr>w_traces := traces\<rparr>"
      using add_unknown_fields [of "r_duration r" "r_wall r0"] items(3) by auto
    let ?b = "build_profile rt traces (w_profile_type (r_wall r0)) ''nanoseconds'' (wall_period_ns (r_wall r0)) (r_duration r)"
    have "x = ?b"
      using assms(2) items(4) unfolding w1
      by (cases "r_poll r") (simp_all add: serializing_def race_result_def wall_period_ns_def wall_reset_def)
    moreover have "fst (serialize_and_clear_traces rt (r_duration r) (r_wall r0)) = ?b"
      using items(3) unfolding w1
      by (simp add: serialize_and_clear_traces_def py_monad wall_period_ns_def split: sum.split)
    ultimately have "x = fst (serialize_and_clear_traces rt (r_duration r) (r_wall r0))" by (simp only:)
    with items(1,2) show ?thesis by (rule that)
  qed
qed

lemma patient_result:
  assumes "run_schedule atomic cs (race_init d w) = Some r" "race_result rt r = Some x" "patient atomic cs (race_init d w)"
    and "\<not> w_in_handler w" "w_lock_depth w = 0" "0 < w_period_sec w" "0 < d" "d < 2 ^ 53"
  obtains ps where "map_option fst (wall_profile rt ps d w) = Some x"
    "mset (concat (map fst (ps_rounds ps)) @ ps_tail ps) \<subseteq># mset (signals_of cs)"
proof -
  have "tracked (begun w) ([] @ signals_of cs) r \<and> r_duration r = r_duration (race_init d w)"
    by (rule tracked_run [OF assms(1,3) tracked_init [OF assms(4,6,7)] begun_ready [OF assms(4-6)]])
  then have t: "tracked (begun w) (signals_of cs) r" and d: "r_duration r = d" by (simp_all add: race_init_def)
  have "finished (r_poll r)" using assms(2)
    by (auto simp: race_result_def finished_def stopped_poll_def split: if_splits ppc.splits)
  with t have "serialized (begun w) (signals_of cs) r" by (simp add: tracked_def)
  then obtain r0 where r0: "simulated (begun w) (signals_of cs) r0" "r_poll r0 = PSerialize"
    and x: "x = fst (serialize_and_clear_traces rt (r_duration r) (r_wall r0))"
    by (rule serialized_result [OF _ assms(2)])
  from r0 obtain ps where "map_option fst (wall_profile rt ps d w) = Some (fst (serialize_and_clear_traces rt d (r_wall r0)))"
    "mset (concat (map fst (ps_rounds ps)) @ ps_tail ps) \<subseteq># mset (signals_of cs)"
    by (rule simulated_profile [OF _ _ assms(4-8)])
  then show ?thesis using x d by (intro that) simp_all
qed

text \<open>
  With an atomic guard every order of steps is patient, because no handler ever stands between
  the test and the setting of its flag.
\<close>

lemma atomic_patient: "\<forall>a \<in> set (r_stack r). act_pc a \<noteq> HEnter \<Longrightarrow> patient True cs r"
proof (induction cs arbitrary: r)
  case (Cons c cs)
  have "\<forall>a \<in> set (r_stack r'). act_pc a \<noteq> HEnter" if "pick True c r = Some r'" for r'
    using that Cons.prems
    by (cases c)
      (auto simp: signal_def handler_step.simps poll_thread_step.simps Let_def
        split: list.splits hact.splits hpc.splits ppc.splits if_splits prod.splits sum.splits)
  then show ?case using Cons by (auto simp: misses_def split: choice.splits option.splits)
qed simp

theorem atomic_guard_refines:
  assumes "run_schedule True cs (race_init d w) = Some r" "race_result rt r = Some x"
    and "\<not> w_in_handler w" "w_lock_depth w = 0" "0 < w_period_sec w" "0 < d" "d < 2 ^ 53"
  shows "\<exists>ps. map_option fst (wall_profile rt ps d w) = Some x"
proof -
  have "patient True cs (race_init d w)" by (rule atomic_patient) (simp add: race_init_def)
  then show ?thesis by (rule patient_result [OF assms(1,2) _ assms(3-7)]) blast
qed

section \<open>Properties\<close>

text \<open>
  C28: the interleaving refines the model with whole handlers. Take any order of signals, handler
  statements and polling statements, with the code's two-step guard or an atomic one, in
  which the polling thread does not end its wait while a handler stands between the test and
  the setting of its flag. What \<open>profile\<close> then returns or raises, for a duration below \<open>2 ^ 53\<close>
  nanoseconds, is what it returns or raises when the handlers run as one step, for some order
  of them in which every signal that arrived is used at most once.
\<close>

theorem interleaving_refines_whole_handlers:
  assumes "run_schedule atomic cs (race_init d w) = Some r" "race_result rt r = Some x"
    and "patient atomic cs (race_init d w)"
    and "\<not> w_in_handler w" "w_lock_depth w = 0" "0 < w_period_sec w" "0 < d" "d < 2 ^ 53"
  shows "\<exists>ps. map_option fst (wall_profile rt ps d w) = Some x \<and>
    mset (concat (map fst (ps_rounds ps)) @ ps_tail ps) \<subseteq># mset (signals_of cs)"
  by (rule patient_result [OF assms]) blast

text \<open>
  A handler that is interrupted by the polling thread after it has left the lock: the thread
  runs a round, stops, waits for the handler to finish, and serializes its trace and the unknown one.
\<close>

definition overlapping_schedule :: "choice list" where
  "overlapping_schedule = RunPoll False # SignalNow sample_frame 5 # replicate 5 RunHandler @ replicate 7 (RunPoll False) @
     RunPoll False # replicate 3 RunHandler @ replicate 5 (RunPoll False)"

lemma race_wall_unknown:
  assumes "w_trace_count w = 1" "w_period_sec w = w_period_sec race_wall"
  shows "add_unknown 10000000000 w = (Inr (), w\<lparr>w_traces := dict_set (w_traces w) unknown_trace 999\<rparr>)"
proof -
  have "wall_period_ns race_wall = 10000000"
    using sample_wall_facts unfolding race_wall_def sample_wall_def by (simp add: wall_period_ns_def)
  then have "wall_period_ns w = 10000000" using assms(2) by (simp add: wall_period_ns_def)
  then show ?thesis using add_unknown_eq [of 10000000000 w] assms(1) by simp
qed

lemma overlapping_run:
  "\<exists>r. run_schedule False overlapping_schedule (race_init 10000000000 race_wall) = Some r \<and> r_poll r = PReset \<and>
    patient False overlapping_schedule (race_init 10000000000 race_wall) \<and>
    r_out r = Some [(record_trace sample_frame, 1), (unknown_trace, 999)]"
proof -
  have "record_trace sample_frame \<noteq> unknown_trace"
    by (simp add: sample_frame_def record_trace_stack unknown_trace_def)
  then show ?thesis
    unfolding overlapping_schedule_def replicate_choices
    using race_wall_facts(2-4) race_wall_facts(1) [symmetric]
    by (simp add: race_eval sample_waits misses_def tick_count_def dict_get_default_def dict_set_def race_wall_unknown)
qed

theorem interleaving_refines_whole_handlers_witness:
  "\<exists>r ps. run_schedule False overlapping_schedule (race_init 10000000000 race_wall) = Some r \<and>
    r_out r = Some [(record_trace sample_frame, 1), (unknown_trace, 999)] \<and>
    map_option fst (wall_profile sample_runtime ps 10000000000 race_wall) = race_result sample_runtime r"
proof -
  obtain r where r: "run_schedule False overlapping_schedule (race_init 10000000000 race_wall) = Some r" "r_poll r = PReset"
    "patient False overlapping_schedule (race_init 10000000000 race_wall)"
    "r_out r = Some [(record_trace sample_frame, 1), (unknown_trace, 999)]"
    using overlapping_run by blast
  have w: "0 < w_period_sec race_wall" unfolding race_wall_facts(1) by simp
  obtain x where x: "race_result sample_runtime r = Some x" using r(2,4) by (simp add: race_result_def)
  from interleaving_refines_whole_handlers [OF r(1) x r(3) race_wall_facts(2,3) w] r(1,4) x show ?thesis by auto
qed

end
