(* ===== verification/PyRegex.thy ===== *)
theory PyRegex
  imports Prelude
begin

text \<open>
  The part of Python's \<open>re\<close> that the agent and its build script use: a backtracking matcher
  that lists the end positions of the matches of an expression at a position, in the order in
  which the engine tries them, so that the first is the one Python reports.
\<close>

section \<open>Expressions and the matcher\<close>

datatype re =
    Start
  | LineStart
  | End
  | Cls "(char \<times> char) list"
  | AnyChar
  | Cat re re
  | Repeat nat nat re
  | Many re

text \<open>Characters are compared by their code.\<close>

definition code_of :: "char \<Rightarrow> nat" where
  "code_of c = of_char c"

fun in_class :: "(char \<times> char) list \<Rightarrow> char \<Rightarrow> bool" where
  "in_class rs c = (\<exists>r \<in> set rs. code_of (fst r) \<le> code_of c \<and> code_of c \<le> code_of (snd r))"

definition newline :: char where
  "newline = CHR 0x0A"

text \<open>
  Greedy repetition: one more copy is tried before stopping, and the copies are bounded by
  \<open>hi\<close>. The unbounded star is bounded by the characters left, which is no restriction for the
  one-character bodies it is applied to.
\<close>

primrec greedy :: "(nat \<Rightarrow> nat list) \<Rightarrow> nat \<Rightarrow> nat \<Rightarrow> nat \<Rightarrow> nat list" where
  "greedy m 0 lo i = (if lo = 0 then [i] else [])"
| "greedy m (Suc hi) lo i =
     concat (map (greedy m hi (lo - 1)) (m i)) @ (if lo = 0 then [i] else [])"

primrec matches :: "re \<Rightarrow> string \<Rightarrow> nat \<Rightarrow> nat list" where
  "matches Start s i = (if i = 0 then [i] else [])"
| "matches LineStart s i = (if i = 0 \<or> i \<le> length s \<and> s ! (i - 1) = newline then [i] else [])"
| "matches End s i = (if i = length s \<or> Suc i = length s \<and> s ! i = newline then [i] else [])"
| "matches (Cls rs) s i = (if i < length s \<and> in_class rs (s ! i) then [Suc i] else [])"
| "matches AnyChar s i = (if i < length s \<and> s ! i \<noteq> newline then [Suc i] else [])"
| "matches (Cat a b) s i = concat (map (matches b s) (matches a s i))"
| "matches (Repeat lo hi a) s i = greedy (matches a s) hi lo i"
| "matches (Many a) s i = greedy (matches a s) (length s - i) 0 i"

text \<open>\<open>pattern.match(s)\<close> succeeds.\<close>

definition re_match :: "re \<Rightarrow> string \<Rightarrow> bool" where
  "re_match r s \<longleftrightarrow> matches r s 0 \<noteq> []"

section \<open>Literals\<close>

fun cat :: "re list \<Rightarrow> re" where
  "cat [] = Repeat 0 0 AnyChar"
| "cat [r] = r"
| "cat (r # rs) = Cat r (cat rs)"

definition Lit :: "char \<Rightarrow> re" where
  "Lit c = Cls [(c, c)]"

definition literal :: "string \<Rightarrow> re" where
  "literal w = cat (map Lit w)"

lemma code_of_inject [simp]: "code_of c = code_of d \<longleftrightarrow> c = d"
  by (simp add: code_of_def)

lemma in_class_single [simp]: "in_class [(c, c)] d \<longleftrightarrow> d = c"
  by (auto simp: code_of_inject [symmetric] simp del: code_of_inject)

declare in_class.simps [simp del]

lemma matches_Lit: "matches (Lit c) s i = (if i < length s \<and> s ! i = c then [Suc i] else [])"
  by (simp add: Lit_def)

lemma matches_literal:
  assumes "w \<noteq> []"
  shows "matches (literal w) s i =
    (if i + length w \<le> length s \<and> take (length w) (drop i s) = w then [i + length w] else [])"
  using assms
proof (induction w arbitrary: i)
  case (Cons c w)
  show ?case
  proof (cases "w = []")
    case True
    then show ?thesis
      by (cases "i < length s") (auto simp: literal_def matches_Lit Cons_nth_drop_Suc [symmetric])
  next
    case False
    then obtain d v where w: "w = d # v" by (cases w) auto
    have "literal (c # w) = Cat (Lit c) (literal w)" by (simp add: literal_def w)
    then show ?thesis using Cons.IH [OF False]
      by (cases "i < length s") (auto simp: matches_Lit Cons_nth_drop_Suc [symmetric])
  qed
qed simp

section \<open>Repetition of a one-character expression\<close>

text \<open>An expression that reads one character satisfying a predicate.\<close>

definition reads :: "re \<Rightarrow> string \<Rightarrow> (char \<Rightarrow> bool) \<Rightarrow> bool" where
  "reads r s P \<longleftrightarrow> (\<forall>i. matches r s i = (if i < length s \<and> P (s ! i) then [Suc i] else []))"

lemma reads_Cls: "reads (Cls rs) s (in_class rs)"
  by (simp add: reads_def)

lemma reads_AnyChar: "reads AnyChar s (\<lambda>c. c \<noteq> newline)"
  by (simp add: reads_def)

lemma set_greedy:
  assumes "reads r s P" "lo \<le> hi"
  shows "j \<in> set (greedy (matches r s) hi lo i) \<longleftrightarrow>
    i + lo \<le> j \<and> j \<le> i + hi \<and> (j \<le> length s \<or> j = i) \<and> (\<forall>k \<in> {i..<j}. P (s ! k))"
  using assms(2)
proof (induction hi arbitrary: lo i)
  case 0
  then show ?case by auto
next
  case (Suc hi)
  show ?case
  proof (cases "i < length s \<and> P (s ! i)")
    case True
    then have step: "matches r s i = [Suc i]" using assms(1) by (simp add: reads_def)
    have mem: "j \<in> set (greedy (matches r s) (Suc hi) lo i) \<longleftrightarrow>
        j \<in> set (greedy (matches r s) hi (lo - 1) (Suc i)) \<or> lo = 0 \<and> j = i"
      by (auto simp: step)
    have "lo - 1 \<le> hi" using Suc.prems by simp
    note IH = Suc.IH [OF this, of "Suc i"]
    show ?thesis
    proof (cases "j \<le> i")
      case True
      then show ?thesis unfolding mem IH by auto
    next
      case False
      then have "{i..<j} = insert i {Suc i..<j}" by auto
      with False True show ?thesis unfolding mem IH using \<open>i < length s \<and> P (s ! i)\<close> by auto
    qed
  next
    case False
    then have none: "matches r s i = []" using assms(1) by (simp add: reads_def)
    show ?thesis
    proof
      assume "j \<in> set (greedy (matches r s) (Suc hi) lo i)"
      then show "i + lo \<le> j \<and> j \<le> i + Suc hi \<and> (j \<le> length s \<or> j = i) \<and> (\<forall>k \<in> {i..<j}. P (s ! k))"
        by (simp add: none split: if_splits)
    next
      assume r: "i + lo \<le> j \<and> j \<le> i + Suc hi \<and> (j \<le> length s \<or> j = i) \<and> (\<forall>k \<in> {i..<j}. P (s ! k))"
      with False have "j = i"
        by (metis add_leE atLeastLessThan_iff le_neq_implies_less le_refl order_less_le_trans)
      with r show "j \<in> set (greedy (matches r s) (Suc hi) lo i)" by (simp add: none)
    qed
  qed
qed

end
