(* ===== verification/ServiceName.thy ===== *)
theory ServiceName
  imports PyRegex
begin

text \<open>
  The check of the service name in \<open>client.py\<close>: the regular expression as the code compiles
  it, and what it accepts.
\<close>

definition alnum :: "(char \<times> char) list" where
  "alnum = [(CHR ''a'', CHR ''z''), (CHR ''0'', CHR ''9'')]"

definition name_char :: "(char \<times> char) list" where
  "name_char = [(CHR ''-'', CHR ''-''), (CHR ''a'', CHR ''z''), (CHR ''0'', CHR ''9''),
     (CHR ''_'', CHR ''_''), (CHR ''.'', CHR ''.'')]"

definition service_re :: re where
  "service_re = cat [Start, Cls alnum, Repeat 0 1 (Cat (Repeat 0 253 (Cls name_char)) (Cls alnum)), End]"

text \<open>The intended contract, as the documentation states it.\<close>

definition valid_service :: "string \<Rightarrow> bool" where
  "valid_service s \<longleftrightarrow> s \<noteq> [] \<and> length s \<le> 255 \<and> in_class alnum (hd s) \<and> in_class alnum (last s) \<and>
     (\<forall>c \<in> set s. in_class name_char c)"

lemma alnum_name_char: "in_class alnum c \<Longrightarrow> in_class name_char c"
  by (auto simp: in_class.simps alnum_def name_char_def)

lemma newline_not_alnum: "\<not> in_class alnum newline"
  by code_simp

lemma newline_not_name_char: "\<not> in_class name_char newline"
  by code_simp

text \<open>Where the part between the anchors can end.\<close>

definition name_ends :: "string \<Rightarrow> nat \<Rightarrow> bool" where
  "name_ends s j \<longleftrightarrow> 1 \<le> j \<and> j \<le> length s \<and> valid_service (take j s)"

lemma middle_ends:
  "j \<in> set (matches (Cat (Repeat 0 253 (Cls name_char)) (Cls alnum)) s 1) \<longleftrightarrow>
    2 \<le> j \<and> j \<le> 255 \<and> j \<le> length s \<and> in_class alnum (s ! (j - 1)) \<and>
    (\<forall>k \<in> {1..<j - 1}. in_class name_char (s ! k))"
proof -
  have "j \<in> set (matches (Cat (Repeat 0 253 (Cls name_char)) (Cls alnum)) s 1) \<longleftrightarrow>
    (\<exists>e \<in> set (greedy (matches (Cls name_char) s) 253 0 1). e < length s \<and> in_class alnum (s ! e) \<and> j = Suc e)"
    by auto
  also have "\<dots> \<longleftrightarrow> (\<exists>e. 1 \<le> e \<and> e \<le> 254 \<and> (\<forall>k \<in> {1..<e}. in_class name_char (s ! k)) \<and>
    e < length s \<and> in_class alnum (s ! e) \<and> j = Suc e)"
    unfolding Bex_def set_greedy [OF reads_Cls, of 0 253, simplified] by auto
  also have "\<dots> \<longleftrightarrow> 2 \<le> j \<and> j \<le> 255 \<and> j \<le> length s \<and> in_class alnum (s ! (j - 1)) \<and>
    (\<forall>k \<in> {1..<j - 1}. in_class name_char (s ! k))"
    by (cases j) auto
  finally show ?thesis .
qed

lemma valid_service_take:
  assumes "1 \<le> j" "j \<le> length s"
  shows "valid_service (take j s) \<longleftrightarrow> j \<le> 255 \<and> in_class alnum (s ! 0) \<and> in_class alnum (s ! (j - 1)) \<and>
    (\<forall>k \<in> {1..<j - 1}. in_class name_char (s ! k))"
proof -
  have ne: "s \<noteq> []" "take j s \<noteq> []" using assms by auto
  have hd: "hd (take j s) = s ! 0" using ne assms by (simp add: hd_conv_nth)
  have lst: "last (take j s) = s ! (j - 1)" using ne assms by (simp add: last_conv_nth)
  have set: "set (take j s) = (\<lambda>k. s ! k) ` {0..<j}" using assms by (simp add: nth_image)
  have ivl: "{0..<j} = insert 0 (insert (j - 1) {1..<j - 1})" using assms(1) by auto
  show ?thesis
    unfolding valid_service_def hd lst set ivl
    using ne(2) assms alnum_name_char by auto
qed

lemma opt_ends:
  assumes "s \<noteq> []" "in_class alnum (s ! 0)"
  shows "j \<in> set (matches (Repeat 0 1 (Cat (Repeat 0 253 (Cls name_char)) (Cls alnum))) s 1) \<longleftrightarrow> name_ends s j"
proof -
  have "j \<in> set (matches (Repeat 0 1 (Cat (Repeat 0 253 (Cls name_char)) (Cls alnum))) s 1) \<longleftrightarrow>
    j \<in> set (matches (Cat (Repeat 0 253 (Cls name_char)) (Cls alnum)) s 1) \<or> j = 1"
    by auto
  also have "\<dots> \<longleftrightarrow> name_ends s j"
  proof (cases "1 \<le> j \<and> j \<le> length s")
    case True
    then show ?thesis unfolding middle_ends name_ends_def
      using assms valid_service_take [of j s] by (cases "j = 1") auto
  next
    case False
    then show ?thesis unfolding middle_ends name_ends_def using assms(1) by (cases s) auto
  qed
  finally show ?thesis .
qed

lemma service_re_ends:
  "re_match service_re s \<longleftrightarrow> s \<noteq> [] \<and> in_class alnum (s ! 0) \<and>
    (\<exists>j. name_ends s j \<and> (j = length s \<or> Suc j = length s \<and> s ! j = newline))"
proof (cases "s \<noteq> [] \<and> in_class alnum (s ! 0)")
  case True
  let ?o = "Repeat 0 1 (Cat (Repeat 0 253 (Cls name_char)) (Cls alnum))"
  have "matches service_re s 0 = concat (map (matches End s) (matches ?o s 1))"
    using True by (simp add: service_re_def del: matches.simps(7))
  then have "re_match service_re s \<longleftrightarrow> (\<exists>j \<in> set (matches ?o s 1). j = length s \<or> Suc j = length s \<and> s ! j = newline)"
    by (auto simp: re_match_def simp del: matches.simps(7))
  then show ?thesis using opt_ends [of s] True by (auto simp del: matches.simps(7))
next
  case False
  then show ?thesis by (auto simp: re_match_def service_re_def)
qed

lemma service_re_accepts:
  "re_match service_re s \<longleftrightarrow> valid_service s \<or> (\<exists>t. s = t @ [newline] \<and> valid_service t)"
proof
  assume "re_match service_re s"
  then obtain j where j: "name_ends s j" "j = length s \<or> Suc j = length s \<and> s ! j = newline"
    unfolding service_re_ends by blast
  from j(2) show "valid_service s \<or> (\<exists>t. s = t @ [newline] \<and> valid_service t)"
  proof
    assume "j = length s"
    with j(1) show ?thesis by (simp add: name_ends_def)
  next
    assume e: "Suc j = length s \<and> s ! j = newline"
    then have "s = take j s @ [newline]"
      by (metis append_take_drop_id Cons_nth_drop_Suc drop_all le_refl lessI)
    with j(1) show ?thesis by (auto simp: name_ends_def)
  qed
next
  assume "valid_service s \<or> (\<exists>t. s = t @ [newline] \<and> valid_service t)"
  then show "re_match service_re s"
  proof
    assume v: "valid_service s"
    then have "name_ends s (length s)" by (cases s) (auto simp: name_ends_def valid_service_def)
    with v show ?thesis unfolding service_re_ends by (auto simp: valid_service_def hd_conv_nth)
  next
    assume "\<exists>t. s = t @ [newline] \<and> valid_service t"
    then obtain t where t: "s = t @ [newline]" "valid_service t" by blast
    then have "name_ends s (length t)" by (cases t) (auto simp: name_ends_def valid_service_def)
    with t show ?thesis unfolding service_re_ends
      by (auto simp: valid_service_def hd_conv_nth nth_append)
  qed
qed

section \<open>Properties\<close>

text \<open>
  C17: the expression accepts exactly the names of 1 to 255 characters from the lower-case
  letters, the digits, \<open>-\<close>, \<open>_\<close> and \<open>.\<close> that start and end with a letter or digit, and such
  names followed by one newline, because \<open>$\<close> also matches before a final newline.
\<close>

theorem service_re_language:
  "re_match service_re s = (valid_service s \<or> (\<exists>t. s = t @ [newline] \<and> valid_service t))"
  by (rule service_re_accepts)

end
