(* ===== verification/CpuProfiler.thy ===== *)
theory CpuProfiler
  imports BuilderSpec
begin

text \<open>
  \<open>cpu_profiler.py\<close>: the CPU-time profiler. The samples come from the native extension, whose
  entry point \<open>_profiler.profile_cpu\<close> is an argument here; its C++ side is the subject of the
  theories on the native code.
\<close>

record cpu =
  cpu_profile_type :: string
  cpu_period_ms :: int

definition CPUProfiler_init :: "int \<Rightarrow> cpu" where
  "CPUProfiler_init period_ms = \<lparr>cpu_profile_type = ''CPU'', cpu_period_ms = period_ms\<rparr>"

type_synonym native_profile = "int \<Rightarrow> int \<Rightarrow> (trace, int) dict res"

definition cpu_collect :: "native_profile \<Rightarrow> int \<Rightarrow> cpu \<Rightarrow> (trace, int) dict res" where
  "cpu_collect profile_cpu duration_ns c = profile_cpu duration_ns (cpu_period_ms c)"

definition cpu_build_profile :: "pb_runtime \<Rightarrow> int \<Rightarrow> (trace, int) dict \<Rightarrow> cpu \<Rightarrow> bytes res" where
  "cpu_build_profile rt duration_ns traces c =
     build_profile rt traces (cpu_profile_type c) ''nanoseconds'' (cpu_period_ms c * 1000 * 1000) duration_ns"

definition cpu_profile :: "pb_runtime \<Rightarrow> native_profile \<Rightarrow> int \<Rightarrow> cpu \<Rightarrow> bytes res" where
  "cpu_profile rt profile_cpu duration_ns c =
     res_bind (cpu_collect profile_cpu duration_ns c) (\<lambda>traces. cpu_build_profile rt duration_ns traces c)"

end
