(* ===== verification/Client.thy ===== *)
theory Client
  imports ServiceName Json CpuProfiler WallProfiler Backoff
begin

text \<open>
  \<open>client.py\<close>: the client object, its configuration, the creation of profiles and their upload,
  and the polling thread. What the code asks its libraries and the system for (environment
  variables, HTTP responses, credentials, random numbers) is in the records \<open>host\<close> and
  \<open>answers\<close>.
\<close>

section \<open>The host\<close>

text \<open>
  \<open>h_metadata\<close> is \<open>requests.get\<close>: status code and text, or an exception. The credential calls
  return the project of the default credentials, or the exception; \<open>h_json_file\<close> is reading and
  decoding a file.
\<close>

record host =
  h_platform :: string
  h_version :: "nat \<times> nat"
  h_getenv :: "string \<Rightarrow> string option"
  h_metadata :: "string \<Rightarrow> (string, string) dict \<Rightarrow> (int \<times> string) res"
  h_account_file :: "string \<Rightarrow> unit res"
  h_json_file :: "string \<Rightarrow> json res"
  h_default_auth :: "json res"
  h_discovery_uri :: string
  h_main_thread :: bool

section \<open>The client object\<close>

datatype profiler = Cpu cpu | Wall wall

text \<open>Credentials, with the scopes they were asked for.\<close>

datatype credentials = FileCredentials string "string list" | DefaultCredentials "string list"

record client =
  c_backoff :: backoff
  c_log_filter :: bool
  c_started :: bool
  c_service :: bool
  c_credentials :: "credentials option"
  c_profilers :: "(string, profiler) dict"
  c_deployment :: json
  c_profile_labels :: "(string, string) dict"
  c_discovery_service_url :: string
  c_threads :: nat

definition Client_init :: client where
  "Client_init = \<lparr>c_backoff = default_backoff, c_log_filter = True, c_started = False,
     c_service = False, c_credentials = None, c_profilers = [], c_deployment = JNull,
     c_profile_labels = [], c_discovery_service_url = '''', c_threads = 0\<rparr>"

section \<open>Metadata and credentials\<close>

definition SCOPE :: "string list" where
  "SCOPE = [''https://www.googleapis.com/auth/monitoring.write'']"

definition GCE_METADATA_URL :: string where
  "GCE_METADATA_URL = ''http://metadata/computeMetadata/v1/''"

definition GCE_METADATA_HEADERS :: "(string, string) dict" where
  "GCE_METADATA_HEADERS = [(''Metadata-Flavor'', ''Google'')]"

definition SERVICE_VERSION_LABEL :: string where
  "SERVICE_VERSION_LABEL = ''version''"

definition INSTANCE_LABEL :: string where
  "INSTANCE_LABEL = ''instance''"

definition ZONE_LABEL :: string where
  "ZONE_LABEL = ''zone''"

definition LANGUAGE_LABEL :: string where
  "LANGUAGE_LABEL = ''language''"

declare SERVICE_VERSION_LABEL_def [simp] and INSTANCE_LABEL_def [simp] and ZONE_LABEL_def [simp]
  and LANGUAGE_LABEL_def [simp] and GCE_METADATA_URL_def [simp]

definition retrieve_gce_metadata :: "host \<Rightarrow> string \<Rightarrow> string option" where
  "retrieve_gce_metadata h metadata_key =
     (case h_metadata h (GCE_METADATA_URL @ metadata_key) GCE_METADATA_HEADERS of
        Inr (status, text) \<Rightarrow> if status = 200 then Some text else None
      | Inl _ \<Rightarrow> None)"

text \<open>A string or \<open>None\<close> as a JSON value, the truth of an optional string, and \<open>or\<close>.\<close>

definition json_of_opt :: "string option \<Rightarrow> json" where
  "json_of_opt s = (case s of None \<Rightarrow> JNull | Some t \<Rightarrow> JStr t)"

definition str_truthy :: "string option \<Rightarrow> bool" where
  "str_truthy s \<longleftrightarrow> s \<noteq> None \<and> s \<noteq> Some ''''"

definition str_or :: "string option \<Rightarrow> string option \<Rightarrow> string option" where
  "str_or s t = (if str_truthy s then s else t)"

text \<open>
  The project ID may come out of a JSON file, so it is a JSON value until it is used.
\<close>

definition setup_auth :: "host \<Rightarrow> string option \<Rightarrow> string option \<Rightarrow> (client, json) py" where
  "setup_auth h project_id json_file =
     (if str_truthy json_file then
        py_bind (py_lift (h_account_file h (the json_file))) (\<lambda>_.
        py_bind (py_set (\<lambda>c. c\<lparr>c_credentials := Some (FileCredentials (the json_file) SCOPE)\<rparr>)) (\<lambda>_.
        if str_truthy project_id then py_return (json_of_opt project_id)
        else py_bind (py_lift (h_json_file h (the json_file))) (\<lambda>content.
          py_lift (json_get content ''project_id'' JNull))))
      else
        py_bind (py_lift (h_default_auth h)) (\<lambda>credentials_project_id.
        py_bind (py_set (\<lambda>c. c\<lparr>c_credentials := Some (DefaultCredentials SCOPE)\<rparr>)) (\<lambda>_.
        py_return (if str_truthy project_id then json_of_opt project_id else credentials_project_id))))"

section \<open>Configuration\<close>

definition config_cpu_profiling :: "host \<Rightarrow> bool \<Rightarrow> int \<Rightarrow> (client, unit) py" where
  "config_cpu_profiling h disable period_ms =
     (if \<not> starts_with (h_platform h) ''linux'' then py_return ()
      else if disable then py_return ()
      else py_set (\<lambda>c. c\<lparr>c_profilers := dict_set (c_profilers c) ''CPU'' (Cpu (CPUProfiler_init period_ms))\<rparr>))"

definition config_wall_profiling :: "bool \<Rightarrow> int \<Rightarrow> (client, unit) py" where
  "config_wall_profiling disable period_ms =
     (if disable then py_return ()
      else py_set (\<lambda>c. c\<lparr>c_profilers := dict_set (c_profilers c) ''WALL'' (Wall (WallProfiler_init period_ms))\<rparr>))"

text \<open>\<open>s.split('/')\<close>: always at least one piece.\<close>

fun split_slash :: "string \<Rightarrow> string list" where
  "split_slash [] = [[]]"
| "split_slash (c # s) = (if c = CHR ''/'' then [] # split_slash s
     else case split_slash s of [] \<Rightarrow> [[c]] | p # ps \<Rightarrow> (c # p) # ps)"

text \<open>The labels of the deployment, in the order the code adds them.\<close>

definition deployment_labels :: "host \<Rightarrow> string option \<Rightarrow> (string, json) dict" where
  "deployment_labels h service_version =
     (let labels = [(LANGUAGE_LABEL, JStr ''python'')];
          version = str_or (str_or service_version (h_getenv h ''GAE_VERSION'')) (h_getenv h ''K_REVISION'');
          labels1 = (if str_truthy version then dict_set labels SERVICE_VERSION_LABEL (JStr (the version)) else labels);
          zone = retrieve_gce_metadata h ''instance/zone''
      in if str_truthy zone then dict_set labels1 ZONE_LABEL (JStr (last (split_slash (the zone)))) else labels1)"

definition config :: "host \<Rightarrow> json \<Rightarrow> string option \<Rightarrow> string option \<Rightarrow> bool \<Rightarrow> bool \<Rightarrow> int
    \<Rightarrow> string option \<Rightarrow> (client, unit) py" where
  "config h project_id service service_version disable_cpu disable_wall period_ms discovery_url =
     py_bind (py_set (\<lambda>c. c\<lparr>c_profilers := []\<rparr>)) (\<lambda>_.
     py_bind (config_cpu_profiling h disable_cpu period_ms) (\<lambda>_.
     py_bind (config_wall_profiling disable_wall period_ms) (\<lambda>_.
     py_bind (py_get c_profilers) (\<lambda>profilers.
     if profilers = [] then py_raise ValueError else
     let project = (if json_truthy project_id then project_id
                    else json_of_opt (retrieve_gce_metadata h ''project/project-id'')) in
     if \<not> json_truthy project then py_raise ValueError else
     let service = str_or (str_or service (h_getenv h ''GAE_SERVICE'')) (h_getenv h ''K_SERVICE'') in
     if \<not> str_truthy service then py_raise ValueError else
     if \<not> re_match service_re (the service) then py_raise ValueError else
     py_bind (py_set (\<lambda>c. c\<lparr>c_deployment := JObj [(''projectId'', project), (''target'', JStr (the service)),
        (''labels'', JObj (deployment_labels h service_version))]\<rparr>)) (\<lambda>_.
     py_bind (py_set (\<lambda>c. c\<lparr>c_profile_labels :=
        (case retrieve_gce_metadata h ''instance/name'' of
           Some i \<Rightarrow> if i \<noteq> '''' then [(INSTANCE_LABEL, i)] else [] | None \<Rightarrow> [])\<rparr>)) (\<lambda>_.
     py_set (\<lambda>c. c\<lparr>c_discovery_service_url :=
        (if str_truthy discovery_url then the discovery_url else h_discovery_uri h)\<rparr>)))))))"

section \<open>Starting the polling thread\<close>

definition client_start :: "host \<Rightarrow> (client, unit) py" where
  "client_start h = py_bind (py_get c_started) (\<lambda>started.
     if started then py_return () else
     py_bind (py_get (\<lambda>c. dict_get (c_profilers c) ''WALL'')) (\<lambda>p.
     py_bind (case p of
         Some (Wall w) \<Rightarrow> (case register_handler (h_main_thread h) w of (r, w') \<Rightarrow>
           py_bind (py_set (\<lambda>c. c\<lparr>c_profilers := dict_set (c_profilers c) ''WALL'' (Wall w')\<rparr>)) (\<lambda>_. py_lift r))
       | Some (Cpu _) \<Rightarrow> py_raise AttributeError
       | None \<Rightarrow> py_return ()) (\<lambda>_.
     py_set (\<lambda>c. c\<lparr>c_threads := c_threads c + 1\<rparr>))))"

end
