(* ===== verification/Base64.thy ===== *)
theory Base64
  imports ProfileProto
begin

text \<open>
  \<open>base64.b64encode(data).decode('UTF-8')\<close>, which the agent applies to a profile before the
  upload: groups of three bytes become four characters, the last group is padded. The decoder
  is the reader's side and serves to state that nothing is lost.
\<close>

definition alphabet :: string where
  "alphabet = ''ABCDEFGHIJKLMNOPQRSTUVWXYZabcdefghijklmnopqrstuvwxyz0123456789+/''"

definition digit64 :: "nat \<Rightarrow> char" where
  "digit64 n = alphabet ! n"

fun b64encode :: "bytes \<Rightarrow> string" where
  "b64encode [] = []"
| "b64encode [a] = (let n = unat a * 16 in [digit64 (n div 64), digit64 (n mod 64), CHR ''='', CHR ''=''])"
| "b64encode [a, b] = (let n = (unat a * 256 + unat b) * 4 in
     [digit64 (n div 4096), digit64 (n div 64 mod 64), digit64 (n mod 64), CHR ''=''])"
| "b64encode (a # b # c # rest) = (let n = (unat a * 256 + unat b) * 256 + unat c in
     digit64 (n div 262144) # digit64 (n div 4096 mod 64) # digit64 (n div 64 mod 64) # digit64 (n mod 64)
       # b64encode rest)"

fun value64_in :: "string \<Rightarrow> char \<Rightarrow> nat" where
  "value64_in [] c = 0"
| "value64_in (d # ds) c = (if c = d then 0 else Suc (value64_in ds c))"

definition value64 :: "char \<Rightarrow> nat" where
  "value64 = value64_in alphabet"

fun b64decode :: "string \<Rightarrow> bytes" where
  "b64decode (p # q # r # s # rest) =
     (if s = CHR ''='' then
        if r = CHR ''='' then [of_nat ((value64 p * 64 + value64 q) div 16)]
        else let n = ((value64 p * 64 + value64 q) * 64 + value64 r) div 4 in [of_nat (n div 256), of_nat (n mod 256)]
      else let n = ((value64 p * 64 + value64 q) * 64 + value64 r) * 64 + value64 s in
        of_nat (n div 65536) # of_nat (n div 256 mod 256) # of_nat (n mod 256) # b64decode rest)"
| "b64decode _ = []"

lemma alphabet_length: "length alphabet = 64"
  by code_simp

lemma alphabet_distinct: "distinct alphabet"
  by code_simp

lemma pad_not_digit: "n < 64 \<Longrightarrow> digit64 n \<noteq> CHR ''=''"
proof -
  assume "n < 64"
  then have "digit64 n \<in> set alphabet" by (simp add: digit64_def alphabet_length)
  moreover have "CHR ''='' \<notin> set alphabet" by code_simp
  ultimately show ?thesis by auto
qed

lemma value64_in_nth: "distinct ds \<Longrightarrow> n < length ds \<Longrightarrow> value64_in ds (ds ! n) = n"
proof (induction ds arbitrary: n)
  case (Cons d ds)
  then show ?case by (cases n) auto
qed simp

lemma value64_digit64 [simp]: "n < 64 \<Longrightarrow> value64 (digit64 n) = n"
  by (simp add: value64_def digit64_def value64_in_nth alphabet_distinct alphabet_length)

lemma unat_byte [simp]: "unat (a :: 8 word) < 256"
  using unsigned_less [of a] by simp

lemma of_nat_unat_byte: "n = unat (a :: 8 word) \<Longrightarrow> of_nat n = a"
  by simp

lemma push_byte:
  fixes x y :: nat
  assumes "y < 256" shows "(x * 256 + y) div 256 = x" "(x * 256 + y) mod 256 = y"
  using assms by simp_all

lemma b64_three:
  fixes a b c :: "8 word"
  assumes "n = (unat a * 256 + unat b) * 256 + unat c"
  shows "n div 262144 < 64" "n div 65536 = unat a" "n div 256 mod 256 = unat b" "n mod 256 = unat c"
    "((n div 262144 * 64 + n div 4096 mod 64) * 64 + n div 64 mod 64) * 64 + n mod 64 = n"
proof -
  have n1: "n div 256 = unat a * 256 + unat b" "n mod 256 = unat c"
    unfolding assms by (simp_all only: push_byte unat_byte)
  then show "n mod 256 = unat c" "n div 256 mod 256 = unat b"
    by (simp_all only: push_byte unat_byte)
  have "n div 65536 = n div 256 div 256" by (simp add: div_mult2_eq [symmetric])
  then show d: "n div 65536 = unat a" by (simp only: n1 push_byte unat_byte)
  have "n div 262144 = n div 65536 div 4" by (simp add: div_mult2_eq [symmetric])
  then show "n div 262144 < 64" using unat_byte [of a] less_mult_imp_div_less [of "unat a" 64 4] d by simp
  have "n div 4096 = n div 64 div 64" "n div 262144 = n div 64 div 64 div 64" by (simp_all add: div_mult2_eq [symmetric])
  then show "((n div 262144 * 64 + n div 4096 mod 64) * 64 + n div 64 mod 64) * 64 + n mod 64 = n"
    by (metis div_mult_mod_eq)
qed

lemma b64decode_encode: "b64decode (b64encode xs) = xs"
proof (induction xs rule: b64encode.induct)
  case (2 a)
  have "unat a * 16 < 64 * 64" using unat_byte [of a] by linarith
  then have "unat a * 16 div 64 < 64" by (rule less_mult_imp_div_less)
  moreover have "(unat a * 16 div 64 * 64 + unat a * 16 mod 64) div 16 = unat a"
    by (simp only: div_mult_mod_eq)
  ultimately show ?case by (simp add: Let_def)
next
  case (3 a b)
  let ?n = "(unat a * 256 + unat b) * 4"
  have b: "unat a < 256" "unat b < 256" by simp_all
  have "x < 256 \<Longrightarrow> y < 256 \<Longrightarrow> (x * 256 + y) * 4 < 64 * 4096" for x y :: nat by presburger
  from this [OF b] have "?n < 64 * 4096" .
  then have q: "?n div 4096 < 64" by (rule less_mult_imp_div_less)
  have "?n div 4096 = ?n div 64 div 64" by (simp add: div_mult2_eq [symmetric])
  then have n: "(?n div 4096 * 64 + ?n div 64 mod 64) * 64 + ?n mod 64 = ?n"
    by (metis div_mult_mod_eq)
  have "?n div 4 div 256 = unat a" "?n div 4 mod 256 = unat b" using b by simp_all
  with q show ?case by (simp only: b64encode.simps Let_def b64decode.simps value64_digit64 n mod_less_divisor
        pad_not_digit if_True if_False zero_less_numeral simp_thms) simp
next
  case (4 a b c rest)
  let ?n = "(unat a * 256 + unat b) * 256 + unat c"
  note n = b64_three [OF refl, of a b c]
  show ?case
    by (simp only: b64encode.simps Let_def b64decode.simps value64_digit64 n mod_less_divisor
        pad_not_digit if_False zero_less_numeral simp_thms "4.IH") simp
qed simp

end
