(* ===== verification/ClientPoll.thy ===== *)
theory ClientPoll
  imports Client Base64
begin

text \<open>
  The polling thread of \<open>client.py\<close> as a state machine: each step is one attempt to build the
  service, one attempt to create a profile, or one collection, and consumes the answers of the
  environment for it. An exception that leaves the thread's function ends the thread.
\<close>

section \<open>States, answers and actions\<close>

datatype poll = Building backoff | Creating | Collecting json | Dead pyerr

text \<open>The call that builds the discovery client: the service, and what it is to use.\<close>

record discovery_call =
  dc_service :: string
  dc_version :: string
  dc_timeout_sec :: int
  dc_credentials :: "credentials option"
  dc_cache_discovery :: bool
  dc_discovery_url :: string

definition PROFILER_SERVICE_TIMEOUT_SEC :: int where
  "PROFILER_SERVICE_TIMEOUT_SEC = 60 * 60"

text \<open>
  \<open>a_build\<close> is the outcome of that call; \<open>a_create\<close> is the outcome of the call for a new profile, an exception or a response;
  \<open>a_profile\<close> runs a profiler for a duration in nanoseconds.
\<close>

record answers =
  a_random :: pyfloat
  a_build :: "discovery_call \<Rightarrow> unit res"
  a_create :: "api_error + json"
  a_profile :: "profiler \<Rightarrow> int \<Rightarrow> bytes res \<times> profiler"
  a_patch :: "unit res"

datatype action = Slept pyfloat | Created string json | Patched json json

type_synonym parser = "json \<Rightarrow> (int \<times> int) res"

section \<open>Creating a profile\<close>

definition create_request :: "client \<Rightarrow> (string \<times> json) res" where
  "create_request c = res_bind (json_index (c_deployment c) ''projectId'') (\<lambda>pid.
     case pid of
       JStr s \<Rightarrow> Inr (''projects/'' @ s, JObj [(''profileType'', JArr (map (\<lambda>p. JStr (fst p)) (c_profilers c))),
         (''deployment'', c_deployment c)])
     | _ \<Rightarrow> Inl TypeError)"

text \<open>The state after the inner loop's test of \<open>profile\<close>.\<close>

definition after_create :: "json \<Rightarrow> poll" where
  "after_create profile = (if json_truthy profile then Collecting profile else Creating)"

text \<open>The handler of a failed creation: the wait, which is outside any \<open>try\<close>.\<close>

definition retry :: "parser \<Rightarrow> pyfloat \<Rightarrow> api_error \<Rightarrow> json \<Rightarrow> client \<Rightarrow> poll \<times> client \<times> action list" where
  "retry parse r err profile c =
     (let (d, b) = next_backoff parse r (Some err) (c_backoff c);
          c1 = c\<lparr>c_backoff := b\<rparr>
      in case time_sleep d of
           Inl e \<Rightarrow> (Dead e, c1, [])
         | Inr _ \<Rightarrow> (after_create profile, c1, [Slept d]))"

definition poll_create :: "parser \<Rightarrow> answers \<Rightarrow> client \<Rightarrow> poll \<times> client \<times> action list" where
  "poll_create parse a c =
     (case create_request c of
        Inl _ \<Rightarrow> retry parse (a_random a) ApiOtherError JNull c
      | Inr (parent, body) \<Rightarrow>
          (case a_create a of
             Inl err \<Rightarrow>
               (case retry parse (a_random a) err JNull c of (st, c1, acts) \<Rightarrow> (st, c1, Created parent body # acts))
           | Inr resp \<Rightarrow>
               (let c1 = c\<lparr>c_backoff := default_backoff\<rparr> in
                case json_index resp ''profileType'' of
                  Inl _ \<Rightarrow>
                    (case retry parse (a_random a) ApiOtherError resp c1 of
                       (st, c2, acts) \<Rightarrow> (st, c2, Created parent body # acts))
                | Inr _ \<Rightarrow> (after_create resp, c1, [Created parent body]))))"

section \<open>Collecting and uploading\<close>

text \<open>\<open>profile_type in self._profilers\<close>: a list or an object is not hashable.\<close>

definition lookup_profiler :: "json \<Rightarrow> client \<Rightarrow> (string \<times> profiler) option res" where
  "lookup_profiler ty c = (case ty of
       JStr s \<Rightarrow> Inr (case dict_get (c_profilers c) s of None \<Rightarrow> None | Some p \<Rightarrow> Some (s, p))
     | JArr _ \<Rightarrow> Inl TypeError
     | JObj _ \<Rightarrow> Inl TypeError
     | _ \<Rightarrow> Inr None)"

definition upload_body :: "json \<Rightarrow> bytes \<Rightarrow> (json \<times> json) res" where
  "upload_body profile profile_bytes =
     res_bind (json_set profile ''profileBytes'' (JStr (b64encode profile_bytes))) (\<lambda>body.
     res_bind (json_index body ''name'') (\<lambda>name. Inr (name, body)))"

text \<open>The body of the \<open>try\<close>, after the profile type is read.\<close>

definition collect_try :: "parser \<Rightarrow> answers \<Rightarrow> json \<Rightarrow> json \<Rightarrow> client \<Rightarrow> unit res \<times> client \<times> action list" where
  "collect_try parse a ty profile c =
     (case lookup_profiler ty c of
        Inl e \<Rightarrow> (Inl e, c, [])
      | Inr None \<Rightarrow> (Inr (), c, [])
      | Inr (Some (s, p)) \<Rightarrow>
          (case res_bind (json_index profile ''duration'') parse of
             Inl e \<Rightarrow> (Inl e, c, [])
           | Inr (secs, nanos) \<Rightarrow>
               (case a_profile a p (secs * NANOS_PER_SEC + nanos) of
                  (r, p1) \<Rightarrow>
                    (let c1 = c\<lparr>c_profilers := dict_set (c_profilers c) s p1\<rparr> in
                     case res_bind r (upload_body profile) of
                       Inl e \<Rightarrow> (Inl e, c1, [])
                     | Inr (name, body) \<Rightarrow> (a_patch a, c1, [Patched name body])))))"

text \<open>
  The whole method. The exception handler formats the profile type: when reading it was what
  failed, the variable is unbound and the handler itself raises.
\<close>

definition collect_and_upload_profile ::
  "parser \<Rightarrow> answers \<Rightarrow> json \<Rightarrow> client \<Rightarrow> unit res \<times> client \<times> action list" where
  "collect_and_upload_profile parse a profile c =
     (case json_index profile ''profileType'' of
        Inl _ \<Rightarrow> (Inl UnboundLocalError, c, [])
      | Inr ty \<Rightarrow> (case collect_try parse a ty profile c of (_, c1, acts) \<Rightarrow> (Inr (), c1, acts)))"

section \<open>The thread\<close>

definition build_service :: "answers \<Rightarrow> client \<Rightarrow> unit res" where
  "build_service a c = a_build a \<lparr>dc_service = ''cloudprofiler'', dc_version = ''v2'',
     dc_timeout_sec = PROFILER_SERVICE_TIMEOUT_SEC, dc_credentials = c_credentials c,
     dc_cache_discovery = False, dc_discovery_url = c_discovery_service_url c\<rparr>"

definition poll_start :: "client \<Rightarrow> poll" where
  "poll_start c = (if c_service c then Creating else Building default_backoff)"

fun poll_step :: "parser \<Rightarrow> answers \<Rightarrow> poll \<times> client \<Rightarrow> poll \<times> client \<times> action list" where
  "poll_step parse a (Building b, c) =
     (case build_service a c of
        Inr _ \<Rightarrow> (Creating, c\<lparr>c_service := True\<rparr>, [])
      | Inl _ \<Rightarrow>
          (let (d, b1) = next_backoff parse (a_random a) None b in
           case time_sleep d of
             Inl e \<Rightarrow> (Dead e, c, [])
           | Inr _ \<Rightarrow> (Building b1, c, [Slept d])))"
| "poll_step parse a (Creating, c) = poll_create parse a c"
| "poll_step parse a (Collecting profile, c) =
     (case collect_and_upload_profile parse a profile c of
        (Inl e, c1, acts) \<Rightarrow> (Dead e, c1, acts)
      | (Inr _, c1, acts) \<Rightarrow> (Creating, c1, acts))"
| "poll_step parse a (Dead e, c) = (Dead e, c, [])"

fun poll_run :: "parser \<Rightarrow> answers list \<Rightarrow> poll \<times> client \<Rightarrow> poll \<times> client \<times> action list" where
  "poll_run parse [] s = (fst s, snd s, [])"
| "poll_run parse (a # as) s =
     (case poll_step parse a s of (st, c, acts) \<Rightarrow>
        (case poll_run parse as (st, c) of (st1, c1, acts1) \<Rightarrow> (st1, c1, acts @ acts1)))"

end
