(* ===== verification/ClientSpec.thy ===== *)
theory ClientSpec
  imports ClientPoll
begin

text \<open>
  Correctness of the client: configuration, the polling thread's life, and the uploads.
\<close>

section \<open>The invariant of the polling thread\<close>

text \<open>Backoff objects are those the constructor makes, later grown.\<close>

definition standard_backoff :: "backoff \<Rightarrow> bool" where
  "standard_backoff b \<longleftrightarrow> wf_backoff b \<and> max_envelope_sec b = 3600"

lemma standard_default [simp]: "standard_backoff default_backoff"
  by (simp add: standard_backoff_def wf_default_backoff) (simp add: default_backoff_def Backoff_init_def)

lemma standard_next: "standard_backoff b \<Longrightarrow> standard_backoff (snd (next_backoff parse r e b))"
  by (simp add: standard_backoff_def wf_next_backoff)

text \<open>An error is harmless when the delay the server asks for, if any, can be slept.\<close>

definition harmless :: "parser \<Rightarrow> api_error option \<Rightarrow> bool" where
  "harmless parse e = (case e of Some (ApiHttpError body) \<Rightarrow>
     (case server_delay parse body of Inr (Some s) \<Rightarrow> time_sleep s = Inr () | _ \<Rightarrow> True) | _ \<Rightarrow> True)"

lemma sleep_next_backoff:
  assumes "standard_backoff b" "0 \<le> r" "r \<le> 1" "harmless parse e"
  shows "time_sleep (fst (next_backoff parse r e b)) = Inr ()"
proof (cases "no_server_delay parse e")
  case True
  obtain d b' where nb: "next_backoff parse r e b = (d, b')" by (cases "next_backoff parse r e b")
  from next_backoff_range [OF _ assms(2,3) True nb] assms(1) show ?thesis
    by (intro time_sleep_ok) (auto simp: nb standard_backoff_def)
next
  case False
  then obtain body s where "e = Some (ApiHttpError body)" "server_delay parse body = Inr (Some s)"
    by (auto simp: no_server_delay_def split: option.splits api_error.splits sum.splits)
  with assms(4) show ?thesis by (simp add: next_backoff_def harmless_def)
qed

text \<open>The environment keeps its side: draws in the unit interval, responses with a type, sane delays.\<close>

definition fair :: "parser \<Rightarrow> answers \<Rightarrow> bool" where
  "fair parse a \<longleftrightarrow> 0 \<le> a_random a \<and> a_random a \<le> 1 \<and>
     (case a_create a of Inl e \<Rightarrow> harmless parse (Some e)
      | Inr resp \<Rightarrow> (\<exists>ty. json_index resp ''profileType'' = Inr ty))"

definition typed :: "json \<Rightarrow> bool" where
  "typed profile \<longleftrightarrow> (\<exists>ty. json_index profile ''profileType'' = Inr ty)"

definition alive :: "poll \<times> client \<Rightarrow> bool" where
  "alive s \<longleftrightarrow> standard_backoff (c_backoff (snd s)) \<and>
     (case fst s of Building b \<Rightarrow> standard_backoff b | Creating \<Rightarrow> True
      | Collecting p \<Rightarrow> typed p | Dead e \<Rightarrow> False)"

lemma alive_after_create:
  assumes "standard_backoff (c_backoff c)" "typed p \<or> p = JNull"
  shows "alive (after_create p, c)"
  using assms by (auto simp: alive_def after_create_def)

lemma alive_retry:
  assumes "standard_backoff (c_backoff c)" "0 \<le> r" "r \<le> 1" "harmless parse (Some err)"
    and "typed p \<or> p = JNull"
  shows "alive (fst (retry parse r err p c), fst (snd (retry parse r err p c)))"
proof -
  obtain d b where nb: "next_backoff parse r (Some err) (c_backoff c) = (d, b)"
    by (cases "next_backoff parse r (Some err) (c_backoff c)")
  have "time_sleep d = Inr ()" using sleep_next_backoff [OF assms(1-4)] by (simp add: nb)
  moreover have "standard_backoff b" using standard_next [OF assms(1), of parse r "Some err"] by (simp add: nb)
  ultimately show ?thesis using assms(5) by (simp add: retry_def nb Let_def alive_after_create)
qed

lemma alive_create:
  assumes "standard_backoff (c_backoff c)" "fair parse a"
  shows "alive (fst (poll_create parse a c), fst (snd (poll_create parse a c)))"
proof (cases "create_request c")
  case (Inl e)
  then show ?thesis
    using alive_retry [OF assms(1), of "a_random a" parse ApiOtherError JNull] assms(2)
    by (simp add: poll_create_def fair_def harmless_def)
next
  case (Inr req)
  obtain parent body where req: "req = (parent, body)" by (cases req)
  show ?thesis
  proof (cases "a_create a")
    case (Inl err)
    then show ?thesis
      using alive_retry [OF assms(1), of "a_random a" parse err JNull] assms(2)
      by (simp add: poll_create_def fair_def Inr req case_prod_beta')
  next
    case (Inr resp)
    with assms(2) obtain ty where "json_index resp ''profileType'' = Inr ty" by (auto simp: fair_def)
    then show ?thesis
      by (simp add: poll_create_def Inr req \<open>create_request c = Inr req\<close> Let_def alive_after_create typed_def)
  qed
qed

lemma collect_keeps_backoff: "c_backoff (fst (snd (collect_and_upload_profile parse a p c))) = c_backoff c"
  by (simp add: collect_and_upload_profile_def collect_try_def Let_def split: sum.split option.split prod.split)

lemma collect_typed: "typed p \<Longrightarrow> fst (collect_and_upload_profile parse a p c) = Inr ()"
  by (auto simp: collect_and_upload_profile_def typed_def split: prod.split)

lemma alive_step:
  assumes "alive s" "fair parse a"
  shows "alive (fst (poll_step parse a s), fst (snd (poll_step parse a s)))"
proof -
  obtain st c where s: "s = (st, c)" by (cases s)
  show ?thesis
  proof (cases st)
    case (Building b)
    have "time_sleep (fst (next_backoff parse (a_random a) None b)) = Inr ()"
      using assms by (intro sleep_next_backoff) (auto simp: alive_def s Building fair_def harmless_def)
    then show ?thesis
      using assms standard_next [of b parse "a_random a" None]
      by (auto simp: s Building alive_def Let_def split: sum.split prod.split)
  next
    case Creating
    then show ?thesis using assms alive_create [of c parse a] by (simp add: s alive_def)
  next
    case (Collecting p)
    then have "fst (collect_and_upload_profile parse a p c) = Inr ()"
      using assms(1) collect_typed by (simp add: s alive_def)
    then show ?thesis
      using assms(1) collect_keeps_backoff [of parse a p c]
      by (auto simp: s Collecting alive_def split: prod.split sum.split)
  next
    case (Dead e)
    then show ?thesis using assms(1) by (simp add: s alive_def)
  qed
qed

lemma alive_run:
  "alive s \<Longrightarrow> \<forall>a \<in> set as. fair parse a \<Longrightarrow>
    alive (fst (poll_run parse as s), fst (snd (poll_run parse as s)))"
proof (induction as arbitrary: s)
  case (Cons a as)
  from alive_step [OF Cons.prems(1)] Cons.prems(2)
  have "alive (fst (poll_step parse a s), fst (snd (poll_step parse a s)))" by simp
  from Cons.IH [OF this] Cons.prems(2) show ?case by (auto split: prod.split)
qed simp

section \<open>Uploads and creations\<close>

definition created_count :: "action list \<Rightarrow> nat" where
  "created_count acts = length (filter (\<lambda>a. case a of Created _ _ \<Rightarrow> True | _ \<Rightarrow> False) acts)"

definition patched_count :: "action list \<Rightarrow> nat" where
  "patched_count acts = length (filter (\<lambda>a. case a of Patched _ _ \<Rightarrow> True | _ \<Rightarrow> False) acts)"

definition pending :: "poll \<Rightarrow> nat" where
  "pending st = (case st of Collecting _ \<Rightarrow> 1 | _ \<Rightarrow> 0)"

lemma counts_simps [simp]:
  "created_count [] = 0" "patched_count [] = 0"
  "created_count (Created p b # acts) = Suc (created_count acts)"
  "created_count (Slept d # acts) = created_count acts"
  "created_count (Patched n b # acts) = created_count acts"
  "patched_count (Created p b # acts) = patched_count acts"
  "patched_count (Slept d # acts) = patched_count acts"
  "patched_count (Patched n b # acts) = Suc (patched_count acts)"
  "created_count (xs @ ys) = created_count xs + created_count ys"
  "patched_count (xs @ ys) = patched_count xs + patched_count ys"
  by (simp_all add: created_count_def patched_count_def)

lemma pending_simps [simp]: "pending Creating = 0" "pending (Building b) = 0" "pending (Dead e) = 0"
    "pending (Collecting p) = 1"
  by (simp_all add: pending_def)

lemma retry_counts:
  "retry parse r err p c = (st, c1, acts) \<Longrightarrow>
     patched_count acts = 0 \<and> pending st \<le> 1 \<and> (p = JNull \<longrightarrow> pending st = 0)"
  by (auto simp: retry_def Let_def after_create_def split: prod.splits sum.splits if_splits)

lemma create_counts:
  assumes "poll_create parse a c = (st, c1, acts)"
  shows "patched_count acts + pending st \<le> created_count acts"
proof (cases "create_request c")
  case (Inl e)
  then show ?thesis using assms retry_counts [of parse "a_random a" ApiOtherError JNull c st c1 acts]
    by (simp add: poll_create_def)
next
  case (Inr req)
  obtain parent body where req: "req = (parent, body)" by (cases req)
  have r: "patched_count acts' + pending st' \<le> Suc (created_count acts')"
    if "retry parse (a_random a) err p c' = (st', c2, acts')" for err p c' st' c2 acts'
    using retry_counts [OF that] by simp
  show ?thesis
    using assms r Inr req by (auto simp: poll_create_def Let_def after_create_def split: sum.splits prod.splits if_splits)
qed

lemma collect_counts:
  "collect_and_upload_profile parse a p c = (r, c1, acts) \<Longrightarrow> patched_count acts \<le> 1 \<and> created_count acts = 0"
  by (auto simp: collect_and_upload_profile_def collect_try_def Let_def
      split: sum.splits option.splits prod.splits)

lemma step_counts:
  assumes "poll_step parse a (st, c) = (st1, c1, acts)"
  shows "patched_count acts + pending st1 \<le> created_count acts + pending st"
proof (cases st)
  case (Building b)
  with assms show ?thesis by (auto simp: Let_def split: sum.splits prod.splits)
next
  case Creating
  with assms create_counts [of parse a c st1 c1 acts] show ?thesis by simp
next
  case (Collecting p)
  then obtain r acts' where "collect_and_upload_profile parse a p c = (r, c1, acts)" "pending st1 = 0"
    using assms by (auto split: prod.splits sum.splits)
  with collect_counts Collecting show ?thesis by fastforce
next
  case (Dead e)
  with assms show ?thesis by simp
qed

lemma run_counts:
  "poll_run parse as (st, c) = (st1, c1, acts) \<Longrightarrow>
    patched_count acts + pending st1 \<le> created_count acts + pending st"
proof (induction as arbitrary: st c acts)
  case (Cons a as)
  obtain st2 c2 acts2 where s: "poll_step parse a (st, c) = (st2, c2, acts2)"
    by (cases "poll_step parse a (st, c)")
  obtain acts3 where r: "poll_run parse as (st2, c2) = (st1, c1, acts3)" "acts = acts2 @ acts3"
    using Cons.prems s by (auto split: prod.splits)
  from Cons.IH [OF r(1)] step_counts [OF s] r(2) show ?case by simp
qed simp

section \<open>Configuration\<close>

definition cpu_enabled :: "host \<Rightarrow> bool \<Rightarrow> bool" where
  "cpu_enabled h disable_cpu \<longleftrightarrow> starts_with (h_platform h) ''linux'' \<and> \<not> disable_cpu"

definition resolved_project :: "host \<Rightarrow> json \<Rightarrow> json" where
  "resolved_project h project_id = (if json_truthy project_id then project_id
     else json_of_opt (retrieve_gce_metadata h ''project/project-id''))"

definition resolved_service :: "host \<Rightarrow> string option \<Rightarrow> string option" where
  "resolved_service h service =
     str_or (str_or service (h_getenv h ''GAE_SERVICE'')) (h_getenv h ''K_SERVICE'')"

definition accepted_service :: "string option \<Rightarrow> bool" where
  "accepted_service s \<longleftrightarrow> (\<exists>t. s = Some t \<and> (valid_service t \<or> (\<exists>u. t = u @ [newline] \<and> valid_service u)))"

lemma accepted_service_iff:
  "accepted_service s \<longleftrightarrow> str_truthy s \<and> re_match service_re (the s)"
  by (auto simp: accepted_service_def str_truthy_def service_re_accepts valid_service_def)

lemma split_slash_no_slash: "CHR ''/'' \<notin> set s \<Longrightarrow> split_slash s = [s]"
  by (induction s) auto

lemma split_slash_nonempty: "split_slash s \<noteq> []"
  by (induction s) (auto split: list.splits)

lemma split_slash_append: "split_slash (a @ CHR ''/'' # b) = split_slash a @ split_slash b"
proof (induction a)
  case (Cons c a)
  then show ?case using split_slash_nonempty [of a] by (auto split: list.splits)
qed simp

lemma split_slash_last:
  "CHR ''/'' \<notin> set b \<Longrightarrow> last (split_slash (a @ CHR ''/'' # b)) = b"
  by (simp add: split_slash_append split_slash_no_slash)

lemma config_profilers:
  "config_cpu_profiling h dc ms c = (Inr (), if cpu_enabled h dc
     then c\<lparr>c_profilers := dict_set (c_profilers c) ''CPU'' (Cpu (CPUProfiler_init ms))\<rparr> else c)"
  "config_wall_profiling dw ms c = (Inr (), if dw then c
     else c\<lparr>c_profilers := dict_set (c_profilers c) ''WALL'' (Wall (WallProfiler_init ms))\<rparr>)"
  by (simp_all add: config_cpu_profiling_def config_wall_profiling_def cpu_enabled_def py_monad)

text \<open>The profile types in the order of the dictionary.\<close>

definition enabled_types :: "host \<Rightarrow> bool \<Rightarrow> bool \<Rightarrow> string list" where
  "enabled_types h dc dw = (if cpu_enabled h dc then [''CPU''] else []) @ (if dw then [] else [''WALL''])"

lemma config_result:
  "fst (config h pid svc ver dc dw ms url c) =
    (if enabled_types h dc dw \<noteq> [] \<and> json_truthy (resolved_project h pid) \<and> accepted_service (resolved_service h svc)
     then Inr () else Inl ValueError)"
proof -
  have ne: "dict_set d k v \<noteq> []" for d :: "(string, profiler) dict" and k v
    by (cases d) (auto simp: dict_set_def)
  show ?thesis
    by (simp add: config_def py_monad config_profilers enabled_types_def accepted_service_iff
        resolved_project_def resolved_service_def Let_def ne)
qed

lemma config_state:
  assumes "config h pid svc ver dc dw ms url c = (Inr (), c')"
  shows "map fst (c_profilers c') = enabled_types h dc dw"
    "c_deployment c' = JObj [(''projectId'', resolved_project h pid),
       (''target'', JStr (the (resolved_service h svc))), (''labels'', JObj (deployment_labels h ver))]"
  using assms
  by (auto simp: config_def py_monad config_profilers enabled_types_def resolved_project_def
      resolved_service_def Let_def dict_set_def split: if_splits option.splits)

section \<open>Example data\<close>

definition sample_host :: host where
  "sample_host = \<lparr>h_platform = ''linux'', h_version = (3, 12),
     h_getenv = (\<lambda>k. if k = ''GAE_SERVICE'' then Some ''shop'' else None),
     h_metadata = (\<lambda>url headers. if url = ''http://metadata/computeMetadata/v1/instance/zone''
        then Inr (200, ''projects/7/zones/us-east1-b'') else Inr (404, '''')),
     h_account_file = (\<lambda>_. Inr ()), h_json_file = (\<lambda>_. Inl (OSError 2)), h_default_auth = Inr (JStr ''proj''),
     h_discovery_uri = ''https://www.googleapis.com'', h_main_thread = True\<rparr>"

definition sample_response :: json where
  "sample_response = JObj [(''name'', JStr ''profiles/1''), (''profileType'', JStr ''CPU''), (''duration'', JStr ''10s'')]"

definition sample_answers :: answers where
  "sample_answers = \<lparr>a_random = 1 / 2, a_build = (\<lambda>_. Inr ()), a_create = Inr sample_response,
     a_profile = (\<lambda>p _. (Inr [1, 2], p)), a_patch = Inr ()\<rparr>"

definition sample_parse :: parser where
  "sample_parse = (\<lambda>_. Inr (10, 0))"

definition sample_client :: client where
  "sample_client = Client_init\<lparr>c_profilers := [(''CPU'', Cpu (CPUProfiler_init 10))],
     c_deployment := JObj [(''projectId'', JStr ''proj'')]\<rparr>"

lemma sample_service: "resolved_service sample_host None = Some ''shop''"
  by (simp add: resolved_service_def str_or_def str_truthy_def sample_host_def)

lemma sample_accepted: "accepted_service (Some ''shop'')"
proof -
  have "valid_service ''shop''" by code_simp
  then show ?thesis by (simp add: accepted_service_def)
qed

section \<open>Properties\<close>

text \<open>
  C18: configuration succeeds exactly when a profiling mode is enabled (CPU needs Linux), a
  project is given or served by the metadata server, and a valid service name is given or in
  the environment; every other outcome is a \<open>ValueError\<close>, and no failure of the metadata
  server makes it fail in another way.
\<close>

theorem config_outcome:
  "fst (config h pid svc ver dc dw ms url c) =
    (if (cpu_enabled h dc \<or> \<not> dw) \<and> json_truthy (resolved_project h pid) \<and>
        accepted_service (resolved_service h svc)
     then Inr () else Inl ValueError)"
  by (simp add: config_result enabled_types_def)

theorem config_outcome_witness:
  "fst (config sample_host (JStr ''proj'') None None True False 10 None Client_init) = Inr () \<and>
   fst (config sample_host (JStr ''proj'') (Some ''Shop'') None True False 10 None Client_init) = Inl ValueError"
proof -
  have "\<not> re_match service_re ''Shop''" by code_simp
  then have "\<not> accepted_service (Some ''Shop'')" by (simp add: accepted_service_iff)
  then show ?thesis
    using config_outcome [of sample_host "JStr ''proj''" None None True False 10 None Client_init]
      config_outcome [of sample_host "JStr ''proj''" "Some ''Shop''" None True False 10 None Client_init]
      sample_accepted sample_service
    by (simp add: resolved_project_def resolved_service_def str_or_def str_truthy_def)
qed

text \<open>
  C19: the request of a configured client names the project as its parent, offers exactly the
  enabled profile types and describes the deployment; the zone label is the last component of
  the zone's path, and the version label is the first of the argument and the two environment
  variables that is not empty.
\<close>

theorem configured_request:
  assumes "config h pid svc ver dc dw ms url c = (Inr (), c')" "resolved_project h pid = JStr p"
  shows "\<exists>s labels. resolved_service h svc = Some s \<and>
    create_request c' = Inr (''projects/'' @ p,
      JObj [(''profileType'', JArr (map JStr (enabled_types h dc dw))),
        (''deployment'', JObj [(''projectId'', JStr p), (''target'', JStr s), (''labels'', JObj labels)])]) \<and>
    dict_get labels ''language'' = Some (JStr ''python'') \<and>
    dict_get labels ''version'' = (let v = str_or (str_or ver (h_getenv h ''GAE_VERSION'')) (h_getenv h ''K_REVISION'')
      in if str_truthy v then Some (JStr (the v)) else None) \<and>
    (\<forall>a b. retrieve_gce_metadata h ''instance/zone'' = Some (a @ CHR ''/'' # b) \<and> CHR ''/'' \<notin> set b \<longrightarrow>
      dict_get labels ''zone'' = Some (JStr b))"
proof -
  note st = config_state [OF assms(1)]
  have "accepted_service (resolved_service h svc)"
    using config_result [of h pid svc ver dc dw ms url c] assms(1) by (simp split: if_splits)
  then obtain s where s: "resolved_service h svc = Some s" by (auto simp: accepted_service_def)
  have types: "map (\<lambda>p. JStr (fst p)) (c_profilers c') = map JStr (enabled_types h dc dw)"
    unfolding st(1) [symmetric] by simp
  show ?thesis
    by (rule exI [of _ s], rule exI [of _ "deployment_labels h ver"])
      (auto simp: create_request_def st(2) assms(2) s types dict_get_def [of "[_, _, _]"]
        deployment_labels_def Let_def str_truthy_def split_slash_last dict_get_def [of "[_]"])
qed

theorem configured_request_witness:
  "\<exists>c' s labels. config sample_host (JStr ''proj'') None (Some ''v1'') False True 10 None Client_init = (Inr (), c') \<and>
    create_request c' = Inr (''projects/proj'', JObj [(''profileType'', JArr [JStr ''CPU'']),
      (''deployment'', JObj [(''projectId'', JStr ''proj''), (''target'', JStr s), (''labels'', JObj labels)])]) \<and>
    dict_get labels ''version'' = Some (JStr ''v1'') \<and> dict_get labels ''zone'' = Some (JStr ''us-east1-b'')"
proof -
  have r: "resolved_project sample_host (JStr ''proj'') = JStr ''proj''" by (simp add: resolved_project_def)
  have e: "enabled_types sample_host False True = [''CPU'']"
    by (simp add: enabled_types_def cpu_enabled_def starts_with_def sample_host_def)
  have "fst (config sample_host (JStr ''proj'') None (Some ''v1'') False True 10 None Client_init) = Inr ()"
    by (simp add: config_result r e sample_service sample_accepted)
  then obtain c' where c': "config sample_host (JStr ''proj'') None (Some ''v1'') False True 10 None Client_init
      = (Inr (), c')" by (metis prod.collapse)
  have z: "retrieve_gce_metadata sample_host ''instance/zone'' = Some (''projects/7/zones'' @ CHR ''/'' # ''us-east1-b'')"
    by (simp add: retrieve_gce_metadata_def sample_host_def)
  from configured_request [OF c' r] z e c' show ?thesis
    by (fastforce simp: str_or_def str_truthy_def Let_def)
qed


text \<open>
  C20: starting a client off the main thread with wall profiling enabled raises
  \<open>ValueError\<close> and starts no thread; any other start begins exactly one polling thread. The
  object's own started flag stays unset, so a second call begins another thread.
\<close>

theorem client_start_outcome:
  assumes "\<not> c_started c" "\<nexists>p. dict_get (c_profilers c) ''WALL'' = Some (Cpu p)"
  shows "(let ok = dict_get (c_profilers c) ''WALL'' = None \<or> h_main_thread h in
    fst (client_start h c) = (if ok then Inr () else Inl ValueError) \<and>
    c_threads (snd (client_start h c)) = c_threads c + (if ok then 1 else 0) \<and>
    \<not> c_started (snd (client_start h c)))"
proof (cases "dict_get (c_profilers c) ''WALL''")
  case None
  then show ?thesis using assms(1) by (simp add: client_start_def py_monad)
next
  case (Some p)
  then obtain w where "p = Wall w" using assms(2) by (cases p) auto
  then show ?thesis using assms(1) Some
    by (simp add: client_start_def py_monad register_handler_def)
qed

theorem client_start_outcome_witness:
  "c_threads (snd (client_start sample_host (snd (client_start sample_host sample_client)))) = 2"
proof -
  have 1: "fst (client_start sample_host sample_client) = Inr ()"
    and c1: "c_threads (snd (client_start sample_host sample_client)) = 1"
    and s1: "\<not> c_started (snd (client_start sample_host sample_client))"
    using client_start_outcome [of sample_client sample_host]
    by (simp_all add: sample_client_def Client_init_def dict_get_def)
  have "c_profilers (snd (client_start sample_host sample_client)) = c_profilers sample_client"
    by (simp add: client_start_def py_monad sample_client_def Client_init_def dict_get_def)
  then show ?thesis
    using client_start_outcome [OF s1, of sample_host] c1
    by (simp add: sample_client_def dict_get_def)
qed

text \<open>
  The polling thread never ends as long as every response carries a profile type and no
  delay asked for by the server is negative or out of range: no failure of the discovery
  service, the profiler service, a profiler or an upload ends it.
\<close>

theorem polling_survives:
  assumes "standard_backoff (c_backoff c)" "\<forall>a \<in> set as. fair parse a"
  shows "\<nexists>e. fst (poll_run parse as (poll_start c, c)) = Dead e"
proof -
  have "alive (poll_start c, c)"
    using assms(1) by (simp add: alive_def poll_start_def)
  from alive_run [OF this assms(2)] show ?thesis by (auto simp: alive_def)
qed

theorem polling_survives_witness:
  "\<nexists>e. fst (poll_run sample_parse (replicate 5 sample_answers) (poll_start sample_client, sample_client)) = Dead e"
proof -
  have "fair sample_parse sample_answers"
    by (simp add: fair_def sample_answers_def sample_response_def dict_get_def)
  then show ?thesis
    using polling_survives [of sample_client "replicate 5 sample_answers" sample_parse]
    by (simp add: sample_client_def Client_init_def)
qed

text \<open>
  C21: a response that is a non-empty object without a profile type ends the polling thread:
  it is kept as the profile although reading its type failed, and the handler of the
  collection then uses a variable that is not bound.
\<close>

theorem untyped_response_ends_polling:
  assumes "standard_backoff (c_backoff c)" "0 \<le> a_random a" "a_random a \<le> 1"
    and "create_request c = Inr req" "a_create a = Inr (JObj kvs)" "kvs \<noteq> []"
    and "dict_get kvs ''profileType'' = None"
  shows "fst (poll_run parse [a, a'] (Creating, c)) = Dead UnboundLocalError"
proof -
  obtain parent body where req: "req = (parent, body)" by (cases req)
  let ?c1 = "c\<lparr>c_backoff := default_backoff\<rparr>"
  obtain d b where nb: "next_backoff parse (a_random a) (Some ApiOtherError) default_backoff = (d, b)"
    by (cases "next_backoff parse (a_random a) (Some ApiOtherError) default_backoff")
  have "time_sleep d = Inr ()"
    using sleep_next_backoff [OF standard_default assms(2,3), of parse "Some ApiOtherError"]
    by (simp add: nb harmless_def)
  then have "poll_create parse a c =
      (Collecting (JObj kvs), ?c1\<lparr>c_backoff := b\<rparr>, [Created parent body, Slept d])"
    using assms(4-7) by (simp add: poll_create_def req retry_def nb Let_def after_create_def)
  then show ?thesis
    using assms(7) by (simp add: collect_and_upload_profile_def)
qed

theorem untyped_response_ends_polling_witness:
  "fst (poll_run sample_parse [sample_answers\<lparr>a_create := Inr (JObj [(''name'', JStr ''profiles/1'')])\<rparr>, sample_answers]
     (Creating, sample_client)) = Dead UnboundLocalError"
  using untyped_response_ends_polling [of sample_client
      "sample_answers\<lparr>a_create := Inr (JObj [(''name'', JStr ''profiles/1'')])\<rparr>" _
      "[(''name'', JStr ''profiles/1'')]" sample_parse sample_answers]
  by (simp add: sample_client_def Client_init_def sample_answers_def create_request_def dict_get_def)

text \<open>
  C22: a negative delay in an error response ends the polling thread: the wait is outside any
  \<open>try\<close> and \<open>time.sleep\<close> raises.
\<close>

theorem negative_delay_ends_polling:
  assumes "create_request c = Inr req" "a_create a = Inl (ApiHttpError (Inr body))"
    and "server_delay parse (Inr body) = Inr (Some s)" "s < 0" "- 1000000 \<le> s"
  shows "fst (poll_step parse a (Creating, c)) = Dead ValueError"
proof -
  obtain parent rb where req: "req = (parent, rb)" by (cases req)
  have "fl (of_int (- 1000000000000000)) \<le> fl (s * 1000000000)" by (rule fl_mono) (use assms(5) in simp)
  moreover have "fl (of_int (- 1000000000000000)) = of_int (- 1000000000000000)" by (rule fl_of_int) simp
  moreover have "fl (s * 1000000000) \<le> 0" by (rule fl_nonpos) (use assms(4) in simp)
  ultimately have "time_sleep s = Inl ValueError"
    using assms(4) by (simp add: time_sleep_def fmul_def Let_def)
  moreover have "next_backoff parse (a_random a) (Some (ApiHttpError (Inr body))) (c_backoff c) = (s, c_backoff c)"
    using assms(3) by (simp add: next_backoff_def)
  ultimately show ?thesis using assms(1,2) by (simp add: poll_create_def req retry_def)
qed

theorem negative_delay_ends_polling_witness:
  "fst (poll_step (\<lambda>_. Inr (- 5, 0)) (sample_answers\<lparr>a_create := Inl (ApiHttpError (Inr (JObj [(''error'',
      JObj [(''details'', JArr [JObj [(''retryDelay'', JStr ''-5s'')]])])])))\<rparr>) (Creating, sample_client))
    = Dead ValueError"
proof -
  let ?body = "JObj [(''error'', JObj [(''details'', JArr [JObj [(''retryDelay'', JStr ''-5s'')]])])]"
  have f: "fl 1000000000 = 1000000000" "fl 5 = 5"
    using fl_of_int [of 1000000000] fl_of_int [of 5] by simp_all
  have "server_delay (\<lambda>_. Inr (- 5, 0)) (Inr ?body) = Inr (Some (- 5))"
    using fl_minus [of 5]
    by (simp add: server_delay_def dict_get_default_def dict_get_def delay_seconds_def fdiv_def float_of_int_def
        NANOS_PER_SEC_def fadd_def f)
  then show ?thesis
    using negative_delay_ends_polling [of sample_client _ "sample_answers\<lparr>a_create := Inl (ApiHttpError (Inr ?body))\<rparr>" ?body]
    by (simp add: sample_client_def Client_init_def sample_answers_def create_request_def dict_get_def)
qed


text \<open>
  For a response with a configured type and a duration that parses, the profiler of that
  type runs for the duration in nanoseconds, and what it returns is uploaded under the name of
  the response: the body is the response with one entry added, which decodes to the very bytes.
\<close>

theorem collected_profile_uploaded:
  assumes "dict_get kvs ''profileType'' = Some (JStr ty)" "dict_get (c_profilers c) ty = Some p"
    and "dict_get kvs ''duration'' = Some j" "parse j = Inr (secs, nanos)"
    and "dict_get kvs ''name'' = Some name"
    and "a_profile a p (secs * 1000000000 + nanos) = (Inr bytes, p')"
  shows "\<exists>c' body text. collect_and_upload_profile parse a (JObj kvs) c = (Inr (), c', [Patched name (JObj body)]) \<and>
    dict_get body ''profileBytes'' = Some (JStr text) \<and> b64decode text = bytes \<and>
    (\<forall>k. k \<noteq> ''profileBytes'' \<longrightarrow> dict_get body k = dict_get kvs k)"
  using assms
  by (simp add: collect_and_upload_profile_def collect_try_def lookup_profiler_def upload_body_def
      NANOS_PER_SEC_def Let_def b64decode_encode)

theorem collected_profile_uploaded_witness:
  "\<exists>c' body text. collect_and_upload_profile sample_parse sample_answers sample_response sample_client =
      (Inr (), c', [Patched (JStr ''profiles/1'') (JObj body)]) \<and>
    dict_get body ''profileBytes'' = Some (JStr text) \<and> b64decode text = [1, 2]"
  using collected_profile_uploaded [of "[(''name'', JStr ''profiles/1''), (''profileType'', JStr ''CPU''),
      (''duration'', JStr ''10s'')]" "''CPU''" sample_client "Cpu (CPUProfiler_init 10)" "JStr ''10s''" sample_parse
      10 0 "JStr ''profiles/1''" sample_answers "[1, 2]" "Cpu (CPUProfiler_init 10)"]
  unfolding sample_response_def
  by (auto simp: sample_client_def Client_init_def sample_answers_def sample_parse_def dict_get_def)

text \<open>
  C23: whatever the environment answers, at no time have more profiles been uploaded than
  profiles were asked for: each creation leads to at most one upload.
\<close>

theorem uploads_follow_creations:
  "patched_count (snd (snd (poll_run parse as (poll_start c, c))))
    \<le> created_count (snd (snd (poll_run parse as (poll_start c, c))))"
proof -
  obtain st c1 acts where r: "poll_run parse as (poll_start c, c) = (st, c1, acts)"
    by (cases "poll_run parse as (poll_start c, c)")
  have "pending (poll_start c) = 0" by (simp add: poll_start_def)
  with run_counts [OF r] show ?thesis by (simp add: r)
qed

end
