(* ===== verification/ClientRun.thy ===== *)
theory ClientRun
  imports ClientSpec WallProfiler
begin

text \<open>
  The polling thread with profilers in it: the answers of \<open>ClientPoll\<close> leave open what a profiler
  returns, here a function runs the profiler that a collection asks for. A step whose profiler
  never returns has no result (\<open>None\<close>), and neither has a run with such a step. What the thread
  relies on is the contract \<open>profiler_interface\<close>; theory \<open>ClientReal\<close> interprets it on the
  program's two profilers.
\<close>

section \<open>The run of a profiler\<close>

text \<open>
  What the environment gives a step: the answers, what a call of the native extension returns
  (\<open>None\<close> when it does not), and a clock and signal script.
\<close>

record run_env =
  re_answers :: answers
  re_native :: "int \<Rightarrow> int \<Rightarrow> (trace, int) dict res option"
  re_script :: profile_script

type_synonym profile_run = "run_env \<Rightarrow> profiler \<Rightarrow> int \<Rightarrow> (bytes res \<times> profiler) option"

text \<open>The profiler a collection runs and the duration it passes, when it gets as far as that.\<close>

definition requested_run :: "parser \<Rightarrow> json \<Rightarrow> client \<Rightarrow> (profiler \<times> int) option" where
  "requested_run parse profile c =
     (case json_index profile ''profileType'' of
        Inl _ \<Rightarrow> None
      | Inr ty \<Rightarrow>
          (case lookup_profiler ty c of
             Inr (Some (_, p)) \<Rightarrow>
               (case res_bind (json_index profile ''duration'') parse of
                  Inl _ \<Rightarrow> None
                | Inr (secs, nanos) \<Rightarrow> Some (p, secs * NANOS_PER_SEC + nanos))
           | _ \<Rightarrow> None))"

lemma collect_requested:
  "requested_run parse profile c = Some (p, d) \<Longrightarrow> a_profile a p d = a_profile a' p d \<Longrightarrow> a_patch a = a_patch a' \<Longrightarrow>
    collect_and_upload_profile parse a profile c = collect_and_upload_profile parse a' profile c"
  "requested_run parse profile c = None \<Longrightarrow> a_patch a = a_patch a' \<Longrightarrow>
    collect_and_upload_profile parse a profile c = collect_and_upload_profile parse a' profile c"
  by (auto simp: requested_run_def collect_and_upload_profile_def collect_try_def Let_def
      split: sum.splits option.splits prod.splits)

text \<open>The profile type and the duration that a response of the server asks for, when it names both.\<close>

definition asked :: "parser \<Rightarrow> json \<Rightarrow> (string \<times> int) option" where
  "asked parse profile =
     (case (json_index profile ''profileType'', res_bind (json_index profile ''duration'') parse) of
        (Inr (JStr ty), Inr (secs, nanos)) \<Rightarrow> Some (ty, secs * NANOS_PER_SEC + nanos)
      | _ \<Rightarrow> None)"

lemma requested_asked:
  assumes "requested_run parse profile c = Some (p, d)"
  obtains ty where "asked parse profile = Some (ty, d)" "dict_get (c_profilers c) ty = Some p"
  using assms
  by (auto simp: requested_run_def asked_def lookup_profiler_def split: sum.splits option.splits prod.splits json.splits)

section \<open>Steps and runs\<close>

definition step_answers :: "parser \<Rightarrow> profile_run \<Rightarrow> run_env \<Rightarrow> poll \<times> client \<Rightarrow> answers option" where
  "step_answers parse run e s =
     (case s of
        (Collecting profile, c) \<Rightarrow>
          (case requested_run parse profile c of
             None \<Rightarrow> Some (re_answers e)
           | Some (p, d) \<Rightarrow> map_option (\<lambda>r. (re_answers e)\<lparr>a_profile := (\<lambda>_ _. r)\<rparr>) (run e p d))
      | _ \<Rightarrow> Some (re_answers e))"

fun real_run :: "parser \<Rightarrow> profile_run \<Rightarrow> run_env list \<Rightarrow> poll \<times> client \<Rightarrow> (poll \<times> client \<times> action list) option" where
  "real_run parse run [] s = Some (fst s, snd s, [])"
| "real_run parse run (e # es) s =
     Option.bind (step_answers parse run e s) (\<lambda>a.
       case poll_step parse a s of (st, c, acts) \<Rightarrow>
         map_option (\<lambda>(st1, c1, acts1). (st1, c1, acts @ acts1)) (real_run parse run es (st, c)))"

lemma step_answers_Some:
  assumes "step_answers parse run e s = Some a"
  shows "a_random a = a_random (re_answers e)" "a_create a = a_create (re_answers e)"
    "a_build a = a_build (re_answers e)" "a_patch a = a_patch (re_answers e)"
  using assms by (auto simp: step_answers_def split: prod.splits poll.splits option.splits)

lemma real_run_ConsE:
  assumes "real_run parse run (e # es) s = Some r"
  obtains a st c acts st1 c1 acts1 where "step_answers parse run e s = Some a"
    "poll_step parse a s = (st, c, acts)" "real_run parse run es (st, c) = Some (st1, c1, acts1)"
    "r = (st1, c1, acts @ acts1)"
proof -
  obtain a where a: "step_answers parse run e s = Some a" using assms by (cases "step_answers parse run e s") auto
  obtain st c acts where p: "poll_step parse a s = (st, c, acts)" by (cases "poll_step parse a s")
  obtain st1 c1 acts1 where "real_run parse run es (st, c) = Some (st1, c1, acts1)" "r = (st1, c1, acts @ acts1)"
    using assms by (auto simp: a p)
  then show ?thesis by (rule that [OF a p])
qed

text \<open>A run with the real profilers is a run of the polling thread, so what holds of all of them holds of it.\<close>

lemma real_run_poll_run:
  "real_run parse run es s = Some r \<Longrightarrow>
    \<exists>as. map a_create as = map (a_create \<circ> re_answers) es \<and> poll_run parse as s = r"
proof (induction es arbitrary: s r)
  case Nil
  then show ?case by auto
next
  case (Cons e es)
  from Cons.prems obtain a st c acts st1 c1 acts1 where a: "step_answers parse run e s = Some a"
    and p: "poll_step parse a s = (st, c, acts)"
    and r1: "real_run parse run es (st, c) = Some (st1, c1, acts1)" and r: "r = (st1, c1, acts @ acts1)"
    by (rule real_run_ConsE)
  from Cons.IH [OF r1] obtain as where "map a_create as = map (a_create \<circ> re_answers) es"
    "poll_run parse as (st, c) = (st1, c1, acts1)" by blast
  then have "map a_create (a # as) = map (a_create \<circ> re_answers) (e # es) \<and> poll_run parse (a # as) s = r"
    using p r step_answers_Some(2) [OF a] by simp
  then show ?case by blast
qed

section \<open>One collection\<close>

lemma requested_runE:
  assumes "requested_run parse profile c = Some (p, d)"
  obtains kvs ty j secs nanos where "profile = JObj kvs" "dict_get kvs ''profileType'' = Some (JStr ty)"
    "dict_get (c_profilers c) ty = Some p" "dict_get kvs ''duration'' = Some j" "parse j = Inr (secs, nanos)"
    "d = secs * 1000000000 + nanos"
proof -
  from assms obtain t s secs nanos where 1: "json_index profile ''profileType'' = Inr t"
    "lookup_profiler t c = Inr (Some (s, p))" "res_bind (json_index profile ''duration'') parse = Inr (secs, nanos)"
    "d = secs * NANOS_PER_SEC + nanos"
    by (auto simp: requested_run_def split: sum.splits option.splits prod.splits)
  from 1(1) obtain kvs where kvs: "profile = JObj kvs" "dict_get kvs ''profileType'' = Some t"
    by (auto elim!: json_index_InrE split: option.splits)
  from 1(3) kvs obtain j where j: "dict_get kvs ''duration'' = Some j" "parse j = Inr (secs, nanos)"
    by (auto split: option.splits)
  from 1(2) obtain ty where ty: "t = JStr ty" "dict_get (c_profilers c) ty = Some p"
    by (auto simp: lookup_profiler_def split: json.splits option.splits)
  show ?thesis
    by (rule that [OF kvs(1) _ ty(2) j]) (use kvs ty 1(4) in \<open>simp_all add: NANOS_PER_SEC_def\<close>)
qed

lemma collect_Some:
  assumes "profile = JObj kvs" "dict_get kvs ''profileType'' = Some (JStr ty)"
    "dict_get (c_profilers c) ty = Some p" "dict_get kvs ''duration'' = Some j" "parse j = Inr (secs, nanos)"
    and "a_profile a p (secs * 1000000000 + nanos) = (r, p')"
  shows "collect_and_upload_profile parse a profile c =
    (Inr (), c\<lparr>c_profilers := dict_set (c_profilers c) ty p'\<rparr>,
     case (r, dict_get kvs ''name'') of
       (Inr bytes, Some name) \<Rightarrow> [Patched name (JObj (dict_set kvs ''profileBytes'' (JStr (b64encode bytes))))]
     | _ \<Rightarrow> [])"
  using assms
  by (cases r; cases "dict_get kvs ''name''")
    (simp_all add: collect_and_upload_profile_def collect_try_def lookup_profiler_def upload_body_def
      NANOS_PER_SEC_def Let_def)

lemma collect_None:
  assumes "requested_run parse profile c = None" "collect_and_upload_profile parse a profile c = (u, c1, acts)"
  shows "c1 = c" "acts = []"
  using assms
  by (auto simp: requested_run_def collect_and_upload_profile_def collect_try_def Let_def
      split: sum.splits option.splits prod.splits)

text \<open>Only a collection touches a profiler or uploads, and what is collected next is what the server answered.\<close>

lemma retry_frame:
  "retry parse x err p c = (st1, c1, acts) \<Longrightarrow> c_profilers c1 = c_profilers c \<and> Patched name body \<notin> set acts \<and>
    (\<forall>q. st1 = Collecting q \<longrightarrow> q = p \<and> json_truthy p)"
  by (auto simp: retry_def Let_def after_create_def split: prod.splits sum.splits if_splits)

lemma create_frame:
  assumes "poll_create parse a c = (st1, c1, acts)"
  shows "c_profilers c1 = c_profilers c \<and> Patched name body \<notin> set acts \<and>
    (\<forall>q. st1 = Collecting q \<longrightarrow> a_create a = Inr q)"
proof (cases "create_request c")
  case (Inl e)
  then have "retry parse (a_random a) ApiOtherError JNull c = (st1, c1, acts)"
    using assms by (simp add: poll_create_def)
  from retry_frame [OF this, of name body] show ?thesis by auto
next
  case (Inr req)
  obtain parent rb where req: "req = (parent, rb)" by (cases req)
  show ?thesis
  proof (cases "a_create a")
    case (Inl err)
    then obtain acts' where "retry parse (a_random a) err JNull c = (st1, c1, acts')" "acts = Created parent rb # acts'"
      using assms Inr req by (auto simp: poll_create_def split: prod.splits)
    from retry_frame [OF this(1), of name body] this(2) show ?thesis by auto
  next
    case r: (Inr resp)
    let ?c1 = "c\<lparr>c_backoff := default_backoff\<rparr>"
    show ?thesis
    proof (cases "json_index resp ''profileType''")
      case (Inl e)
      then obtain acts' where "retry parse (a_random a) ApiOtherError resp ?c1 = (st1, c1, acts')"
        "acts = Created parent rb # acts'"
        using assms Inr req r by (auto simp: poll_create_def Let_def split: prod.splits)
      from retry_frame [OF this(1), of name body] this(2) show ?thesis by (simp add: r)
    next
      case i: (Inr ty)
      then show ?thesis using assms Inr req r
        by (auto simp: poll_create_def Let_def after_create_def split: if_splits)
    qed
  qed
qed

lemma step_frame:
  assumes "poll_step parse a (st, c) = (st1, c1, acts)"
  shows "(\<And>profile. st \<noteq> Collecting profile) \<Longrightarrow> c_profilers c1 = c_profilers c \<and> Patched name body \<notin> set acts"
    and "st1 = Collecting q \<Longrightarrow> a_create a = Inr q"
proof -
  have "(case st of Collecting _ \<Rightarrow> True | _ \<Rightarrow> c_profilers c1 = c_profilers c \<and> Patched name body \<notin> set acts) \<and>
      (\<forall>q. st1 = Collecting q \<longrightarrow> a_create a = Inr q)"
  proof (cases st)
    case (Building b)
    then show ?thesis using assms by (auto simp: Let_def split: sum.splits prod.splits)
  next
    case Creating
    then show ?thesis using assms create_frame [of parse a c st1 c1 acts name body] by simp
  next
    case (Collecting p)
    then show ?thesis using assms by (auto split: sum.splits prod.splits)
  next
    case (Dead e)
    then show ?thesis using assms by auto
  qed
  then show "(\<And>profile. st \<noteq> Collecting profile) \<Longrightarrow> c_profilers c1 = c_profilers c \<and> Patched name body \<notin> set acts"
    and "st1 = Collecting q \<Longrightarrow> a_create a = Inr q" by (auto split: poll.splits)
qed

section \<open>What the thread keeps\<close>

text \<open>Every registered profiler satisfies a predicate that may depend on its type.\<close>

definition all_profilers :: "(string \<Rightarrow> profiler \<Rightarrow> bool) \<Rightarrow> client \<Rightarrow> bool" where
  "all_profilers usable c \<longleftrightarrow> (\<forall>ty p. dict_get (c_profilers c) ty = Some p \<longrightarrow> usable ty p)"

lemma all_profilers_cong: "c_profilers c' = c_profilers c \<Longrightarrow> all_profilers usable c' = all_profilers usable c"
  by (simp add: all_profilers_def)

lemma all_profilers_set:
  "all_profilers usable c \<Longrightarrow> usable ty p \<Longrightarrow> c_profilers c' = dict_set (c_profilers c) ty p \<Longrightarrow>
    all_profilers usable c'"
  by (auto simp: all_profilers_def)

text \<open>
  The body of an upload for a response, in the environment of the collection: the response with
  one entry added, which encodes bytes that are good for the type and the duration asked for.
\<close>

definition valid_upload :: "parser \<Rightarrow> (run_env \<Rightarrow> string \<Rightarrow> int \<Rightarrow> bytes \<Rightarrow> bool) \<Rightarrow> run_env
    \<Rightarrow> (string, json) dict \<Rightarrow> json \<Rightarrow> json \<Rightarrow> bool" where
  "valid_upload parse good e kvs name body \<longleftrightarrow>
     (\<exists>text ty j secs nanos.
        body = JObj (dict_set kvs ''profileBytes'' (JStr text)) \<and> dict_get kvs ''name'' = Some name \<and>
        dict_get kvs ''profileType'' = Some (JStr ty) \<and>
        dict_get kvs ''duration'' = Some j \<and> parse j = Inr (secs, nanos) \<and>
        good e ty (secs * 1000000000 + nanos) (b64decode text))"

text \<open>The responses the server gave in a run.\<close>

definition responses :: "run_env list \<Rightarrow> json set" where
  "responses es = {q. \<exists>e \<in> set es. a_create (re_answers e) = Inr q}"

lemma fair_step_answers:
  "step_answers parse run e s = Some a \<Longrightarrow> fair parse (re_answers e) \<Longrightarrow> fair parse a"
  using step_answers_Some(1,2) [of parse run e s a] by (simp add: fair_def)

text \<open>The environment of a step lets the collection end that the response in the step before asked for.\<close>

definition collects :: "parser \<Rightarrow> (run_env \<Rightarrow> string \<Rightarrow> int \<Rightarrow> bool) \<Rightarrow> run_env \<Rightarrow> run_env \<Rightarrow> bool" where
  "collects parse ends e e' \<longleftrightarrow> (\<forall>profile ty d. a_create (re_answers e) = Inr profile \<longrightarrow>
     asked parse profile = Some (ty, d) \<longrightarrow> ends e' ty d)"

section \<open>The contract of the profilers\<close>

text \<open>
  A run leaves a usable profiler usable; the bytes it returns are good; and it returns in an
  environment that lets a run of its type and duration end.
\<close>

locale profiler_interface =
  fixes run :: profile_run
    and usable :: "string \<Rightarrow> profiler \<Rightarrow> bool"
    and good :: "run_env \<Rightarrow> string \<Rightarrow> int \<Rightarrow> bytes \<Rightarrow> bool"
    and ends :: "run_env \<Rightarrow> string \<Rightarrow> int \<Rightarrow> bool"
  assumes usable_run: "usable ty p \<Longrightarrow> run e p d = Some (r, p') \<Longrightarrow> usable ty p'"
    and good_run: "usable ty p \<Longrightarrow> run e p d = Some (Inr bytes, p') \<Longrightarrow> good e ty d bytes"
    and run_returns: "usable ty p \<Longrightarrow> ends e ty d \<Longrightarrow> run e p d \<noteq> None"
begin

lemma collect_step:
  assumes "all_profilers usable c" "step_answers parse run e (Collecting profile, c) = Some a"
    and "collect_and_upload_profile parse a profile c = (u, c1, acts)"
  shows "all_profilers usable c1"
    "Patched name body \<in> set acts \<Longrightarrow> \<exists>kvs. profile = JObj kvs \<and> valid_upload parse good e kvs name body"
proof -
  have "all_profilers usable c1 \<and> (\<forall>name body. Patched name body \<in> set acts \<longrightarrow>
      (\<exists>kvs. profile = JObj kvs \<and> valid_upload parse good e kvs name body))"
  proof (cases "requested_run parse profile c")
    case None
    from collect_None [OF None assms(3)] show ?thesis using assms(1) by simp
  next
    case (Some pd)
    obtain p d where pd: "pd = (p, d)" by (cases pd)
    with assms(2) Some obtain r p' where rp: "run e p d = Some (r, p')"
      and a: "a = (re_answers e)\<lparr>a_profile := (\<lambda>_ _. (r, p'))\<rparr>"
      by (auto simp: step_answers_def)
    from Some pd have "requested_run parse profile c = Some (p, d)" by simp
    then obtain kvs ty j secs nanos where kv: "profile = JObj kvs" "dict_get kvs ''profileType'' = Some (JStr ty)"
      "dict_get (c_profilers c) ty = Some p" "dict_get kvs ''duration'' = Some j" "parse j = Inr (secs, nanos)"
      and d: "d = secs * 1000000000 + nanos"
      by (rule requested_runE)
    have us: "usable ty p" using assms(1) kv(3) by (simp add: all_profilers_def)
    have ap: "a_profile a p (secs * 1000000000 + nanos) = (r, p')" by (simp add: a)
    note cs = assms(3) [unfolded collect_Some [where c = c and parse = parse and a = a, OF kv ap], symmetric]
    have "c_profilers c1 = dict_set (c_profilers c) ty p'" using cs by simp
    then have "all_profilers usable c1" using all_profilers_set [OF assms(1) usable_run [OF us rp]] by blast
    moreover have "valid_upload parse good e kvs name body" if act: "Patched name body \<in> set acts" for name body
    proof -
      obtain bytes where b: "r = Inr bytes" "dict_get kvs ''name'' = Some name"
        "body = JObj (dict_set kvs ''profileBytes'' (JStr (b64encode bytes)))"
        using cs act by (auto split: sum.splits option.splits)
      have "good e ty (secs * 1000000000 + nanos) (b64decode (b64encode bytes))"
        using good_run [OF us] rp b(1) d by (simp add: b64decode_encode)
      then show ?thesis using b kv unfolding valid_upload_def by blast
    qed
    ultimately show ?thesis using kv(1) by blast
  qed
  then show "all_profilers usable c1"
    "Patched name body \<in> set acts \<Longrightarrow> \<exists>kvs. profile = JObj kvs \<and> valid_upload parse good e kvs name body"
    by blast+
qed

lemma one_step:
  assumes "all_profilers usable c" "step_answers parse run e (st, c) = Some a"
    and "poll_step parse a (st, c) = (st1, c1, acts)"
  shows "all_profilers usable c1"
    "Patched name body \<in> set acts \<Longrightarrow> \<exists>kvs. st = Collecting (JObj kvs) \<and> valid_upload parse good e kvs name body"
    "st1 = Collecting q \<Longrightarrow> a_create (re_answers e) = Inr q"
proof -
  show "st1 = Collecting q \<Longrightarrow> a_create (re_answers e) = Inr q"
    using step_frame(2) [OF assms(3)] step_answers_Some(2) [OF assms(2)] by simp
  have "all_profilers usable c1 \<and> (\<forall>name body. Patched name body \<in> set acts \<longrightarrow>
      (\<exists>kvs. st = Collecting (JObj kvs) \<and> valid_upload parse good e kvs name body))"
  proof (cases "\<exists>profile. st = Collecting profile")
    case False
    then have "c_profilers c1 = c_profilers c \<and> Patched name body \<notin> set acts" for name body
      using step_frame(1) [OF assms(3)] by simp
    then show ?thesis using all_profilers_cong [of c1 c usable] assms(1) by simp
  next
    case True
    then obtain profile where st: "st = Collecting profile" by blast
    obtain u where run: "collect_and_upload_profile parse a profile c = (u, c1, acts)"
      using assms(3) by (auto simp: st split: prod.splits sum.splits)
    from collect_step [OF assms(1) assms(2) [unfolded st] run] show ?thesis using st by blast
  qed
  then show "all_profilers usable c1"
    "Patched name body \<in> set acts \<Longrightarrow> \<exists>kvs. st = Collecting (JObj kvs) \<and> valid_upload parse good e kvs name body"
    by blast+
qed

lemma run_uploads:
  "real_run parse run es (st, c) = Some (st1, c1, acts) \<Longrightarrow> all_profilers usable c \<Longrightarrow>
    (\<And>q. st = Collecting q \<Longrightarrow> q \<in> R) \<Longrightarrow> responses es \<subseteq> R \<Longrightarrow> Patched name body \<in> set acts \<Longrightarrow>
    \<exists>kvs. JObj kvs \<in> R \<and> (\<exists>e \<in> set es. valid_upload parse good e kvs name body)"
proof (induction es arbitrary: st c acts)
  case (Cons e es)
  from Cons.prems(1) obtain a st2 c2 acts2 st3 c3 acts3 where a: "step_answers parse run e (st, c) = Some a"
    and p: "poll_step parse a (st, c) = (st2, c2, acts2)"
    and r: "real_run parse run es (st2, c2) = Some (st3, c3, acts3)"
    and e: "(st1, c1, acts) = (st3, c3, acts2 @ acts3)"
    by (rule real_run_ConsE)
  note step = one_step [OF Cons.prems(2) a p]
  have R: "q \<in> R" if "st2 = Collecting q" for q
    using step(3) [OF that] Cons.prems(4) by (auto simp: responses_def)
  have R2: "responses es \<subseteq> R" using Cons.prems(4) by (auto simp: responses_def)
  have r': "real_run parse run es (st2, c2) = Some (st1, c1, acts3)" using r e by simp
  consider "Patched name body \<in> set acts2" | "Patched name body \<in> set acts3"
    using Cons.prems(5) e by auto
  then show ?case
  proof cases
    case 1
    from step(2) [OF 1] obtain kvs where kvs: "st = Collecting (JObj kvs)" "valid_upload parse good e kvs name body"
      by blast
    from Cons.prems(3) [OF kvs(1)] kvs(2) show ?thesis by auto
  next
    case 2
    from Cons.IH [OF r' step(1) R R2 2] show ?thesis by auto
  qed
qed simp

lemma step_returns:
  assumes "all_profilers usable c"
    and "\<And>profile ty d. st = Collecting profile \<Longrightarrow> asked parse profile = Some (ty, d) \<Longrightarrow> ends e ty d"
  shows "\<exists>a. step_answers parse run e (st, c) = Some a"
proof (cases "\<exists>profile p d. st = Collecting profile \<and> requested_run parse profile c = Some (p, d)")
  case True
  then obtain profile p d where st: "st = Collecting profile" and rr: "requested_run parse profile c = Some (p, d)"
    by blast
  obtain ty where "asked parse profile = Some (ty, d)" and ty: "dict_get (c_profilers c) ty = Some p"
    by (rule requested_asked [OF rr])
  then have "ends e ty d" using assms(2) [OF st] by simp
  moreover have "usable ty p" using assms(1) ty by (simp add: all_profilers_def)
  ultimately have "run e p d \<noteq> None" using run_returns by blast
  then show ?thesis by (auto simp: step_answers_def st rr)
next
  case False
  then show ?thesis by (auto simp: step_answers_def split: poll.splits option.splits)
qed

text \<open>
  What is collected in a step was asked for in the step before it, so a run goes on when the
  environment of each step lets the collection that the step before asked for end.
\<close>

lemma run_goes_on:
  "all_profilers usable c \<Longrightarrow> alive (st, c) \<Longrightarrow> \<forall>e \<in> set es. fair parse (re_answers e) \<Longrightarrow>
    successively (collects parse ends) es \<Longrightarrow>
    (\<And>profile ty d. st = Collecting profile \<Longrightarrow> asked parse profile = Some (ty, d) \<Longrightarrow> es \<noteq> [] \<Longrightarrow> ends (hd es) ty d) \<Longrightarrow>
    \<exists>st1 c1 acts. real_run parse run es (st, c) = Some (st1, c1, acts) \<and> alive (st1, c1)"
proof (induction es arbitrary: st c)
  case (Cons e es)
  have e: "fair parse (re_answers e)" using Cons.prems(3) by simp
  have "ends e ty d" if "st = Collecting profile" "asked parse profile = Some (ty, d)" for profile ty d
    using Cons.prems(5) [OF that] by simp
  then obtain a where a: "step_answers parse run e (st, c) = Some a"
    using step_returns [OF Cons.prems(1)] by blast
  obtain st2 c2 acts2 where p: "poll_step parse a (st, c) = (st2, c2, acts2)"
    by (cases "poll_step parse a (st, c)")
  note step = one_step [OF Cons.prems(1) a p]
  from alive_step [OF Cons.prems(2) fair_step_answers [OF a e]] have live: "alive (st2, c2)" by (simp add: p)
  have fair: "\<forall>e \<in> set es. fair parse (re_answers e)" using Cons.prems(3) by simp
  have succ: "successively (collects parse ends) es" using Cons.prems(4) by (auto simp: successively_Cons)
  have ends_next: "ends (hd es) ty d" if "st2 = Collecting profile" "asked parse profile = Some (ty, d)" "es \<noteq> []" for profile ty d
    using Cons.prems(4) step(3) [OF that(1)] that(2,3) by (simp add: successively_Cons collects_def)
  have "\<exists>st1 c1 acts. real_run parse run es (st2, c2) = Some (st1, c1, acts) \<and> alive (st1, c1)"
    by (rule Cons.IH [OF step(1) live fair succ]) (rule ends_next)
  then show ?case by (auto simp: a p)
qed simp

end

end
