(* ===== verification/WallSteady.thy ===== *)
theory WallSteady
  imports WallSpec
begin

text \<open>
  What every use of a wall-time profiler keeps, whatever the signals, the clock and the outcome:
  the configuration of the object, the handler flag and the lock. With it a run of \<open>profile\<close>
  returns as soon as one clock reading is past the target, also on the paths that raise.
\<close>

definition steady :: "int \<Rightarrow> wall \<Rightarrow> bool" where
  "steady ms w \<longleftrightarrow> w_profile_type w = ''wall'' \<and> w_period_sec w = w_period_sec (WallProfiler_init ms) \<and>
     \<not> w_in_handler w \<and> w_lock_depth w = 0"

text \<open>The counts are consistent and every collected trace is in a given set.\<close>

definition traces_in :: "trace set \<Rightarrow> wall \<Rightarrow> bool" where
  "traces_in S w \<longleftrightarrow> wf_wall w \<and> fst ` set (w_traces w) \<subseteq> S"

lemma steady_init: "steady ms (WallProfiler_init ms)"
  by (simp add: steady_def WallProfiler_init_def)

lemma steady_period_ns: "steady ms w \<Longrightarrow> wall_period_ns w = wall_period_ns (WallProfiler_init ms)"
  by (simp add: steady_def wall_period_ns_def)

lemma period_sec_pos:
  assumes "1 \<le> ms" shows "0 < w_period_sec (WallProfiler_init ms)"
proof -
  have "fl (of_int 1) \<le> fl (of_int ms)" by (rule fl_mono) (use assms in simp)
  then have "1 / 1000 \<le> float_of_int ms / 1000" by (simp add: float_of_int_def)
  from fl_mono [OF this] have "fl (1 / 1000) \<le> w_period_sec (WallProfiler_init ms)"
    by (simp add: WallProfiler_init_def)
  moreover have "fl (1 / 1000) = 1152921504606847 / 1152921504606846976"
    by (rule fl_eqI [of "-10" _ "4611686018427388"]) (simp_all add: power_int_minus)
  ultimately show ?thesis by simp
qed

lemma steady_sampled: "steady ms w \<Longrightarrow> steady ms (sampled now f w)"
  by (simp add: steady_def sampled_def Let_def)

lemma traces_in_sampled: "traces_in S w \<Longrightarrow> record_trace f \<in> S \<Longrightarrow> traces_in S (sampled now f w)"
  using wf_sampled [of w now f] by (simp add: traces_in_def) (simp add: sampled_def Let_def)

lemma steady_deliver:
  assumes "1 \<le> ms"
  shows "steady ms w \<Longrightarrow> traces_in S w \<Longrightarrow> record_trace ` snd ` set ss \<subseteq> S \<Longrightarrow>
    steady ms (deliver ss w) \<and> traces_in S (deliver ss w)"
proof (induction ss arbitrary: w)
  case (Cons s ss)
  obtain now f where s: "s = (now, f)" by (cases s)
  have "snd (handler now f w) \<in> {w, sampled now f w}"
  proof (cases "w_started w")
    case True
    then have "handler now f w = (Inr (), sampled now f w)"
      using Cons.prems period_sec_pos [OF assms] by (intro handler_takes) (auto simp: steady_def)
    then show ?thesis by simp
  next
    case False
    then show ?thesis by (simp add: handler_skips)
  qed
  then have "steady ms (snd (handler now f w))" "traces_in S (snd (handler now f w))"
    using Cons.prems steady_sampled traces_in_sampled by (auto simp: s)
  from Cons.IH [OF this] Cons.prems(3) show ?case by (simp add: s deliver_Cons)
qed simp

lemma steady_round:
  assumes "1 \<le> ms" "steady ms w" "traces_in S w" "record_trace ` snd ` set (fst rd) \<subseteq> S"
  shows "\<exists>w'. profile_round target rd w = Some (Inr (fsub target (snd rd)), w') \<and> steady ms w' \<and> traces_in S w'"
  using steady_deliver [OF assms] period_sec_pos [OF assms(1)]
  by (auto simp: profile_round_def Let_def py_monad setitimer_0 setitimer_pos steady_def traces_in_def wf_wall_def)

text \<open>The loop keeps the object steady, and returns once a reading is past the target.\<close>

lemma steady_loop:
  assumes "1 \<le> ms" "steady ms w" "traces_in S w" "\<forall>rd \<in> set rounds. record_trace ` snd ` set (fst rd) \<subseteq> S"
  shows "(case profile_loop target d rounds w of None \<Rightarrow> True | Some (r, w') \<Rightarrow> steady ms w' \<and> traces_in S w') \<and>
    ((\<exists>rd \<in> set rounds. target \<le> snd rd) \<longrightarrow> profile_loop target d rounds w \<noteq> None)"
  using assms(2-4)
proof (induction rounds arbitrary: d w)
  case Nil
  then show ?case by (auto simp: profile_loop.simps split: sum.splits option.splits if_splits)
next
  case (Cons rd rounds)
  have "record_trace ` snd ` set (fst rd) \<subseteq> S" using Cons.prems(3) by simp
  then obtain w1 where r: "profile_round target rd w = Some (Inr (fsub target (snd rd)), w1)"
    and w1: "steady ms w1" "traces_in S w1"
    using steady_round [OF assms(1) Cons.prems(1,2)] by blast
  have fin: "profile_loop target (fsub target (snd rd)) rounds w1 = Some (Inr (), w1)" if "target \<le> snd rd"
    using fl_nonpos [of "target - snd rd"] that by (simp add: profile_loop.simps fsub_def)
  show ?case
  proof (cases "d \<le> 0 \<or> (\<exists>e. time_sleep d = Inl e)")
    case True
    then show ?thesis using Cons.prems by (auto simp: profile_loop.simps [of target d])
  next
    case False
    then have eq: "profile_loop target d (rd # rounds) w = profile_loop target (fsub target (snd rd)) rounds w1"
      using r by (cases "time_sleep d") (simp_all add: profile_loop.simps [of target d])
    have rest: "\<forall>rd \<in> set rounds. record_trace ` snd ` set (fst rd) \<subseteq> S" using Cons.prems(3) by simp
    note IH = Cons.IH [OF w1 rest, of "fsub target (snd rd)"]
    have "profile_loop target (fsub target (snd rd)) rounds w1 \<noteq> None"
      if "\<exists>rd \<in> set (rd # rounds). target \<le> snd rd"
      using that IH fin by (cases "target \<le> snd rd") simp_all
    then show ?thesis unfolding eq using IH by blast
  qed
qed

section \<open>Serialization\<close>

text \<open>
  What a wall profile is made of: consistent counts of traces within a set and of the unknown
  trace; and they cover every period of the duration.
\<close>

definition covers :: "int \<Rightarrow> int \<Rightarrow> trace set \<Rightarrow> (trace, int) dict \<Rightarrow> bool" where
  "covers d period S traces \<longleftrightarrow> dict_ok traces \<and> (\<forall>(t, n) \<in> set traces. 1 \<le> n) \<and>
     fst ` set traces \<subseteq> insert unknown_trace S \<and>
     (0 \<le> d \<and> d < 2 ^ 53 \<and> 0 < period \<and> period < 2 ^ 63 \<and> unknown_trace \<notin> S \<longrightarrow>
        d div period \<le> dict_total traces)"

lemma add_unknown_traces:
  assumes "traces_in S w"
  shows "\<exists>r traces. add_unknown d w = (r, w\<lparr>w_traces := traces\<rparr>) \<and>
    (r = Inr () \<longrightarrow> covers d (wall_period_ns w) S traces)"
proof (cases "int_truediv d (wall_period_ns w)")
  case (Inl e)
  then have "add_unknown d w = (Inl e, w\<lparr>w_traces := w_traces w\<rparr>)" by (simp add: add_unknown_def py_monad)
  then show ?thesis by blast
next
  case (Inr q)
  let ?n = "int_of_float q - w_trace_count w"
  let ?t = "if 0 < ?n then dict_set (w_traces w) unknown_trace ?n else w_traces w"
  have eq: "add_unknown d w = (Inr (), w\<lparr>w_traces := ?t\<rparr>)"
    using Inr by (simp add: add_unknown_def py_monad Let_def)
  have wf: "wf_wall w" "fst ` set (w_traces w) \<subseteq> S" using assms by (simp_all add: traces_in_def)
  have "dict_ok ?t" using wf(1) by (simp add: wf_wall_def)
  moreover have "fst ` set ?t \<subseteq> insert unknown_trace S" using wf(2) by auto
  moreover have "\<forall>(t, n) \<in> set ?t. 1 \<le> n"
  proof (cases "0 < ?n")
    case True
    then have "set ?t \<subseteq> insert (unknown_trace, ?n) (set (w_traces w))"
      using set_dict_set [of "w_traces w" unknown_trace ?n] by (simp only: if_True)
    then show ?thesis using wf(1) True unfolding wf_wall_def by (auto 0 3)
  next
    case False
    then show ?thesis using wf(1) by (simp add: wf_wall_def)
  qed
  moreover have "d div wall_period_ns w \<le> dict_total ?t"
    if "0 \<le> d" "d < 2 ^ 53" "0 < wall_period_ns w" "wall_period_ns w < 2 ^ 63" "unknown_trace \<notin> S"
  proof -
    have "unknown_trace \<notin> fst ` set (w_traces w)" using wf(2) that(5) by blast
    note total = add_unknown_total [OF that(1-4) wf(1) this]
    obtain w' where w': "add_unknown d w = (Inr (), w')"
      "dict_total (w_traces w') = max (w_trace_count w) (d div wall_period_ns w)"
      by (rule total)
    then have "w_traces w' = ?t" unfolding eq by auto
    then show ?thesis using w'(2) by (simp only: max.cobounded2)
  qed
  ultimately show ?thesis using eq unfolding covers_def by blast
qed

definition built_from :: "pb_runtime \<Rightarrow> int \<Rightarrow> int \<Rightarrow> trace set \<Rightarrow> bytes \<Rightarrow> bool" where
  "built_from rt ms d S bytes \<longleftrightarrow> (\<exists>traces. covers d (wall_period_ns (WallProfiler_init ms)) S traces \<and>
     build_profile rt traces ''wall'' ''nanoseconds'' (wall_period_ns (WallProfiler_init ms)) d = Inr bytes)"

lemma steady_serialize:
  assumes "steady ms w" "traces_in S w" "serialize_and_clear_traces rt d w = (r, w')"
  shows "steady ms w'" "r = Inr bytes \<Longrightarrow> built_from rt ms d S bytes"
proof -
  obtain r1 traces where a: "add_unknown d w = (r1, w\<lparr>w_traces := traces\<rparr>)"
    "r1 = Inr () \<longrightarrow> covers d (wall_period_ns w) S traces"
    using add_unknown_traces [OF assms(2)] by blast
  let ?w1 = "w\<lparr>w_traces := traces\<rparr>"
  have "steady ms ?w1" using assms(1) by (simp add: steady_def)
  note p = steady_period_ns [OF this] steady_period_ns [OF assms(1)]
  let ?b = "build_profile rt traces (w_profile_type w) ''nanoseconds'' (wall_period_ns ?w1) d"
  have eq: "serialize_and_clear_traces rt d w = (case r1 of Inl e \<Rightarrow> (Inl e, ?w1)
      | Inr _ \<Rightarrow> (case ?b of Inl e \<Rightarrow> (Inl e, ?w1) | Inr b \<Rightarrow> (Inr b, wall_reset ?w1)))"
    using a(1) by (auto simp: serialize_and_clear_traces_def py_monad split: sum.split)
  note run = assms(3) [unfolded eq]
  show "steady ms w'" using run assms(1)
    by (auto simp: steady_def wall_reset_def split: sum.splits)
  show "built_from rt ms d S bytes" if "r = Inr bytes"
    unfolding built_from_def
  proof (intro exI conjI)
    show "covers d (wall_period_ns (WallProfiler_init ms)) S traces"
      using run that a(2) p(2) by (simp split: sum.splits)
    show "build_profile rt traces ''wall'' ''nanoseconds'' (wall_period_ns (WallProfiler_init ms)) d = Inr bytes"
      using run that assms(1) p(1) by (simp add: steady_def split: sum.splits)
  qed
qed

section \<open>The whole of profile\<close>

definition script_ends :: "profile_script \<Rightarrow> int \<Rightarrow> bool" where
  "script_ends ps d \<longleftrightarrow> (\<exists>rd \<in> set (ps_rounds ps).
     fadd (ps_start ps) (fl (float_of_int d / of_int WALL_NANOS_PER_SEC)) \<le> snd rd)"

text \<open>The stacks that the signals of a script interrupt.\<close>

definition script_stacks :: "profile_script \<Rightarrow> trace set" where
  "script_stacks ps = record_trace ` snd ` set (concat (map fst (ps_rounds ps)) @ ps_tail ps)"

lemma steady_stop:
  assumes "1 \<le> ms" "steady ms w" "traces_in S w" "record_trace ` snd ` set ss \<subseteq> S"
  shows "\<exists>w'. stop_profiling (deliver ss w) = Some w' \<and> steady ms w' \<and> traces_in S w'"
proof -
  have "steady ms (deliver ss w) \<and> traces_in S (deliver ss w)" by (rule steady_deliver [OF assms])
  then show ?thesis using stop_profiling_eq [of "deliver ss w"] by (simp add: steady_def traces_in_def wf_wall_def)
qed

text \<open>How a run of \<open>profile\<close> can go: an exception of the loop, or a serialization.\<close>

lemma steady_profile_cases:
  assumes "1 \<le> ms" "steady ms w"
  shows "script_ends ps d \<Longrightarrow> wall_profile rt ps d w \<noteq> None"
    and "wall_profile rt ps d w = Some x \<Longrightarrow> (\<exists>e w2. x = (Inl e, w2) \<and> steady ms w2) \<or>
      (\<exists>w2. x = serialize_and_clear_traces rt d w2 \<and> steady ms w2 \<and> traces_in (script_stacks ps) w2)"
proof -
  let ?pd = "fl (float_of_int d / of_int WALL_NANOS_PER_SEC)" and ?p = "w_period_sec w"
  let ?w1 = "(wall_reset w)\<lparr>w_started := True, w_itimer := (?p, ?p)\<rparr>"
  let ?t = "fadd (ps_start ps) ?pd" and ?S = "script_stacks ps"
  have start: "start_profiling (wall_reset w) = (Inr (), ?w1)"
    using assms period_sec_pos by (simp add: start_profiling_eq wall_reset_def steady_def)
  have w1: "steady ms ?w1" "traces_in ?S ?w1" using assms(2) by (simp_all add: steady_def traces_in_def wf_wall_def wall_reset_def)
  have rounds: "\<forall>rd \<in> set (ps_rounds ps). record_trace ` snd ` set (fst rd) \<subseteq> ?S"
    and last: "record_trace ` snd ` set (ps_tail ps) \<subseteq> ?S"
    by (auto simp: script_stacks_def)
  let ?loop = "profile_loop ?t ?pd (ps_rounds ps) ?w1"
  note loop = steady_loop [OF assms(1) w1 rounds, of ?t ?pd]
  have ends: "?loop \<noteq> None" if "script_ends ps d"
    using loop that by (auto simp: script_ends_def)
  have cs: "(\<exists>e w2. ?loop = Some (Inl e, w2) \<and> wall_profile rt ps d w = Some (Inl e, w2) \<and> steady ms w2) \<or>
      (\<exists>w2. wall_profile rt ps d w = Some (serialize_and_clear_traces rt d w2) \<and> steady ms w2 \<and> traces_in ?S w2)"
    if "?loop = Some (r, w2)" for r w2
  proof (cases r)
    case (Inl e)
    then show ?thesis using that loop by (simp add: wall_profile_def start Let_def)
  next
    case (Inr u)
    then show ?thesis using that loop steady_stop [OF assms(1) _ _ last, of w2]
      by (auto simp: wall_profile_def start Let_def)
  qed
  have none: "wall_profile rt ps d w = None" if "?loop = None"
    using that by (simp add: wall_profile_def start Let_def)
  show "wall_profile rt ps d w \<noteq> None" if "script_ends ps d"
    using ends [OF that] cs by fastforce
  show "(\<exists>e w2. x = (Inl e, w2) \<and> steady ms w2) \<or>
      (\<exists>w2. x = serialize_and_clear_traces rt d w2 \<and> steady ms w2 \<and> traces_in ?S w2)"
    if "wall_profile rt ps d w = Some x"
    using that none cs by (cases ?loop) fastforce+
qed

lemma steady_profile:
  assumes "1 \<le> ms" "steady ms w"
  shows "wall_profile rt ps d w = Some (r, w') \<Longrightarrow> steady ms w'"
    and "wall_profile rt ps d w = Some (Inr bytes, w') \<Longrightarrow> built_from rt ms d (script_stacks ps) bytes"
proof -
  note cs = steady_profile_cases(2) [OF assms]
  show "steady ms w'" if "wall_profile rt ps d w = Some (r, w')"
    using cs [OF that] steady_serialize(1) by (metis prod.inject)
  show "built_from rt ms d (script_stacks ps) bytes" if "wall_profile rt ps d w = Some (Inr bytes, w')"
    using cs [OF that] steady_serialize(2) by (metis prod.inject sum.distinct(1))
qed

end
