(* ===== verification/ClientReal.thy ===== *)
theory ClientReal
  imports ClientRun WallSteady
begin

text \<open>
  The two profilers as the polling thread runs them: the contract of theory \<open>ClientRun\<close> holds of
  \<open>cpu_profile\<close> and \<open>wall_profile\<close>, and with it the two end-to-end properties of the agent.
\<close>

section \<open>The run of a profiler\<close>

fun real_profile :: "pb_runtime \<Rightarrow> profile_run" where
  "real_profile rt e (Cpu c) duration_ns =
     map_option (\<lambda>native. (cpu_profile rt (\<lambda>_ _. native) duration_ns c, Cpu c))
       (re_native e duration_ns (cpu_period_ms c))"
| "real_profile rt e (Wall w) duration_ns =
     map_option (\<lambda>(r, w'). (r, Wall w')) (wall_profile rt (re_script e) duration_ns w)"

section \<open>The invariant of the profilers\<close>

text \<open>Each profiler is registered under its own type, with the configured period, ready to run.\<close>

definition profiler_match :: "int \<Rightarrow> string \<Rightarrow> profiler \<Rightarrow> bool" where
  "profiler_match ms ty p \<longleftrightarrow> (ty = ''CPU'' \<and> p = Cpu (CPUProfiler_init ms)) \<or>
     (ty = ''WALL'' \<and> (\<exists>w. p = Wall w \<and> steady ms w))"

lemma config_dict:
  assumes "config h pid svc ver dc dw ms url c = (Inr (), c')"
  shows "c_profilers c' = (let ps = (if cpu_enabled h dc then dict_set [] ''CPU'' (Cpu (CPUProfiler_init ms)) else [])
    in if dw then ps else dict_set ps ''WALL'' (Wall (WallProfiler_init ms)))"
  using assms by (auto simp: config_def py_monad config_profilers Let_def split: if_splits)

lemma config_match:
  assumes "config h pid svc ver dc dw ms url c = (Inr (), c')"
  shows "all_profilers (profiler_match ms) c'"
  unfolding all_profilers_def config_dict [OF assms] Let_def
  by (simp add: profiler_match_def steady_init)

lemma client_start_match:
  assumes "all_profilers (profiler_match ms) c" "client_start h c = (r, c')"
  shows "all_profilers (profiler_match ms) c'"
proof (cases "dict_get (c_profilers c) ''WALL''")
  case None
  then have "c_profilers c' = c_profilers c" using assms(2)
    by (auto simp: client_start_def py_monad split: if_splits)
  from all_profilers_cong [OF this] show ?thesis using assms(1) by simp
next
  case (Some p)
  then have "profiler_match ms ''WALL'' p" using assms(1) by (simp add: all_profilers_def)
  then obtain w where w: "p = Wall w" "steady ms w" by (auto simp: profiler_match_def)
  let ?w = "snd (register_handler (h_main_thread h) w)"
  have "steady ms ?w" using w(2) by (simp add: register_handler_def py_monad steady_def)
  then have m: "profiler_match ms ''WALL'' (Wall ?w)" by (simp add: profiler_match_def)
  have "c_profilers c' = c_profilers c \<or> c_profilers c' = dict_set (c_profilers c) ''WALL'' (Wall ?w)"
    using assms(2) Some w(1)
    by (auto simp: client_start_def py_monad split: if_splits prod.splits sum.splits)
  then show ?thesis using all_profilers_cong [of c' c "profiler_match ms"] all_profilers_set [OF assms(1) m, of c'] assms(1) by auto
qed

section \<open>Valid bytes\<close>

text \<open>
  The compressed serialization of a valid profile whose header has the type, the configured
  period and the duration that were asked for, and whose samples are the traces that the
  native extension returned, or counts of the stacks that the signals of the collection
  interrupted and of the unknown trace, which cover every period of the duration.
\<close>

definition requested_header :: "int \<Rightarrow> string \<Rightarrow> string \<Rightarrow> int \<Rightarrow> bool" where
  "requested_header ms ty ptype period \<longleftrightarrow>
     (ty = ''CPU'' \<and> ptype = ''CPU'' \<and> period = ms * 1000000) \<or>
     (ty = ''WALL'' \<and> ptype = ''wall'' \<and> period = wall_period_ns (WallProfiler_init ms))"

definition collected_by :: "int \<Rightarrow> run_env \<Rightarrow> string \<Rightarrow> int \<Rightarrow> (trace, int) dict \<Rightarrow> bool" where
  "collected_by ms e ty d traces \<longleftrightarrow>
     (if ty = ''CPU'' then re_native e d ms = Some (Inr traces)
      else covers d (wall_period_ns (WallProfiler_init ms)) (script_stacks (re_script e)) traces)"

definition valid_bytes :: "pb_runtime \<Rightarrow> int \<Rightarrow> run_env \<Rightarrow> string \<Rightarrow> int \<Rightarrow> bytes \<Rightarrow> bool" where
  "valid_bytes rt ms e ty d bytes \<longleftrightarrow>
     (\<exists>p ptype period traces. bytes = pb_gzip rt (pb_serialize rt p) \<and> valid_profile p \<and>
        requested_header ms ty ptype period \<and> header_read p ptype ''nanoseconds'' period d \<and>
        collected_by ms e ty d traces \<and>
        map (read_sample p) (pf_sample p) = map (\<lambda>(trace, n). (map Some trace, [n, period * n])) traces)"

lemma valid_bytesI:
  assumes "runtime_ok rt" "build_profile rt traces ptype ''nanoseconds'' period d = Inr bytes"
    and "requested_header ms ty ptype period" "collected_by ms e ty d traces"
  shows "valid_bytes rt ms e ty d bytes"
proof -
  obtain p where p: "bytes = pb_gzip rt (pb_serialize rt p)" "valid_profile p"
    "header_read p ptype ''nanoseconds'' period d"
    "map (read_sample p) (pf_sample p) = map (spec_sample period) traces"
    by (rule build_profile_valid [OF assms(1,2)])
  have "spec_sample period = (\<lambda>(trace, n). (map Some trace, [n, period * n]))"
    by (simp add: spec_sample_def fun_eq_iff)
  note samples = p(4) [unfolded this]
  show ?thesis unfolding valid_bytes_def
    by (intro exI [of _ p] exI [of _ ptype] exI [of _ period] exI [of _ traces] conjI p(1-3) assms(3,4) samples)
qed

section \<open>The contract holds\<close>

definition usable_profiler :: "pb_runtime \<Rightarrow> int \<Rightarrow> string \<Rightarrow> profiler \<Rightarrow> bool" where
  "usable_profiler rt ms ty p \<longleftrightarrow> runtime_ok rt \<and> 1 \<le> ms \<and> profiler_match ms ty p"

lemma usable_profilerE:
  assumes "usable_profiler rt ms ty p"
  obtains (cpu) "runtime_ok rt" "1 \<le> ms" "ty = ''CPU''" "p = Cpu (CPUProfiler_init ms)"
    | (wall) w where "runtime_ok rt" "1 \<le> ms" "ty = ''WALL''" "p = Wall w" "steady ms w"
  using assms unfolding usable_profiler_def profiler_match_def by blast

lemma usable_real_profile:
  assumes "usable_profiler rt ms ty p" "real_profile rt e p d = Some (r, p')"
  shows "usable_profiler rt ms ty p'"
  using assms(1)
proof (cases rule: usable_profilerE)
  case cpu
  then show ?thesis using assms by auto
next
  case (wall w)
  then obtain w' where w': "wall_profile rt (re_script e) d w = Some (r, w')" "p' = Wall w'"
    using assms(2) by auto
  from steady_profile(1) [OF wall(2,5) w'(1)] have "steady ms w'" .
  then show ?thesis using wall w'(2) by (simp add: usable_profiler_def profiler_match_def)
qed

lemma good_real_profile:
  assumes "usable_profiler rt ms ty p" "real_profile rt e p d = Some (Inr bytes, p')"
  shows "valid_bytes rt ms e ty d bytes"
  using assms(1)
proof (cases rule: usable_profilerE)
  case cpu
  then obtain native where n: "re_native e d ms = Some native"
    "cpu_profile rt (\<lambda>_ _. native) d (CPUProfiler_init ms) = Inr bytes"
    using assms(2) by (auto simp: CPUProfiler_init_def)
  then obtain traces where "re_native e d ms = Some (Inr traces)"
    and b: "build_profile rt traces ''CPU'' ''nanoseconds'' (ms * 1000 * 1000) d = Inr bytes"
    by (cases native)
      (auto simp: cpu_profile_def cpu_collect_def cpu_build_profile_def CPUProfiler_init_def)
  then show ?thesis using cpu(3)
    by (intro valid_bytesI [OF cpu(1) b]) (simp_all add: requested_header_def collected_by_def)
next
  case (wall w)
  then obtain w' where "wall_profile rt (re_script e) d w = Some (Inr bytes, w')"
    using assms(2) by auto
  from steady_profile(2) [OF wall(2,5) this] obtain traces where
    b: "build_profile rt traces ''wall'' ''nanoseconds'' (wall_period_ns (WallProfiler_init ms)) d = Inr bytes"
    and "covers d (wall_period_ns (WallProfiler_init ms)) (script_stacks (re_script e)) traces"
    by (auto simp: built_from_def)
  then show ?thesis using wall(3)
    by (intro valid_bytesI [OF wall(1) b]) (simp_all add: requested_header_def collected_by_def)
qed

text \<open>The clock passes the end of a wall collection, or the native call returns.\<close>

definition env_returns :: "int \<Rightarrow> run_env \<Rightarrow> string \<Rightarrow> int \<Rightarrow> bool" where
  "env_returns ms e ty d \<longleftrightarrow> (ty = ''WALL'' \<longrightarrow> script_ends (re_script e) d) \<and>
     (ty = ''CPU'' \<longrightarrow> re_native e d ms \<noteq> None)"

lemma real_profile_returns:
  assumes "usable_profiler rt ms ty p" "env_returns ms e ty d"
  shows "real_profile rt e p d \<noteq> None"
  using assms(1)
proof (cases rule: usable_profilerE)
  case cpu
  then show ?thesis using assms(2) by (simp add: env_returns_def CPUProfiler_init_def)
next
  case (wall w)
  then show ?thesis using steady_profile_cases(1) [OF wall(2,5)] assms(2) by (simp add: env_returns_def)
qed

interpretation profilers: profiler_interface "real_profile rt" "usable_profiler rt ms" "valid_bytes rt ms"
  "env_returns ms" for rt ms
  by unfold_locales (fact usable_real_profile good_real_profile real_profile_returns)+

lemma started_usable:
  assumes "runtime_ok rt" "1 \<le> ms"
    and "config h pid svc ver dc dw ms url c0 = (Inr (), c1)" "client_start h c1 = (Inr (), c)"
  shows "all_profilers (usable_profiler rt ms) c"
  using client_start_match [OF config_match [OF assms(3)] assms(4)] assms(1,2)
  by (simp add: all_profilers_def usable_profiler_def)

section \<open>What the polling thread does\<close>

text \<open>
  In a configured and started client, everything the polling thread ever uploads is a response
  of the server with the encoding of valid bytes added.
\<close>

theorem every_upload_valid:
  assumes "runtime_ok rt" "1 \<le> ms"
    and "config h pid svc ver dc dw ms url c0 = (Inr (), c1)" "client_start h c1 = (Inr (), c)"
    and "real_run parse (real_profile rt) es (poll_start c, c) = Some (st, c', acts)"
    and "Patched name body \<in> set acts"
  shows "\<exists>kvs. JObj kvs \<in> responses es \<and>
    (\<exists>e \<in> set es. valid_upload parse (valid_bytes rt ms) e kvs name body)"
  by (rule profilers.run_uploads [OF assms(5) started_usable [OF assms(1-4)] _ subset_refl assms(6)])
    (simp add: poll_start_def split: if_splits)

text \<open>The polling thread of such a client is not ended, and each of its steps returns.\<close>

theorem real_polling_goes_on:
  assumes "runtime_ok rt" "1 \<le> ms"
    and "config h pid svc ver dc dw ms url c0 = (Inr (), c1)" "client_start h c1 = (Inr (), c)"
    and "standard_backoff (c_backoff c)" "\<forall>e \<in> set es. fair parse (re_answers e)"
    and "successively (collects parse (env_returns ms)) es"
  shows "\<exists>st c' acts. real_run parse (real_profile rt) es (poll_start c, c) = Some (st, c', acts) \<and> (\<nexists>e. st = Dead e)"
proof -
  have live: "alive (poll_start c, c)" using assms(5) by (simp add: alive_def poll_start_def)
  have "\<And>profile. poll_start c \<noteq> Collecting profile" by (simp add: poll_start_def)
  then show ?thesis
    using profilers.run_goes_on [OF started_usable [OF assms(1-4)] live assms(6,7)] by (auto simp: alive_def)
qed

end
