(* ===== verification/Agent.thy ===== *)
theory Agent
  imports ClientSpec
begin

text \<open>
  \<open>__init__.py\<close>: the entry point of the package. The state is the module's flag, the level of
  its logger and the client of the last call that made one; how many polling threads the
  process runs is kept as a count.
\<close>

record agent =
  g_started :: bool
  g_log_level :: "int option"
  g_client :: "client option"
  g_threads :: nat

definition Agent_init :: agent where
  "Agent_init = \<lparr>g_started = False, g_log_level = None, g_client = None, g_threads = 0\<rparr>"

record start_args =
  s_service :: "string option"
  s_service_version :: "string option"
  s_project_id :: "string option"
  s_service_account_json_file :: "string option"
  s_verbose :: int
  s_disable_cpu_profiling :: bool
  s_disable_wall_profiling :: bool
  s_period_ms :: int
  s_discovery_service_url :: "string option"

definition default_args :: start_args where
  "default_args = \<lparr>s_service = None, s_service_version = None, s_project_id = None,
     s_service_account_json_file = None, s_verbose = 0, s_disable_cpu_profiling = False,
     s_disable_wall_profiling = False, s_period_ms = 10, s_discovery_service_url = None\<rparr>"

text \<open>\<open>xs[i]\<close> of a Python list: a negative index counts from the end.\<close>

definition py_index :: "'a list \<Rightarrow> int \<Rightarrow> 'a res" where
  "py_index xs i = (if 0 \<le> i \<and> i < int (length xs) then Inr (xs ! nat i)
     else if i < 0 \<and> - int (length xs) \<le> i then Inr (xs ! nat (int (length xs) + i))
     else Inl IndexError)"

text \<open>\<open>[ERROR, WARNING, INFO, DEBUG][min(verbose, 3)]\<close>.\<close>

definition logging_level :: "int \<Rightarrow> int res" where
  "logging_level verbose = py_index [40, 30, 20, 10] (min verbose 3)"

text \<open>The calls on a fresh client, in their order.\<close>

definition run_client :: "host \<Rightarrow> start_args \<Rightarrow> (client, unit) py" where
  "run_client h args =
     py_bind (setup_auth h (s_project_id args) (s_service_account_json_file args)) (\<lambda>project_id.
     py_bind (config h project_id (s_service args) (s_service_version args) (s_disable_cpu_profiling args)
        (s_disable_wall_profiling args) (s_period_ms args) (s_discovery_service_url args)) (\<lambda>_.
     client_start h))"

definition start :: "host \<Rightarrow> start_args \<Rightarrow> (agent, unit) py" where
  "start h args = py_bind (py_get g_started) (\<lambda>started.
     if started then py_return () else
     if \<not> (starts_with (h_platform h) ''linux'' \<or> starts_with (h_platform h) ''darwin'')
     then py_raise NotImplementedError else
     py_bind (py_lift (logging_level (s_verbose args))) (\<lambda>level.
     py_bind (py_set (\<lambda>g. g\<lparr>g_log_level := Some level\<rparr>)) (\<lambda>_.
     case run_client h args Client_init of (r, c) \<Rightarrow>
     py_bind (py_set (\<lambda>g. g\<lparr>g_client := Some c, g_threads := g_threads g + c_threads c\<rparr>)) (\<lambda>_.
     py_bind (py_lift r) (\<lambda>_.
     py_set (\<lambda>g. g\<lparr>g_started := True\<rparr>))))))"

text \<open>A program's calls of \<open>start\<close>, one after the other; it may catch what they raise.\<close>

primrec start_calls :: "(host \<times> start_args) list \<Rightarrow> agent \<Rightarrow> unit res list \<times> agent" where
  "start_calls [] g = ([], g)"
| "start_calls (call # calls) g = (case start (fst call) (snd call) g of (r, g1) \<Rightarrow>
     (case start_calls calls g1 of (rs, g2) \<Rightarrow> (r # rs, g2)))"

section \<open>Lemmas\<close>

lemma start_started: "g_started g \<Longrightarrow> start h args g = (Inr (), g)"
  by (simp add: start_def py_monad)

text \<open>What authentication gives, and that it leaves the rest of a fresh client alone.\<close>

definition resolved_auth :: "host \<Rightarrow> start_args \<Rightarrow> json res" where
  "resolved_auth h args = fst (setup_auth h (s_project_id args) (s_service_account_json_file args) Client_init)"

lemma setup_auth_client:
  assumes "setup_auth h pid file c = (r, c')"
  shows "c' = c\<lparr>c_credentials := c_credentials c'\<rparr>"
  using assms by (auto simp: setup_auth_def py_monad split: if_splits sum.splits)

lemma config_cpu_wall_keeps:
  assumes "config h pid svc ver dc dw ms url c = (r, c')"
  shows "c_threads c' = c_threads c" "c_started c' = c_started c"
  using assms
  by (auto simp: config_def py_monad config_profilers Let_def split: if_splits)

lemma config_wall_profiler:
  assumes "config h pid svc ver dc dw ms url c = (Inr (), c')"
  shows "dict_get (c_profilers c') ''WALL'' = (if dw then None else Some (Wall (WallProfiler_init ms)))"
  using assms
  by (auto simp: config_def py_monad config_profilers Let_def split: if_splits)

lemma client_start_threads:
  assumes "\<not> c_started c"
    and "dict_get (c_profilers c) ''WALL'' = (if dw then None else Some (Wall w))"
  shows "fst (client_start h c) = (if dw \<or> h_main_thread h then Inr () else Inl ValueError)"
    "c_threads (snd (client_start h c)) = c_threads c + (if dw \<or> h_main_thread h then 1 else 0)"
  using assms by (auto simp: client_start_def py_monad register_handler_def)

text \<open>When a run of the client succeeds, and that it starts a thread exactly then.\<close>

definition config_ok :: "host \<Rightarrow> start_args \<Rightarrow> json \<Rightarrow> bool" where
  "config_ok h args pid \<longleftrightarrow>
     (cpu_enabled h (s_disable_cpu_profiling args) \<or> \<not> s_disable_wall_profiling args) \<and>
     json_truthy (resolved_project h pid) \<and> accepted_service (resolved_service h (s_service args)) \<and>
     (s_disable_wall_profiling args \<or> h_main_thread h)"

lemma run_client_outcome:
  "fst (run_client h args Client_init) =
    (case resolved_auth h args of Inl e \<Rightarrow> Inl e | Inr pid \<Rightarrow> if config_ok h args pid then Inr () else Inl ValueError) \<and>
   c_threads (snd (run_client h args Client_init)) = (case fst (run_client h args Client_init) of Inr _ \<Rightarrow> 1 | Inl _ \<Rightarrow> 0)"
proof -
  obtain r c where a: "setup_auth h (s_project_id args) (s_service_account_json_file args) Client_init = (r, c)"
    by (cases "setup_auth h (s_project_id args) (s_service_account_json_file args) Client_init")
  have c: "c_threads c = 0" "\<not> c_started c"
    by (subst setup_auth_client [OF a], simp add: Client_init_def)+
  have ra: "resolved_auth h args = r" by (simp add: resolved_auth_def a)
  show ?thesis
  proof (cases r)
    case (Inl e)
    with a c ra show ?thesis by (simp add: run_client_def)
  next
    case (Inr pid)
    let ?cfg = "config h pid (s_service args) (s_service_version args) (s_disable_cpu_profiling args)
        (s_disable_wall_profiling args) (s_period_ms args) (s_discovery_service_url args) c"
    obtain r1 c1 where cf: "?cfg = (r1, c1)" by (cases ?cfg)
    note k = config_cpu_wall_keeps [OF cf]
    have r1: "r1 = (if enabled_types h (s_disable_cpu_profiling args) (s_disable_wall_profiling args) \<noteq> [] \<and>
        json_truthy (resolved_project h pid) \<and> accepted_service (resolved_service h (s_service args))
        then Inr () else Inl ValueError)"
      using config_result [of h pid "s_service args" "s_service_version args" "s_disable_cpu_profiling args"
          "s_disable_wall_profiling args" "s_period_ms args" "s_discovery_service_url args" c] by (simp add: cf)
    show ?thesis
    proof (cases r1)
      case (Inl e)
      then show ?thesis using a cf Inr r1 k c ra
        by (auto simp: run_client_def config_ok_def enabled_types_def split: if_splits)
    next
      case (Inr u)
      have "\<not> c_started c1" "c_threads c1 = 0" using k c by simp_all
      note st = client_start_threads [OF this(1) config_wall_profiler, of h pid "s_service args"
          "s_service_version args" "s_disable_cpu_profiling args" _ _ _ c h]
      show ?thesis
        using st [of "s_disable_wall_profiling args" "s_period_ms args" "s_discovery_service_url args"]
          a cf Inr r1 k c ra \<open>r = Inr pid\<close>
        by (auto simp: run_client_def config_ok_def enabled_types_def split: if_splits)
    qed
  qed
qed

lemma logging_level_ok: "\<exists>lv. logging_level v = (if v < - 4 then Inl IndexError else Inr lv)"
  by (auto simp: logging_level_def py_index_def min_def)

lemma start_unfold:
  assumes "\<not> g_started g" "run_client h args Client_init = (r, c)"
    and "logging_level (s_verbose args) = (if s_verbose args < - 4 then Inl IndexError else Inr lv)"
    and "g1 = g\<lparr>g_log_level := Some lv, g_client := Some c, g_threads := g_threads g + c_threads c\<rparr>"
  shows "start h args g =
    (if \<not> (starts_with (h_platform h) ''linux'' \<or> starts_with (h_platform h) ''darwin'') then (Inl NotImplementedError, g)
     else if s_verbose args < - 4 then (Inl IndexError, g)
     else (r, case r of Inl e \<Rightarrow> g1 | Inr _ \<Rightarrow> g1\<lparr>g_started := True\<rparr>))"
  by (cases r) (simp_all add: start_def py_monad assms)

lemma start_eq:
  assumes "\<not> g_started g"
  shows "fst (start h args g) =
    (if \<not> (starts_with (h_platform h) ''linux'' \<or> starts_with (h_platform h) ''darwin'') then Inl NotImplementedError
     else if s_verbose args < - 4 then Inl IndexError
     else case resolved_auth h args of Inl e \<Rightarrow> Inl e
       | Inr pid \<Rightarrow> if config_ok h args pid then Inr () else Inl ValueError)" (is ?outcome)
    and "g_started (snd (start h args g)) = (fst (start h args g) = Inr ())" (is ?flag)
    and "g_threads (snd (start h args g)) = g_threads g + (if fst (start h args g) = Inr () then 1 else 0)" (is ?threads)
proof -
  obtain r c where rc: "run_client h args Client_init = (r, c)" by (cases "run_client h args Client_init")
  note o = run_client_outcome [of h args, unfolded rc]
  obtain lv where lv: "logging_level (s_verbose args) = (if s_verbose args < - 4 then Inl IndexError else Inr lv)"
    using logging_level_ok by blast
  note st = start_unfold [OF assms rc lv refl]
  have o1: "r = (case resolved_auth h args of Inl e \<Rightarrow> Inl e
      | Inr pid \<Rightarrow> if config_ok h args pid then Inr () else Inl ValueError)"
    and o2: "c_threads c = (case r of Inr _ \<Rightarrow> 1 | Inl _ \<Rightarrow> 0)" using o by simp_all
  show ?outcome unfolding st o1 [symmetric] by simp
  show ?flag unfolding st using assms by (cases r) simp_all
  show ?threads unfolding st using assms o2 by (cases r) simp_all
qed

lemma start_calls_started: "g_started g \<Longrightarrow> start_calls calls g = (map (\<lambda>_. Inr ()) calls, g)"
  by (induction calls) (auto simp: start_started)

lemma start_calls_append:
  "start_calls (calls @ later) g = (case start_calls calls g of (rs, g1) \<Rightarrow>
     case start_calls later g1 of (rs1, g2) \<Rightarrow> (rs @ rs1, g2))"
  by (induction calls arbitrary: g) (auto split: prod.splits)

lemma start_calls_counts:
  assumes "\<not> g_started g0" "g_threads g0 = 0" "start_calls calls g0 = (rs, g)"
  shows "g_threads g \<le> 1 \<and> (g_threads g = 1 \<longleftrightarrow> Inr () \<in> set rs) \<and> (g_started g \<longleftrightarrow> Inr () \<in> set rs)"
  using assms
proof (induction calls arbitrary: g0 rs)
  case (Cons call calls)
  obtain r g1 where s: "start (fst call) (snd call) g0 = (r, g1)" by (cases "start (fst call) (snd call) g0")
  obtain rs1 where rs: "start_calls calls g1 = (rs1, g)" "rs = r # rs1"
    using Cons.prems(3) s by (auto split: prod.splits)
  note e = start_eq(2,3) [OF Cons.prems(1), of "fst call" "snd call", unfolded s]
  show ?case
  proof (cases "r = Inr ()")
    case True
    then have "g_started g1" "g_threads g1 = 1" using e Cons.prems(2) by simp_all
    then show ?thesis using rs True start_calls_started [of g1 calls] by auto
  next
    case False
    then have "\<not> g_started g1" "g_threads g1 = 0" using e Cons.prems(2) by simp_all
    from Cons.IH [OF this rs(1)] False rs(2) show ?thesis by auto
  qed
qed auto

section \<open>Properties\<close>

text \<open>
  C24: the first call succeeds exactly on Linux or macOS, with a verbosity of at least -4,
  working credentials, a valid configuration, and on the main thread unless wall profiling is
  disabled; otherwise it raises \<open>NotImplementedError\<close>, \<open>IndexError\<close>, what authentication
  raised, or \<open>ValueError\<close>, in this order, and the package can still be started. The docstring
  promises \<open>ValueError\<close> for invalid arguments and for information that cannot be determined: a
  verbosity below -4 and an authentication that fails with another exception do not keep it.
\<close>

theorem start_outcome:
  assumes "\<not> g_started g"
  shows "fst (start h args g) =
    (if \<not> (starts_with (h_platform h) ''linux'' \<or> starts_with (h_platform h) ''darwin'') then Inl NotImplementedError
     else if s_verbose args < - 4 then Inl IndexError
     else case resolved_auth h args of Inl e \<Rightarrow> Inl e
       | Inr pid \<Rightarrow> if config_ok h args pid then Inr () else Inl ValueError) \<and>
    (g_started (snd (start h args g)) \<longleftrightarrow> fst (start h args g) = Inr ())"
  using start_eq [OF assms] by simp

lemma sample_start:
  "resolved_auth sample_host default_args = Inr (JStr ''proj'')" "config_ok sample_host default_args (JStr ''proj'')"
  by (simp_all add: resolved_auth_def setup_auth_def py_monad default_args_def sample_host_def str_truthy_def)
    (use sample_service sample_accepted in
      \<open>simp add: config_ok_def default_args_def resolved_project_def sample_host_def\<close>)

theorem start_outcome_witness:
  "fst (start sample_host default_args Agent_init) = Inr () \<and>
   fst (start (sample_host\<lparr>h_platform := ''win32''\<rparr>) default_args Agent_init) = Inl NotImplementedError \<and>
   fst (start sample_host (default_args\<lparr>s_verbose := - 5\<rparr>) Agent_init) = Inl IndexError"
  using start_outcome [of Agent_init sample_host default_args] sample_start
    start_outcome [of Agent_init sample_host "default_args\<lparr>s_verbose := - 5\<rparr>"]
    start_outcome [of Agent_init "sample_host\<lparr>h_platform := ''win32''\<rparr>" default_args]
  by (simp add: Agent_init_def sample_host_def starts_with_def default_args_def)

text \<open>
  C25: however often a program calls the entry point, one call after the other, and whatever the
  calls raise, the process runs at most one polling thread: it runs one exactly when a call has
  succeeded, and every later call then returns and changes nothing, whatever its arguments: the
  flag, the log level, the client and the threads stay those of the call that succeeded. (Calls
  that overlap are the subject of theory \<open>AgentRace\<close>.)
\<close>

theorem one_polling_thread:
  "case start_calls calls Agent_init of (rs, g) \<Rightarrow>
     g_threads g \<le> 1 \<and> (g_threads g = 1 \<longleftrightarrow> Inr () \<in> set rs) \<and> (g_started g \<longleftrightarrow> Inr () \<in> set rs) \<and>
     (Inr () \<in> set rs \<longrightarrow>
       start_calls (calls @ later) Agent_init = (rs @ replicate (length later) (Inr ()), g))"
proof -
  obtain rs g where run: "start_calls calls Agent_init = (rs, g)" by (cases "start_calls calls Agent_init")
  have new: "\<not> g_started Agent_init" "g_threads Agent_init = 0" by (simp_all add: Agent_init_def)
  note counts = start_calls_counts [OF new run]
  have "start_calls (calls @ later) Agent_init = (rs @ replicate (length later) (Inr ()), g)" if "Inr () \<in> set rs"
    using start_calls_started [of g later] that counts by (simp add: start_calls_append run map_replicate_const)
  with counts run show ?thesis by simp
qed

theorem one_polling_thread_witness:
  "start_calls [(sample_host\<lparr>h_platform := ''win32''\<rparr>, default_args), (sample_host, default_args),
     (sample_host, default_args\<lparr>s_verbose := 3\<rparr>)] Agent_init =
   ([Inl NotImplementedError, Inr (), Inr ()], snd (start sample_host default_args Agent_init)) \<and>
   g_threads (snd (start sample_host default_args Agent_init)) = 1"
proof -
  let ?calls = "[(sample_host\<lparr>h_platform := ''win32''\<rparr>, default_args), (sample_host, default_args)]"
  have new: "\<not> g_started Agent_init" by (simp add: Agent_init_def)
  have "start (sample_host\<lparr>h_platform := ''win32''\<rparr>) default_args Agent_init = (Inl NotImplementedError, Agent_init)"
    by (simp add: start_def py_monad Agent_init_def starts_with_def)
  moreover have "fst (start sample_host default_args Agent_init) = Inr ()"
    using start_eq(1) [OF new, of sample_host default_args] sample_start
    by (simp add: sample_host_def starts_with_def default_args_def)
  ultimately have "start_calls ?calls Agent_init =
      ([Inl NotImplementedError, Inr ()], snd (start sample_host default_args Agent_init))"
    by (cases "start sample_host default_args Agent_init") simp
  then show ?thesis
    using one_polling_thread [of ?calls "[(sample_host, default_args\<lparr>s_verbose := 3\<rparr>)]"] by simp
qed

end
