(* ===== verification/NativeClock.thy ===== *)
theory NativeClock
  imports Prelude "HOL-Library.Signed_Division"
begin

text \<open>
  \<open>clock.cc\<close> and \<open>clock.h\<close> of the native extension: arithmetic on \<open>timespec\<close> values and the
  absolute sleep. Division truncates as in C; the values are far from the bounds of their
  64-bit fields. What is assumed of \<open>clock_nanosleep\<close> is its documentation: it fails with
  \<open>EINVAL\<close> when the nanoseconds are not between 0 and 999999999, with \<open>EINTR\<close> when a signal
  interrupts it, and otherwise returns 0 once the time is reached.
\<close>

record timespec =
  tv_sec :: int
  tv_nsec :: int

definition kNanosPerSecond :: int where
  "kNanosPerSecond = 1000 * 1000 * 1000"

definition TimeAdd :: "timespec \<Rightarrow> timespec \<Rightarrow> timespec" where
  "TimeAdd t1 t2 = (let t = \<lparr>tv_sec = tv_sec t1 + tv_sec t2, tv_nsec = tv_nsec t1 + tv_nsec t2\<rparr> in
     if tv_nsec t > kNanosPerSecond
     then \<lparr>tv_sec = tv_sec t + tv_nsec t sdiv kNanosPerSecond, tv_nsec = tv_nsec t smod kNanosPerSecond\<rparr>
     else t)"

definition TimeLessThan :: "timespec \<Rightarrow> timespec \<Rightarrow> bool" where
  "TimeLessThan t1 t2 \<longleftrightarrow> tv_sec t1 < tv_sec t2 \<or> (tv_sec t1 = tv_sec t2 \<and> tv_nsec t1 < tv_nsec t2)"

definition NanosToTimeSpec :: "int \<Rightarrow> timespec" where
  "NanosToTimeSpec nanos = \<lparr>tv_sec = nanos sdiv kNanosPerSecond, tv_nsec = nanos smod kNanosPerSecond\<rparr>"

definition EINTR :: int where "EINTR = 4"

definition EINVAL :: int where "EINVAL = 22"

definition valid_timespec :: "timespec \<Rightarrow> bool" where
  "valid_timespec t \<longleftrightarrow> 0 \<le> tv_nsec t \<and> tv_nsec t < kNanosPerSecond"

text \<open>The result of the call, given whether a signal interrupts it.\<close>

definition clock_nanosleep :: "timespec \<Rightarrow> bool \<Rightarrow> int" where
  "clock_nanosleep t interrupted =
     (if \<not> valid_timespec t then EINVAL else if interrupted then EINTR else 0)"

text \<open>\<open>SleepUntil\<close>, with the number of interruptions to come; \<open>None\<close> is a call that never returns.\<close>

partial_function (option) SleepUntil :: "timespec \<Rightarrow> nat \<Rightarrow> unit option" where
  "SleepUntil ts interrupts =
     (if clock_nanosleep ts (0 < interrupts) > 0 then SleepUntil ts (interrupts - 1) else Some ())"

section \<open>Lemmas\<close>

definition nanos_of :: "timespec \<Rightarrow> int" where
  "nanos_of t = tv_sec t * kNanosPerSecond + tv_nsec t"

lemma sdiv_smod_nonneg: "0 \<le> (a :: int) \<Longrightarrow> 0 < b \<Longrightarrow> a sdiv b = a div b \<and> a smod b = a mod b"
  by (simp add: signed_divide_int_def signed_modulo_int_def sgn_if minus_div_mult_eq_mod abs_if)

lemma nanos_TimeAdd:
  assumes "0 \<le> tv_nsec a" "0 \<le> tv_nsec b"
  shows "nanos_of (TimeAdd a b) = nanos_of a + nanos_of b"
  using sdiv_smod_nonneg [of "tv_nsec a + tv_nsec b" kNanosPerSecond] assms
  by (simp add: TimeAdd_def Let_def nanos_of_def kNanosPerSecond_def algebra_simps)

lemma nsec_TimeAdd:
  assumes "valid_timespec a" "valid_timespec b"
  shows "tv_nsec (TimeAdd a b) = (if tv_nsec a + tv_nsec b = kNanosPerSecond then kNanosPerSecond
    else (tv_nsec a + tv_nsec b) mod kNanosPerSecond)"
  using sdiv_smod_nonneg [of "tv_nsec a + tv_nsec b" kNanosPerSecond] assms
  by (auto simp: TimeAdd_def Let_def valid_timespec_def kNanosPerSecond_def)

lemma valid_TimeAdd:
  assumes "valid_timespec a" "valid_timespec b"
  shows "valid_timespec (TimeAdd a b) \<longleftrightarrow> tv_nsec a + tv_nsec b \<noteq> kNanosPerSecond"
  unfolding valid_timespec_def nsec_TimeAdd [OF assms] by (simp add: kNanosPerSecond_def)

lemma TimeLessThan_nanos:
  assumes "valid_timespec a" "valid_timespec b"
  shows "TimeLessThan a b \<longleftrightarrow> nanos_of a < nanos_of b"
  using assms unfolding TimeLessThan_def nanos_of_def valid_timespec_def kNanosPerSecond_def by auto

lemma NanosToTimeSpec_valid:
  assumes "0 \<le> n" shows "valid_timespec (NanosToTimeSpec n)" "nanos_of (NanosToTimeSpec n) = n"
  using sdiv_smod_nonneg [OF assms, of kNanosPerSecond]
  by (simp_all add: NanosToTimeSpec_def valid_timespec_def nanos_of_def kNanosPerSecond_def)

lemma SleepUntil_valid: "valid_timespec ts \<Longrightarrow> SleepUntil ts n = Some ()"
proof (induction n)
  case 0
  then show ?case by (simp add: SleepUntil.simps [of ts 0] clock_nanosleep_def)
next
  case (Suc n)
  then show ?case by (simp add: SleepUntil.simps [of ts "Suc n"] clock_nanosleep_def EINTR_def)
qed

lemma SleepUntil_valid_only:
  assumes "SleepUntil ts n = Some y" shows "valid_timespec ts"
  by (rule SleepUntil.raw_induct [of "\<lambda>ts n y. valid_timespec ts", OF _ assms])
    (auto simp: clock_nanosleep_def EINVAL_def split: if_splits)

lemma SleepUntil_returns: "SleepUntil ts n = Some () \<longleftrightarrow> valid_timespec ts"
  using SleepUntil_valid SleepUntil_valid_only by blast

end
