(* ===== verification/NativeTraces.thy ===== *)
theory NativeTraces
  imports Prelude "HOL-Library.Word"
begin

text \<open>
  \<open>stacktraces.cc\<close> and \<open>stacktraces.h\<close> of the native extension: the hash of a stack trace, the
  fixed-size table that signal handlers fill, the growing multiset it is emptied into, and the
  harvest. Here the operations on the table run one after the other; their interleaving is the
  subject of theory \<open>NativeRace\<close>.
\<close>

unbundle bit_operations_syntax

section \<open>Frames, equality and hash\<close>

text \<open>A frame: a 32-bit number and the address of a code object.\<close>

datatype call_frame = CallFrame (cf_lineno: "32 word") (cf_code: "64 word")

type_synonym call_trace = "call_frame list"

definition kMaxFramesToCapture :: nat where
  "kMaxFramesToCapture = 128"

definition kMaxStackTraces :: nat where
  "kMaxStackTraces = 2048"

definition kTraceCountLocked :: int where
  "kTraceCountLocked = -1"

text \<open>The two halves of a round of the hash; the line number is converted with its sign.\<close>

definition hash_mix :: "64 word \<Rightarrow> 64 word \<Rightarrow> 64 word" where
  "hash_mix h v = (let h1 = h + v; h2 = h1 + push_bit 10 h1 in h2 XOR drop_bit 6 h2)"

definition hash_frame :: "call_frame \<Rightarrow> 64 word \<Rightarrow> 64 word" where
  "hash_frame f h = hash_mix (hash_mix h (scast (cf_lineno f))) (cf_code f)"

definition CalculateHash :: "call_trace \<Rightarrow> 64 word" where
  "CalculateHash frames = (let h = fold hash_frame frames 0; h1 = h + push_bit 3 h in h1 XOR drop_bit 11 h1)"

text \<open>\<open>Equal\<close> compares the first frames of two arrays.\<close>

fun equal_frames :: "nat \<Rightarrow> call_trace \<Rightarrow> call_trace \<Rightarrow> bool" where
  "equal_frames 0 f1 f2 = True"
| "equal_frames (Suc n) (a # f1) (b # f2) =
     (if cf_lineno a \<noteq> cf_lineno b \<or> cf_code a \<noteq> cf_code b then False else equal_frames n f1 f2)"
| "equal_frames (Suc n) _ _ = False"

section \<open>The fixed table\<close>

record trace_entry =
  e_frames :: call_trace
  e_count :: int

type_synonym trace_table = "trace_entry list"

definition empty_entry :: trace_entry where
  "empty_entry = \<lparr>e_frames = [], e_count = 0\<rparr>"

definition table_reset :: trace_table where
  "table_reset = replicate kMaxStackTraces empty_entry"

text \<open>The slot of a probe: the 64-bit sum wraps before the remainder is taken.\<close>

definition probe :: "64 word \<Rightarrow> nat \<Rightarrow> nat" where
  "probe hash_val i = unat (of_nat i + hash_val) mod kMaxStackTraces"

text \<open>
  \<open>Add\<close>: \<open>ok i\<close> is whether the weak compare-and-exchange of probe \<open>i\<close> succeeds, which it may
  fail to do spuriously. The result is the success and the table.
\<close>

function add_from :: "(nat \<Rightarrow> bool) \<Rightarrow> call_trace \<Rightarrow> 64 word \<Rightarrow> nat \<Rightarrow> trace_table \<Rightarrow> bool \<times> trace_table" where
  "add_from ok trace h i table =
     (if kMaxStackTraces \<le> i then (False, table) else
      let idx = probe h i; entry = table ! idx; count = e_count entry in
      if count = 0 then
        (if ok i then (True, table[idx := entry\<lparr>e_frames := trace, e_count := 1\<rparr>])
         else add_from ok trace h (i + 1) table)
      else if count = kTraceCountLocked then add_from ok trace h (i + 1) table
      else if length trace = length (e_frames entry) \<and> equal_frames (length trace) trace (e_frames entry) \<and> ok i
      then (True, table[idx := entry\<lparr>e_count := count + 1\<rparr>])
      else add_from ok trace h (i + 1) table)"
  by pat_completeness auto
termination
  by (relation "measure (\<lambda>(ok, trace, h, i, table). kMaxStackTraces - i)") auto

declare add_from.simps [simp del]

definition table_add :: "(nat \<Rightarrow> bool) \<Rightarrow> call_trace \<Rightarrow> trace_table \<Rightarrow> bool \<times> trace_table" where
  "table_add ok trace table = add_from ok trace (CalculateHash trace) 0 table"

text \<open>\<open>Extract\<close>: the frames read, the count when there is one, and the table with the slot freed.\<close>

definition table_extract :: "int \<Rightarrow> nat \<Rightarrow> trace_table \<Rightarrow> call_trace \<times> int option \<times> trace_table" where
  "table_extract location max_frames table =
     (if location < 0 \<or> int kMaxStackTraces \<le> location then ([], None, table) else
      let entry = table ! nat location; c = e_count entry in
      if c \<le> 0 then ([], None, table)
      else (take (min (length (e_frames entry)) max_frames) (e_frames entry), Some c,
            table[nat location := entry\<lparr>e_count := 0\<rparr>]))"

section \<open>The growing multiset and the harvest\<close>

type_synonym trace_counts = "(call_trace, int) dict"

definition multiset_add :: "call_trace \<Rightarrow> int \<Rightarrow> trace_counts \<Rightarrow> trace_counts" where
  "multiset_add trace count m = (case dict_get m trace of
       Some n \<Rightarrow> dict_set m trace (n + count) | None \<Rightarrow> dict_set m trace count)"

text \<open>One round of the loop, and the loop over all slots.\<close>

definition harvest_slot :: "nat \<Rightarrow> nat \<times> trace_table \<times> trace_counts \<Rightarrow> nat \<times> trace_table \<times> trace_counts" where
  "harvest_slot i s = (case s of (trace_count, from, to) \<Rightarrow>
     (case table_extract (int i) kMaxFramesToCapture from of
        (frames, Some count, from1) \<Rightarrow>
          if frames \<noteq> [] \<and> 0 < count then (trace_count + 1, from1, multiset_add frames count to)
          else (trace_count, from1, to)
      | (frames, None, from1) \<Rightarrow> (trace_count, from1, to)))"

definition HarvestSamples :: "trace_table \<Rightarrow> trace_counts \<Rightarrow> nat \<times> trace_table \<times> trace_counts" where
  "HarvestSamples from to = fold harvest_slot [0..<kMaxStackTraces] (0, from, to)"

section \<open>What a table holds\<close>

definition entry_count :: "call_trace \<Rightarrow> trace_entry \<Rightarrow> int" where
  "entry_count t e = (if 0 < e_count e \<and> e_frames e = t then e_count e else 0)"

definition count_in :: "call_trace \<Rightarrow> trace_table \<Rightarrow> int" where
  "count_in t table = sum_list (map (entry_count t) table)"

text \<open>The entries a harvest moves, and the samples of the whole table that it moves.\<close>

definition harvest_ok :: "trace_entry \<Rightarrow> bool" where
  "harvest_ok e \<longleftrightarrow> 0 < e_count e \<and> e_frames e \<noteq> []"

definition harvest_count :: "trace_entry \<Rightarrow> int" where
  "harvest_count e = (if harvest_ok e then e_count e else 0)"

definition table_total :: "trace_table \<Rightarrow> int" where
  "table_total table = sum_list (map harvest_count table)"

text \<open>A table of the right size whose entries fit and are not locked.\<close>

definition wf_table :: "trace_table \<Rightarrow> bool" where
  "wf_table table \<longleftrightarrow> length table = kMaxStackTraces \<and>
     (\<forall>e \<in> set table. 0 \<le> e_count e \<and> length (e_frames e) \<le> kMaxFramesToCapture)"

lemma equal_frames_iff:
  "length f1 = n \<Longrightarrow> length f2 = n \<Longrightarrow> equal_frames n f1 f2 \<longleftrightarrow> f1 = f2"
proof (induction n f1 f2 rule: equal_frames.induct)
  case (2 n a f1 b f2)
  then show ?case by (cases a; cases b) auto
qed auto

lemma probe_less: "probe h i < kMaxStackTraces"
  by (simp add: probe_def kMaxStackTraces_def)

lemma sum_list_update:
  fixes f :: "'a \<Rightarrow> int"
  assumes "i < length xs"
  shows "sum_list (map f (xs[i := x])) = sum_list (map f xs) - f (xs ! i) + f x"
  using assms
proof (induction xs arbitrary: i)
  case (Cons y ys)
  then show ?case by (cases i) auto
qed simp

lemma count_in_update:
  "i < length table \<Longrightarrow> count_in t (table[i := e]) = count_in t table - entry_count t (table ! i) + entry_count t e"
  by (simp add: count_in_def sum_list_update)

lemma wf_table_update:
  "wf_table table \<Longrightarrow> 0 \<le> e_count e \<Longrightarrow> length (e_frames e) \<le> kMaxFramesToCapture \<Longrightarrow> wf_table (table[i := e])"
  by (auto simp: wf_table_def dest!: set_update_subset_insert [THEN subsetD])

lemma wf_table_nth: "wf_table table \<Longrightarrow> i < kMaxStackTraces \<Longrightarrow>
    0 \<le> e_count (table ! i) \<and> length (e_frames (table ! i)) \<le> kMaxFramesToCapture"
  by (auto simp: wf_table_def)

text \<open>\<open>Add\<close> with the comparison of the frames as equality.\<close>

lemma same_trace:
  "(length t = length f \<and> equal_frames (length t) t f \<and> P) = (t = f \<and> P)"
  using equal_frames_iff [of t "length t" f] by auto

lemma add_from_unfold:
  "add_from ok trace h i table =
    (if kMaxStackTraces \<le> i then (False, table) else
     let e = table ! probe h i in
     if e_count e = 0 \<and> ok i then (True, table[probe h i := e\<lparr>e_frames := trace, e_count := 1\<rparr>])
     else if e_count e \<noteq> 0 \<and> e_count e \<noteq> kTraceCountLocked \<and> trace = e_frames e \<and> ok i
     then (True, table[probe h i := e\<lparr>e_count := e_count e + 1\<rparr>])
     else add_from ok trace h (i + 1) table)"
  by (subst add_from.simps, unfold same_trace) (auto simp: Let_def kTraceCountLocked_def)

text \<open>Induction over the probes that are left.\<close>

lemma probe_induct [case_names finish step]:
  assumes "\<And>i. kMaxStackTraces \<le> i \<Longrightarrow> P i"
    and "\<And>i. i < kMaxStackTraces \<Longrightarrow> P (i + 1) \<Longrightarrow> P i"
  shows "P i"
proof (induction "kMaxStackTraces - i" arbitrary: i)
  case 0
  then show ?case by (intro assms(1)) simp
next
  case (Suc n)
  then have "i < kMaxStackTraces" "n = kMaxStackTraces - (i + 1)" by simp_all
  then show ?case using Suc.hyps(1) assms(2) by blast
qed

text \<open>A successful addition adds one occurrence; a failed one changes nothing.\<close>

lemma add_from_counts:
  assumes "wf_table table" "length trace \<le> kMaxFramesToCapture" "add_from ok trace h i table = (r, table')"
  shows "wf_table table' \<and> count_in t table' = count_in t table + (if r \<and> t = trace then 1 else 0) \<and>
    table_total table' = table_total table + (if r \<and> trace \<noteq> [] then 1 else 0) \<and> (\<not> r \<longrightarrow> table' = table)"
  using assms(3)
proof (induction i rule: probe_induct)
  case (finish i)
  then show ?case using assms(1) by (simp add: add_from_unfold [of ok trace h i])
next
  case (step i)
  let ?e = "table ! probe h i"
  have idx: "probe h i < length table" using assms(1) probe_less by (simp add: wf_table_def)
  have e: "0 \<le> e_count ?e" "length (e_frames ?e) \<le> kMaxFramesToCapture"
    using wf_table_nth [OF assms(1) probe_less] by auto
  note unfold = step.prems [unfolded add_from_unfold [of ok trace h i] Let_def]
  consider (new) "e_count ?e = 0" "ok i" | (bump) "0 < e_count ?e" "trace = e_frames ?e" "ok i"
    | (onward) "add_from ok trace h (i + 1) table = (r, table')"
    using unfold step.hyps e(1) by (auto split: if_splits)
  then show ?case
  proof cases
    case new
    then have "r" "table' = table[probe h i := ?e\<lparr>e_frames := trace, e_count := 1\<rparr>]"
      using unfold step.hyps by auto
    then show ?thesis using new assms(1,2) idx
      by (simp add: count_in_update wf_table_update entry_count_def table_total_def sum_list_update
          harvest_count_def harvest_ok_def)
  next
    case bump
    then have "r" "table' = table[probe h i := ?e\<lparr>e_count := e_count ?e + 1\<rparr>]"
      using unfold step.hyps by (auto simp: kTraceCountLocked_def)
    then show ?thesis using bump assms(1) idx e
      by (simp add: count_in_update wf_table_update entry_count_def table_total_def sum_list_update
          harvest_count_def harvest_ok_def)
  next
    case onward
    then show ?thesis by (rule step.IH)
  qed
qed

text \<open>The probes visit every slot.\<close>

lemma probe_eq: "probe h i = (i + unat h) mod kMaxStackTraces"
proof -
  have "unat (of_nat i + h) = (i + unat h) mod 2 ^ 64"
    by (simp add: unat_word_ariths unat_of_nat mod_add_left_eq)
  moreover have "(i + unat h) mod 2 ^ 64 mod kMaxStackTraces = (i + unat h) mod kMaxStackTraces"
    by (rule mod_mod_cancel) (simp add: kMaxStackTraces_def)
  ultimately show ?thesis by (simp add: probe_def)
qed

lemma probe_surj:
  assumes "j < kMaxStackTraces" obtains i where "i < kMaxStackTraces" "probe h i = j"
proof -
  let ?m = kMaxStackTraces
  have m: "0 < ?m" by (simp add: kMaxStackTraces_def)
  let ?r = "unat h mod ?m"
  let ?i = "(j + (?m - ?r)) mod ?m"
  have "?r < ?m" using m by simp
  have "(?i + unat h) mod ?m = (j + (?m - ?r) + ?r) mod ?m" by (simp add: mod_add_left_eq mod_add_right_eq)
  also have "j + (?m - ?r) + ?r = j + ?m" using \<open>?r < ?m\<close> by simp
  finally have "probe h ?i = j" using assms by (simp add: probe_eq)
  with m that show thesis by (meson mod_less_divisor)
qed

text \<open>With exchanges that do not fail spuriously, an addition only fails on a table full of other traces.\<close>

lemma add_from_full:
  assumes "wf_table table" "add_from (\<lambda>_. True) trace h i table = (False, table')" "i \<le> k" "k < kMaxStackTraces"
  shows "0 < e_count (table ! probe h k) \<and> e_frames (table ! probe h k) \<noteq> trace"
  using assms(2,3)
proof (induction i rule: probe_induct)
  case (finish i)
  then show ?case using assms(4) by simp
next
  case (step i)
  have e: "0 \<le> e_count (table ! probe h i)" using wf_table_nth [OF assms(1) probe_less] by auto
  note unfold = step.prems(1) [unfolded add_from_unfold [of "\<lambda>_. True" trace h i] Let_def]
  from unfold step.hyps e have here: "0 < e_count (table ! probe h i) \<and> e_frames (table ! probe h i) \<noteq> trace"
    and rest: "add_from (\<lambda>_. True) trace h (i + 1) table = (False, table')"
    by (auto simp: kTraceCountLocked_def split: if_splits)
  show ?case
  proof (cases "i = k")
    case True
    with here show ?thesis by simp
  next
    case False
    then show ?thesis using step.IH [OF rest] step.prems(2) by simp
  qed
qed

lemma table_add_full:
  assumes "wf_table table" "table_add (\<lambda>_. True) trace table = (False, table')" "e \<in> set table"
  shows "0 < e_count e \<and> e_frames e \<noteq> trace"
proof -
  from assms(1,3) obtain j where j: "j < kMaxStackTraces" "e = table ! j"
    by (metis in_set_conv_nth wf_table_def)
  from j(1) obtain i where i: "i < kMaxStackTraces" "probe (CalculateHash trace) i = j" by (rule probe_surj)
  from add_from_full [OF assms(1) assms(2) [unfolded table_add_def] le0 i(1)] show ?thesis
    unfolding i(2) j(2) [symmetric] .
qed

section \<open>The harvest\<close>

lemma dict_get_default_multiset_add:
  "dict_get_default (multiset_add t n m) u 0 = dict_get_default m u 0 + (if u = t then n else 0)"
  by (simp add: multiset_add_def dict_get_default_def split: option.split)

lemma dict_total_multiset_add: "dict_total (multiset_add t n m) = dict_total m + n"
  by (simp add: multiset_add_def dict_total_set dict_get_default_def split: option.split)

lemma table_extract_eq:
  assumes "wf_table table" "i < kMaxStackTraces"
  shows "table_extract (int i) kMaxFramesToCapture table =
    (if 0 < e_count (table ! i) then (e_frames (table ! i), Some (e_count (table ! i)),
        table[i := (table ! i)\<lparr>e_count := 0\<rparr>])
     else ([], None, table))"
  using wf_table_nth [OF assms] assms(2) by (auto simp: table_extract_def Let_def)

text \<open>What a slot contributes to the multiset: its count, unless its trace is empty.\<close>

definition harvested :: "call_trace \<Rightarrow> trace_entry \<Rightarrow> int" where
  "harvested t e = (if t \<noteq> [] then entry_count t e else 0)"

lemma harvest_slot_eq:
  assumes "wf_table table" "i < kMaxStackTraces"
  shows "\<exists>to'. harvest_slot i (n, table, to) =
      (n + (if harvest_ok (table ! i) then 1 else 0), table[i := (table ! i)\<lparr>e_count := 0\<rparr>], to') \<and>
    (\<forall>t. dict_get_default to' t 0 = dict_get_default to t 0 + harvested t (table ! i)) \<and>
    dict_total to' = dict_total to + harvest_count (table ! i)"
proof -
  have e: "0 \<le> e_count (table ! i)" using wf_table_nth [OF assms] by simp
  have same: "table[i := (table ! i)\<lparr>e_count := 0\<rparr>] = table" if "e_count (table ! i) = 0"
    using that by (metis list_update_id trace_entry.surjective trace_entry.update_convs(2))
  show ?thesis
    using e table_extract_eq [OF assms] same
    by (auto simp: harvest_slot_def harvest_ok_def harvested_def harvest_count_def entry_count_def
        dict_get_default_multiset_add dict_total_multiset_add)
qed

lemma harvest_prefix:
  assumes "wf_table table" "k \<le> kMaxStackTraces"
  shows "\<exists>to'. fold harvest_slot [0..<k] (0, table, to) =
      (length (filter harvest_ok (take k table)),
       map (\<lambda>e. e\<lparr>e_count := 0\<rparr>) (take k table) @ drop k table, to') \<and>
    (\<forall>t. dict_get_default to' t 0 = dict_get_default to t 0 + sum_list (map (harvested t) (take k table))) \<and>
    dict_total to' = dict_total to + sum_list (map harvest_count (take k table))"
  using assms(2)
proof (induction k)
  case 0
  then show ?case by simp
next
  case (Suc k)
  then obtain to1 where fold: "fold harvest_slot [0..<k] (0, table, to) =
      (length (filter harvest_ok (take k table)), map (\<lambda>e. e\<lparr>e_count := 0\<rparr>) (take k table) @ drop k table, to1)"
    and to1: "\<forall>t. dict_get_default to1 t 0 = dict_get_default to t 0 + sum_list (map (harvested t) (take k table))"
      "dict_total to1 = dict_total to + sum_list (map harvest_count (take k table))"
    by auto
  let ?table = "map (\<lambda>e. e\<lparr>e_count := 0\<rparr>) (take k table) @ drop k table"
  have k: "k < length table" using Suc.prems assms(1) by (simp add: wf_table_def)
  have wf: "wf_table ?table"
    using assms(1) k by (auto simp: wf_table_def dest: in_set_takeD in_set_dropD)
  have nth: "?table ! k = table ! k" using k by (simp add: nth_append)
  have upd: "?table[k := (table ! k)\<lparr>e_count := 0\<rparr>] =
      map (\<lambda>e. e\<lparr>e_count := 0\<rparr>) (take (Suc k) table) @ drop (Suc k) table"
    using k by (simp add: list_update_append take_Suc_conv_app_nth Cons_nth_drop_Suc [symmetric])
  have "k < kMaxStackTraces" using Suc.prems by simp
  from harvest_slot_eq [OF wf this, of "length (filter harvest_ok (take k table))" to1]
  obtain to2 where "harvest_slot k (length (filter harvest_ok (take k table)), ?table, to1) =
      (length (filter harvest_ok (take k table)) + (if harvest_ok (table ! k) then 1 else 0),
       map (\<lambda>e. e\<lparr>e_count := 0\<rparr>) (take (Suc k) table) @ drop (Suc k) table, to2)"
    "\<forall>t. dict_get_default to2 t 0 = dict_get_default to1 t 0 + harvested t (table ! k)"
    "dict_total to2 = dict_total to1 + harvest_count (table ! k)"
    unfolding nth upd by auto
  with fold to1 k show ?case by (simp add: take_Suc_conv_app_nth)
qed

lemma HarvestSamples_eq:
  assumes "wf_table table"
  shows "\<exists>to'. HarvestSamples table to = (length (filter harvest_ok table), map (\<lambda>e. e\<lparr>e_count := 0\<rparr>) table, to') \<and>
    (\<forall>t. dict_get_default to' t 0 = dict_get_default to t 0 + (if t \<noteq> [] then count_in t table else 0)) \<and>
    dict_total to' = dict_total to + table_total table"
proof -
  have len: "length table = kMaxStackTraces" using assms by (simp add: wf_table_def)
  have "sum_list (map (harvested t) table) = (if t \<noteq> [] then count_in t table else 0)" for t
  proof -
    have "harvested t = (if t \<noteq> [] then entry_count t else (\<lambda>_. 0))" by (auto simp: harvested_def fun_eq_iff)
    then show ?thesis by (simp add: count_in_def)
  qed
  with harvest_prefix [OF assms order_refl, of to] len show ?thesis by (simp add: HarvestSamples_def table_total_def)
qed

lemma wf_table_reset: "wf_table table_reset" "count_in t table_reset = 0" "table_total table_reset = 0"
  by (auto simp: wf_table_def table_reset_def empty_entry_def count_in_def entry_count_def sum_list_replicate
      table_total_def harvest_count_def harvest_ok_def)

lemma wf_table_cleared:
  assumes "wf_table table"
  shows "wf_table (map (\<lambda>e. e\<lparr>e_count := 0\<rparr>) table)" "count_in t (map (\<lambda>e. e\<lparr>e_count := 0\<rparr>) table) = 0"
    "table_total (map (\<lambda>e. e\<lparr>e_count := 0\<rparr>) table) = 0"
proof -
  show "table_total (map (\<lambda>e. e\<lparr>e_count := 0\<rparr>) table) = 0"
    by (simp add: table_total_def harvest_count_def harvest_ok_def comp_def)
  show "wf_table (map (\<lambda>e. e\<lparr>e_count := 0\<rparr>) table)" using assms by (auto simp: wf_table_def)
  show "count_in t (map (\<lambda>e. e\<lparr>e_count := 0\<rparr>) table) = 0"
    by (simp add: count_in_def entry_count_def comp_def)
qed

text \<open>When every exchange fails nothing is added, and an empty table has nothing to harvest.\<close>

lemma table_add_never: "table_add (\<lambda>_. False) t table = (False, table)"
proof -
  have "add_from (\<lambda>_. False) t h i table = (False, table)" for h i
    by (induction i rule: probe_induct) (simp_all add: add_from.simps [of _ _ _ _ table] Let_def)
  then show ?thesis by (simp add: table_add_def)
qed

lemma HarvestSamples_reset: "HarvestSamples table_reset to = (0, table_reset, to)"
proof -
  have "harvest_slot i (n, table_reset, to) = (n, table_reset, to)" if "i < kMaxStackTraces" for i n
    using that by (simp add: harvest_slot_def table_extract_def table_reset_def empty_entry_def)
  then have "set is \<subseteq> {..<kMaxStackTraces} \<Longrightarrow> fold harvest_slot is (0, table_reset, to) = (0, table_reset, to)" for "is"
    by (induction "is") auto
  then show ?thesis by (simp add: HarvestSamples_def atLeast_upt lessThan_atLeast0)
qed

end
