(* ===== verification/NativeFrames.thy ===== *)
theory NativeFrames
  imports NativeTraces
begin

text \<open>
  \<open>populate_frames.cc\<close>: the walk over the interpreter's frames in the signal handler, for the
  four layouts the code is compiled for. The process memory is an argument, by the objects the
  walk reads: an address that cannot be read as such an object has no value. \<open>None\<close> as the
  outcome of a walk is a walk that does not come back.
\<close>

section \<open>Memory\<close>

type_synonym addr = "64 word"

datatype owner = OwnedByThread | OwnedByGenerator | OwnedByFrameObject | OwnedByCStack

text \<open>An interpreter frame: code or executable, owner, instruction pointer, previous frame.\<close>

record iframe =
  f_code :: addr
  f_owner :: owner
  f_instr :: addr
  f_previous :: addr

text \<open>
  A code object: whether its type field is the code type, its first traceable instruction, and
  the UTF-8 forms of its names (\<open>None\<close> for a string with lone surrogates).
\<close>

record code_object =
  co_is_code :: bool
  co_firsttraceable :: "32 word"
  co_name_utf8 :: "string option"
  co_filename_utf8 :: "string option"

text \<open>A frame object of the versions before 3.11.\<close>

record old_frame =
  of_lineno :: "32 word"
  of_code :: addr
  of_back :: addr

record memory =
  m_frame :: "addr \<Rightarrow> iframe option"
  m_code :: "addr \<Rightarrow> code_object option"
  m_current_frame :: "addr \<Rightarrow> addr option"
  m_old_frame :: "addr \<Rightarrow> old_frame option"
  m_code_offset :: addr

record thread_state =
  ts_current_frame :: addr
  ts_cframe :: addr
  ts_frame :: addr

text \<open>\<open>SafeCopy\<close> of an object: no value for the null pointer or unreadable memory.\<close>

definition SafeCopy :: "(addr \<Rightarrow> 'a option) \<Rightarrow> addr \<Rightarrow> 'a option" where
  "SafeCopy mem src = (if src = 0 then None else mem src)"

text \<open>The first instruction of a code object, and the address \<open>n\<close> two-byte units after it.\<close>

definition code_start :: "memory \<Rightarrow> addr \<Rightarrow> addr" where
  "code_start mem code = code + m_code_offset mem"

definition code_unit :: "memory \<Rightarrow> addr \<Rightarrow> 32 word \<Rightarrow> addr" where
  "code_unit mem code n = code_start mem code + push_bit 1 (scast n)"

text \<open>
  The byte offset of an instruction: the difference in units of two bytes, times two, cut to
  32 bits.
\<close>

definition byte_offset :: "memory \<Rightarrow> addr \<Rightarrow> addr \<Rightarrow> 32 word" where
  "byte_offset mem code instr = ucast (push_bit 1 (signed_drop_bit 1 (instr - code_start mem code)) :: addr)"

section \<open>What a frame contributes\<close>

text \<open>Python 3.13: the executable must be readable and a code object.\<close>

definition FrameCode_313 :: "memory \<Rightarrow> iframe \<Rightarrow> (addr \<times> code_object) option" where
  "FrameCode_313 mem fr =
     (if f_code fr = 0 then None else
      case SafeCopy (m_code mem) (f_code fr) of
        None \<Rightarrow> None
      | Some code_copy \<Rightarrow> if co_is_code code_copy then Some (f_code fr, code_copy) else None)"

definition FrameIsIncomplete_313 :: "memory \<Rightarrow> iframe \<Rightarrow> (addr \<times> code_object) option \<Rightarrow> bool" where
  "FrameIsIncomplete_313 mem fr code =
     (if f_owner fr = OwnedByCStack then True
      else if f_owner fr = OwnedByGenerator then False
      else case code of None \<Rightarrow> True
        | Some (c, code_copy) \<Rightarrow> f_instr fr < code_unit mem c (co_firsttraceable code_copy))"

definition resolve_313 :: "memory \<Rightarrow> iframe \<Rightarrow> call_frame option" where
  "resolve_313 mem fr = (case FrameCode_313 mem fr of
       None \<Rightarrow> None
     | Some (c, code_copy) \<Rightarrow>
         if FrameIsIncomplete_313 mem fr (Some (c, code_copy)) then None
         else Some (CallFrame (byte_offset mem c (f_instr fr)) c))"

text \<open>Python 3.12 and 3.11; the latter has no frames owned by the C stack.\<close>

definition FrameIsIncomplete_312 :: "memory \<Rightarrow> iframe \<Rightarrow> bool" where
  "FrameIsIncomplete_312 mem fr =
     (if f_owner fr = OwnedByCStack then True
      else if f_owner fr = OwnedByGenerator then False
      else case SafeCopy (m_code mem) (f_code fr) of
        None \<Rightarrow> True
      | Some code \<Rightarrow> f_instr fr < code_unit mem (f_code fr) (co_firsttraceable code))"

definition FrameIsIncomplete_311 :: "memory \<Rightarrow> iframe \<Rightarrow> bool" where
  "FrameIsIncomplete_311 mem fr =
     (if f_owner fr = OwnedByGenerator then False
      else case SafeCopy (m_code mem) (f_code fr) of
        None \<Rightarrow> True
      | Some code \<Rightarrow> f_instr fr < code_unit mem (f_code fr) (co_firsttraceable code))"

definition resolve_with :: "(memory \<Rightarrow> iframe \<Rightarrow> bool) \<Rightarrow> memory \<Rightarrow> iframe \<Rightarrow> call_frame option" where
  "resolve_with incomplete mem fr =
     (if f_code fr \<noteq> 0 \<and> \<not> incomplete mem fr
      then Some (CallFrame (byte_offset mem (f_code fr) (f_instr fr)) (f_code fr)) else None)"

section \<open>The walks\<close>

text \<open>
  The loop shared by the versions from 3.11: it stops at the null pointer, at an unreadable
  frame, or when the buffer is full. A chain that comes back to itself without contributing
  frames keeps it running.
\<close>

partial_function (option) walk ::
  "(iframe \<Rightarrow> call_frame option) \<Rightarrow> (addr \<Rightarrow> iframe option) \<Rightarrow> addr \<Rightarrow> call_trace \<Rightarrow> call_trace option" where
  "walk resolve mem faddr frames =
     (if faddr = 0 \<or> kMaxFramesToCapture \<le> length frames then Some frames else
      case SafeCopy mem faddr of
        None \<Rightarrow> Some frames
      | Some fr \<Rightarrow> walk resolve mem (f_previous fr)
          (case resolve fr of None \<Rightarrow> frames | Some cf \<Rightarrow> frames @ [cf]))"

text \<open>Before 3.11 the frame objects are dereferenced; reading unmapped memory does not return.\<close>

partial_function (option) walk_old :: "(addr \<Rightarrow> old_frame option) \<Rightarrow> addr \<Rightarrow> call_trace \<Rightarrow> call_trace option" where
  "walk_old mem frame frames =
     (if frame = 0 \<or> kMaxFramesToCapture \<le> length frames then Some frames else
      case mem frame of
        None \<Rightarrow> None
      | Some fr \<Rightarrow> walk_old mem (of_back fr) (frames @ [CallFrame (of_lineno fr) (of_code fr)]))"

definition kNoPyState :: "32 word" where "kNoPyState = -1"

definition kUnknown :: "32 word" where "kUnknown = 0"

datatype py_version = Py313 | Py312 | Py311 | PyBefore311

fun resolve_frame :: "py_version \<Rightarrow> memory \<Rightarrow> iframe \<Rightarrow> call_frame option" where
  "resolve_frame Py313 mem fr = resolve_313 mem fr"
| "resolve_frame Py312 mem fr = resolve_with FrameIsIncomplete_312 mem fr"
| "resolve_frame _ mem fr = resolve_with FrameIsIncomplete_311 mem fr"

text \<open>The start of the chain; 3.11 and 3.12 read it through the C frame.\<close>

definition first_frame :: "py_version \<Rightarrow> memory \<Rightarrow> thread_state \<Rightarrow> addr option" where
  "first_frame v mem ts = (if v = Py313 then Some (ts_current_frame ts)
     else if ts_cframe ts = 0 then None else SafeCopy (m_current_frame mem) (ts_cframe ts))"

definition PopulateFrames :: "py_version \<Rightarrow> memory \<Rightarrow> thread_state option \<Rightarrow> call_trace option" where
  "PopulateFrames v mem ts = (case ts of
       None \<Rightarrow> Some [CallFrame kNoPyState 0]
     | Some t \<Rightarrow>
         if v = PyBefore311 then walk_old (m_old_frame mem) (ts_frame t) []
         else (case first_frame v mem t of
             None \<Rightarrow> Some []
           | Some faddr \<Rightarrow> walk (resolve_frame v mem) (m_frame mem) faddr []))"

text \<open>What one step keeps, a walk that comes back keeps.\<close>

lemma walk_invariant:
  assumes "walk resolve mem faddr frames = Some r" "I frames"
    and "\<And>frames fr cf. I frames \<Longrightarrow> length frames < kMaxFramesToCapture \<Longrightarrow> resolve fr = Some cf \<Longrightarrow> I (frames @ [cf])"
  shows "I r"
proof -
  have "resolve = resolve \<longrightarrow> I frames \<longrightarrow> I r"
    by (rule walk.raw_induct [of "\<lambda>res m faddr frames r. res = resolve \<longrightarrow> I frames \<longrightarrow> I r", OF _ assms(1)])
      (auto split: if_splits option.splits dest: assms(3))
  with assms(2) show ?thesis by simp
qed

section \<open>The contract of a frame reader\<close>

text \<open>
  A reader never reports the null pointer as a code object, which is what marks the pseudo
  frames of errors. What the walk gives for any reader with this law is proved once.
\<close>

locale frame_reader =
  fixes resolve :: "iframe \<Rightarrow> call_frame option"
  assumes resolve_code: "resolve fr = Some cf \<Longrightarrow> cf_code cf \<noteq> 0"
begin

lemma walk_frames:
  assumes "walk resolve mem faddr frames = Some r" "length frames \<le> kMaxFramesToCapture"
    and "\<forall>cf \<in> set frames. cf_code cf \<noteq> 0"
  shows "length r \<le> kMaxFramesToCapture \<and> (\<forall>cf \<in> set r. cf_code cf \<noteq> 0)"
  using walk_invariant [OF assms(1), of "\<lambda>frames. length frames \<le> kMaxFramesToCapture \<and>
    (\<forall>cf \<in> set frames. cf_code cf \<noteq> 0)"] assms(2,3) resolve_code
  by auto

end

interpretation reader_313: frame_reader "resolve_frame Py313 mem" for mem
  by unfold_locales (auto simp: resolve_313_def FrameCode_313_def split: option.splits if_splits)

interpretation reader_312: frame_reader "resolve_frame Py312 mem" for mem
  by unfold_locales (auto simp: resolve_with_def split: if_splits)

interpretation reader_311: frame_reader "resolve_frame Py311 mem" for mem
  by unfold_locales (auto simp: resolve_with_def split: if_splits)

section \<open>Following the chain\<close>

text \<open>The first \<open>n\<close> frames of the chain, fewer when it ends before.\<close>

fun path :: "(addr \<Rightarrow> iframe option) \<Rightarrow> nat \<Rightarrow> addr \<Rightarrow> iframe list" where
  "path mem 0 a = []"
| "path mem (Suc n) a = (case SafeCopy mem a of None \<Rightarrow> [] | Some fr \<Rightarrow> fr # path mem n (f_previous fr))"

lemma SafeCopy_0 [simp]: "SafeCopy mem 0 = None"
  by (simp add: SafeCopy_def)

definition complete_frames :: "(iframe \<Rightarrow> call_frame option) \<Rightarrow> iframe list \<Rightarrow> call_trace" where
  "complete_frames resolve frs = List.map_filter resolve frs"

lemma complete_frames_simps [simp]:
  "complete_frames resolve [] = []"
  "complete_frames resolve (fr # frs) =
     (case resolve fr of None \<Rightarrow> complete_frames resolve frs | Some cf \<Rightarrow> cf # complete_frames resolve frs)"
  by (simp_all add: complete_frames_def map_filter_def split: option.split)

text \<open>\<open>n\<close> steps are enough: the chain has ended, or the buffer is full.\<close>

definition enough :: "(iframe \<Rightarrow> call_frame option) \<Rightarrow> (addr \<Rightarrow> iframe option) \<Rightarrow> nat \<Rightarrow> addr \<Rightarrow> nat \<Rightarrow> bool" where
  "enough resolve mem n a used \<longleftrightarrow> length (path mem n a) < n \<or>
     kMaxFramesToCapture \<le> used + length (complete_frames resolve (path mem n a))"

lemma walk_full: "kMaxFramesToCapture \<le> length frames \<Longrightarrow> walk resolve mem a frames = Some frames"
  by (simp add: walk.simps)

lemma walk_enough:
  "enough resolve mem n a (length frames) \<Longrightarrow> walk resolve mem a frames =
    Some (frames @ take (kMaxFramesToCapture - length frames) (complete_frames resolve (path mem n a)))"
proof (induction n arbitrary: a frames)
  case 0
  then show ?case by (simp add: enough_def walk_full)
next
  case (Suc n)
  show ?case
  proof (cases "kMaxFramesToCapture \<le> length frames")
    case True
    then show ?thesis by (simp add: walk_full)
  next
    case False
    show ?thesis
    proof (cases "SafeCopy mem a")
      case None
      then show ?thesis by (simp add: walk.simps [of resolve mem a])
    next
      case (Some fr)
      then have "a \<noteq> 0" by auto
      note step = walk.simps [of resolve mem a frames]
      show ?thesis
      proof (cases "resolve fr")
        case None
        then have "enough resolve mem n (f_previous fr) (length frames)"
          using Suc.prems Some by (simp add: enough_def)
        from Suc.IH [OF this] None Some False \<open>a \<noteq> 0\<close> step show ?thesis by simp
      next
        case (Some cf)
        then have "enough resolve mem n (f_previous fr) (length (frames @ [cf]))"
          using Suc.prems \<open>SafeCopy mem a = Some fr\<close> by (simp add: enough_def)
        from Suc.IH [OF this] Some \<open>SafeCopy mem a = Some fr\<close> False \<open>a \<noteq> 0\<close> step show ?thesis
          by (simp add: take_Cons' )
      qed
    qed
  qed
qed

lemma walk_Some_enough:
  assumes "walk resolve mem a frames = Some r"
  shows "\<exists>n. enough resolve mem n a (length frames)"
proof -
  have "resolve = resolve \<and> mem = mem \<longrightarrow> (\<exists>n. enough resolve mem n a (length frames))"
  proof (rule walk.raw_induct [of "\<lambda>res m a frames r. res = resolve \<and> m = mem \<longrightarrow>
      (\<exists>n. enough resolve mem n a (length frames))", OF _ assms], intro impI)
    fix rec res m a frames r
    assume IH: "\<And>res m a frames r. rec res m a frames = Some r \<Longrightarrow>
        res = resolve \<and> m = mem \<longrightarrow> (\<exists>n. enough resolve mem n a (length frames))"
      and eq: "(if a = 0 \<or> kMaxFramesToCapture \<le> length frames then Some frames else
          case SafeCopy m a of None \<Rightarrow> Some frames
          | Some fr \<Rightarrow> rec res m (f_previous fr) (case res fr of None \<Rightarrow> frames | Some cf \<Rightarrow> frames @ [cf])) = Some r"
      and "res = resolve \<and> m = mem"
    then have [simp]: "res = resolve" "m = mem" by simp_all
    show "\<exists>n. enough resolve mem n a (length frames)"
    proof (cases "kMaxFramesToCapture \<le> length frames")
      case True
      then show ?thesis by (auto simp: enough_def)
    next
      case False
      show ?thesis
      proof (cases "SafeCopy mem a")
        case None
        then have "enough resolve mem 1 a (length frames)" by (simp add: enough_def)
        then show ?thesis by blast
      next
        case (Some fr)
        then have "a \<noteq> 0" by auto
        let ?fs = "case resolve fr of None \<Rightarrow> frames | Some cf \<Rightarrow> frames @ [cf]"
        have "rec resolve mem (f_previous fr) ?fs = Some r" using eq False Some \<open>a \<noteq> 0\<close> by simp
        from IH [OF this] obtain n where "enough resolve mem n (f_previous fr) (length ?fs)" by auto
        then have "enough resolve mem (Suc n) a (length frames)"
          using Some by (auto simp: enough_def split: option.splits)
        then show ?thesis by blast
      qed
    qed
  qed
  then show ?thesis by simp
qed

lemma path_loop: "SafeCopy mem a = Some fr \<Longrightarrow> f_previous fr = a \<Longrightarrow> path mem n a = replicate n fr"
  by (induction n) simp_all

lemma complete_frames_replicate_None:
  "resolve fr = None \<Longrightarrow> complete_frames resolve (replicate n fr) = []"
  by (induction n) simp_all

end
