(* ===== verification/NativeLog.thy ===== *)
theory NativeLog
  imports Prelude
begin

text \<open>
  \<open>log.cc\<close>: the logging of the native extension through Python's \<open>logging\<close> module. Whether the
  module can be imported and whether its method raises are the interpreter's and are arguments.
  Behaviour that C leaves undefined is \<open>None\<close>.
\<close>

section \<open>Variadic arguments\<close>

text \<open>
  What a caller can pass through an ellipsis: the strings of the code's messages, or a
  \<open>va_list\<close> as one argument.
\<close>

datatype c_arg = CString string | CVaList "c_arg list"

text \<open>
  One conversion of \<open>vsnprintf\<close>. The messages use \<open>%s\<close> only; a conversion is undefined for an
  argument of another type, and no conversion takes a \<open>va_list\<close>.
\<close>

fun convert :: "char \<Rightarrow> c_arg \<Rightarrow> string option" where
  "convert c (CString s) = (if c = CHR ''s'' then Some s else None)"
| "convert c (CVaList args) = None"

fun format_c :: "string \<Rightarrow> c_arg list \<Rightarrow> string option" where
  "format_c [] args = Some []"
| "format_c [c] args = (if c = CHR ''%'' then None else Some [c])"
| "format_c (c # d # fmt) args =
     (if c \<noteq> CHR ''%'' then map_option (\<lambda>t. c # t) (format_c (d # fmt) args)
      else if d = CHR ''%'' then map_option (\<lambda>t. CHR ''%'' # t) (format_c fmt args)
      else case args of [] \<Rightarrow> None
        | a # rest \<Rightarrow> Option.bind (convert d a) (\<lambda>s. map_option (\<lambda>t. s @ t) (format_c fmt rest)))"

text \<open>\<open>vsnprintf\<close> into a buffer of a size keeps one place for the terminator.\<close>

definition vsnprintf :: "nat \<Rightarrow> string \<Rightarrow> c_arg list \<Rightarrow> string option" where
  "vsnprintf n fmt ap = map_option (take (n - 1)) (format_c fmt ap)"

section \<open>The log\<close>

text \<open>
  The static pointer to the module, the records handed to it, the lines on standard error and
  whether an exception is left set in the thread.
\<close>

record log_state =
  lg_imported :: bool
  lg_records :: "(string \<times> string) list"
  lg_stderr :: "string list"
  lg_exception :: bool

record log_answers =
  la_import :: bool
  la_call :: bool

definition no_logging :: string where
  "no_logging = ''googlecloudprofiler: failed to import logging module, logging '' @ ''is not enabled.'' @ [CHR 0x0A]"

definition Log :: "string \<Rightarrow> string \<Rightarrow> c_arg list \<Rightarrow> log_answers \<Rightarrow> log_state \<Rightarrow> log_state option" where
  "Log level fmt args a st =
     (let st1 = (if lg_imported st then st
                 else if la_import a then st\<lparr>lg_imported := True\<rparr> else st\<lparr>lg_exception := True\<rparr>)
      in if \<not> lg_imported st1 then Some (st1\<lparr>lg_stderr := lg_stderr st1 @ [no_logging]\<rparr>)
         else case vsnprintf 200 fmt args of
             None \<Rightarrow> None
           | Some msg \<Rightarrow> Some (st1\<lparr>lg_records := lg_records st1 @ [(level, msg)],
               lg_exception := lg_exception st1 \<or> \<not> la_call a\<rparr>))"

text \<open>The four wrappers hand on their own \<open>va_list\<close> as a single argument of the ellipsis.\<close>

definition LogError :: "string \<Rightarrow> c_arg list \<Rightarrow> log_answers \<Rightarrow> log_state \<Rightarrow> log_state option" where
  "LogError fmt ap = Log ''error'' fmt [CVaList ap]"

definition LogWarning :: "string \<Rightarrow> c_arg list \<Rightarrow> log_answers \<Rightarrow> log_state \<Rightarrow> log_state option" where
  "LogWarning fmt ap = Log ''warning'' fmt [CVaList ap]"

definition LogInfo :: "string \<Rightarrow> c_arg list \<Rightarrow> log_answers \<Rightarrow> log_state \<Rightarrow> log_state option" where
  "LogInfo fmt ap = Log ''info'' fmt [CVaList ap]"

definition LogDebug :: "string \<Rightarrow> c_arg list \<Rightarrow> log_answers \<Rightarrow> log_state \<Rightarrow> log_state option" where
  "LogDebug fmt ap = Log ''debug'' fmt [CVaList ap]"

section \<open>A message of the signal handler class\<close>

text \<open>
  The report of a failed \<open>sigaction\<close>, which only an invalid signal number makes fail; the text of
  the error number is an argument. The report of a failed \<open>setitimer\<close> is in \<open>NativeProfiler\<close>.
\<close>

definition SetAction_failed :: "string \<Rightarrow> log_answers \<Rightarrow> log_state \<Rightarrow> log_state option" where
  "SetAction_failed strerror = LogError ''Failed to set SIGPROF handler: %s'' [CString strerror]"

section \<open>Lemmas\<close>

lemma format_va_list: "format_c fmt [CVaList ap] = format_c fmt []"
  by (induction fmt "[] :: c_arg list" rule: format_c.induct) auto

text \<open>A text without percent signs is its own rendering.\<close>

lemma format_plain: "CHR ''%'' \<notin> set fmt \<Longrightarrow> format_c fmt args = Some fmt"
  by (induction fmt args rule: format_c.induct) auto

text \<open>Handed the arguments themselves, the formatter renders the code's messages.\<close>

lemma format_message:
  "CHR ''%'' \<notin> set pre \<Longrightarrow> format_c (pre @ ''%s'') [CString s] = Some (pre @ s)"
proof (induction pre)
  case (Cons c pre)
  then show ?case by (cases pre) auto
qed simp

lemma Log_formats:
  "lg_imported st \<or> la_import a \<Longrightarrow> Log level fmt args a st =
    map_option (\<lambda>t. st\<lparr>lg_imported := True, lg_records := lg_records st @ [(level, take 199 t)],
        lg_exception := lg_exception st \<or> \<not> la_call a\<rparr>) (format_c fmt args)"
  by (cases "format_c fmt args") (auto simp: Log_def vsnprintf_def Let_def)

section \<open>Properties\<close>

text \<open>
  C40: with the logging module at hand, each wrapper logs its format at its level, cut to 199
  characters, when the format takes no argument; any conversion that takes one is undefined
  behaviour, whatever the caller passed, because the wrapper passes its \<open>va_list\<close> where the
  argument is read.
\<close>

theorem wrappers_lose_arguments:
  assumes "lg_imported st \<or> la_import a"
    and "(L, level) \<in> {(LogError, ''error''), (LogWarning, ''warning''), (LogInfo, ''info''), (LogDebug, ''debug'')}"
  shows "L fmt ap a st = (case format_c fmt [] of
      None \<Rightarrow> None
    | Some text \<Rightarrow> Some (st\<lparr>lg_imported := True, lg_records := lg_records st @ [(level, take 199 text)],
        lg_exception := lg_exception st \<or> \<not> la_call a\<rparr>))"
  using assms(2) Log_formats [OF assms(1)]
  by (auto simp: LogError_def LogWarning_def LogInfo_def LogDebug_def format_va_list map_option_case)

definition fresh_log :: log_state where
  "fresh_log = \<lparr>lg_imported = False, lg_records = [], lg_stderr = [], lg_exception = False\<rparr>"

theorem wrappers_lose_arguments_witness:
  "LogError ''Failed to set ITIMER_PROF: %s'' [CString ''Invalid argument''] \<lparr>la_import = True, la_call = True\<rparr> fresh_log = None \<and>
   Log ''error'' ''Failed to set ITIMER_PROF: %s'' [CString ''Invalid argument''] \<lparr>la_import = True, la_call = True\<rparr> fresh_log \<noteq> None"
  using wrappers_lose_arguments [of fresh_log "\<lparr>la_import = True, la_call = True\<rparr>" LogError "''error''"
      "''Failed to set ITIMER_PROF: %s''" "[CString ''Invalid argument'']"]
    format_message [of "''Failed to set ITIMER_PROF: ''" "''Invalid argument''"]
  by (auto simp: Log_formats)

end
