(* ===== verification/NativeProfiler.thy ===== *)
theory NativeProfiler
  imports NativeClock NativeFrames CpuProfiler NativeLog
begin

text \<open>
  \<open>profiler.cc\<close>, \<open>profiler.h\<close> and \<open>_profiler.cc\<close>: the signal handler, the record of deallocated
  code objects, the translation of the collected traces to Python, and the collection. The
  memory at each signal, the clock readings and the order of signals, deallocations and
  flushes are the environment's; \<open>addr2line\<close> is the interpreter's \<open>PyCode_Addr2Line\<close>. A result
  \<open>None\<close> is a call that does not return or whose behaviour is undefined.
\<close>

section \<open>State\<close>

type_synonym func_loc = "string \<times> string"

record native =
  n_table :: trace_table
  n_aggregated :: trace_counts
  n_unknown :: int
  n_deallocated :: "(addr, func_loc) dict"
  n_timer_usec :: int
  n_handler :: bool
  n_log :: log_state

section \<open>Code objects\<close>

text \<open>
  \<open>GetFuncLoc\<close>: the names, and whether reading them left a Python exception set, which
  \<open>PyUnicode_AsUTF8\<close> does for a string with lone surrogates and the code does not clear.
\<close>

definition readable_code :: "memory \<Rightarrow> addr \<Rightarrow> code_object option" where
  "readable_code mem p = (case SafeCopy (m_code mem) p of
       Some code \<Rightarrow> if co_is_code code then Some code else None | None \<Rightarrow> None)"

definition GetFuncLoc :: "memory \<Rightarrow> addr \<Rightarrow> func_loc \<times> bool" where
  "GetFuncLoc mem code_object =
     (case readable_code mem code_object of
        None \<Rightarrow> ((''unknown'', ''unknown''), False)
      | Some code \<Rightarrow>
          ((case co_name_utf8 code of Some n \<Rightarrow> n | None \<Rightarrow> ''unknown'',
            case co_filename_utf8 code of Some f \<Rightarrow> f | None \<Rightarrow> ''unknown''),
           co_name_utf8 code = None \<or> co_filename_utf8 code = None))"

text \<open>The hook: an address that is already recorded keeps its first record.\<close>

definition CodeDealloc :: "memory \<Rightarrow> addr \<Rightarrow> native \<Rightarrow> native" where
  "CodeDealloc mem p st = (case dict_get (n_deallocated st) p of
       Some _ \<Rightarrow> st
     | None \<Rightarrow> st\<lparr>n_deallocated := dict_set (n_deallocated st) p (fst (GetFuncLoc mem p))\<rparr>)"

definition CallTraceErrorToName :: "32 word \<Rightarrow> string" where
  "CallTraceErrorToName err =
     (if err = kNoPyState then ''[Unknown - No Python thread state]'' else ''[Unknown]'')"

section \<open>Signals\<close>

text \<open>
  \<open>setitimer\<close> refuses a negative interval; the failure is logged, with the text of the error
  number and the answers of the logging module as arguments.
\<close>

definition SetSigprofInterval :: "int \<Rightarrow> string \<Rightarrow> log_answers \<Rightarrow> native \<Rightarrow> (bool \<times> native) option" where
  "SetSigprofInterval period_usec strerror a st =
     (if period_usec < 0
      then map_option (\<lambda>lg. (False, st\<lparr>n_log := lg\<rparr>))
        (LogError ''Failed to set ITIMER_PROF: %s'' [CString strerror] a (n_log st))
      else Some (True, st\<lparr>n_timer_usec := period_usec\<rparr>))"

definition Profiler_Reset :: "native \<Rightarrow> native" where
  "Profiler_Reset st = st\<lparr>n_table := table_reset, n_deallocated := [], n_unknown := 0, n_handler := True\<rparr>"

text \<open>A fresh object; the constructor resets, and \<open>aggregated_traces_\<close> starts empty.\<close>

definition Profiler_init :: native where
  "Profiler_init = Profiler_Reset \<lparr>n_table = [], n_aggregated = [], n_unknown = 0, n_deallocated = [],
     n_timer_usec = 0, n_handler = False, n_log = fresh_log\<rparr>"

definition Handle :: "py_version \<Rightarrow> memory \<Rightarrow> thread_state option \<Rightarrow> (nat \<Rightarrow> bool) \<Rightarrow> native \<Rightarrow> native option" where
  "Handle v mem ts ok st = (case PopulateFrames v mem ts of
       None \<Rightarrow> None
     | Some trace \<Rightarrow> (case table_add ok trace (n_table st) of
         (True, table) \<Rightarrow> Some (st\<lparr>n_table := table\<rparr>)
       | (False, table) \<Rightarrow> Some (st\<lparr>n_table := table, n_unknown := n_unknown st + 1\<rparr>)))"

definition Flush :: "native \<Rightarrow> native" where
  "Flush st = (case HarvestSamples (n_table st) (n_aggregated st) of
     (_, table, aggregated) \<Rightarrow> st\<lparr>n_table := table, n_aggregated := aggregated\<rparr>)"

section \<open>The traces as Python objects\<close>

text \<open>The tuple of a frame, and whether an exception was left set.\<close>

definition python_frame ::
  "(addr \<Rightarrow> 32 word \<Rightarrow> int) \<Rightarrow> memory \<Rightarrow> (addr, func_loc) dict \<Rightarrow> call_frame \<Rightarrow> frame_tuple \<times> bool" where
  "python_frame addr2line mem deallocated frame =
     (let p = cf_code frame in
      if p = 0 then ((CallTraceErrorToName (cf_lineno frame), '''', sint (cf_lineno frame)), False)
      else case dict_get deallocated p of
        Some (name, filename) \<Rightarrow> ((name, filename, 0), False)
      | None \<Rightarrow> (case GetFuncLoc mem p of ((name, filename), err) \<Rightarrow>
          ((name, filename, if readable_code mem p \<noteq> None then addr2line p (cf_lineno frame) else 0), err)))"

text \<open>
  The dictionary, in the order in which the table of aggregated traces is iterated. An
  exception left set makes the call fail, here or when the interpreter checks the result.
\<close>

definition SystemError :: pyerr where
  "SystemError = OtherError 1"

definition with_unknown :: "native \<Rightarrow> trace_counts" where
  "with_unknown st = (if 0 < n_unknown st then multiset_add [CallFrame kUnknown 0] (n_unknown st) (n_aggregated st)
     else n_aggregated st)"

definition add_python_trace ::
  "(addr \<Rightarrow> 32 word \<Rightarrow> int) \<Rightarrow> memory \<Rightarrow> (addr, func_loc) dict \<Rightarrow> call_trace \<times> int
    \<Rightarrow> (trace, int) dict \<times> bool \<Rightarrow> (trace, int) dict \<times> bool" where
  "add_python_trace addr2line mem deallocated item acc = (case item of (frames, count) \<Rightarrow>
     (let py_frames = map (python_frame addr2line mem deallocated) frames; key = map fst py_frames in
      (dict_set (fst acc) key (case dict_get (fst acc) key of Some previous \<Rightarrow> count + previous | None \<Rightarrow> count),
       snd acc \<or> (\<exists>f \<in> set py_frames. snd f))))"

definition PythonTraces :: "(addr \<Rightarrow> 32 word \<Rightarrow> int) \<Rightarrow> memory \<Rightarrow> native \<Rightarrow> (trace, int) dict res" where
  "PythonTraces addr2line mem st =
     (case fold (add_python_trace addr2line mem (n_deallocated st)) (with_unknown st) ([], False) of
        (py_traces, err) \<Rightarrow> if err then Inl SystemError else Inr py_traces)"

section \<open>The collection\<close>

definition AlmostThere :: "timespec \<Rightarrow> timespec \<Rightarrow> timespec \<Rightarrow> bool" where
  "AlmostThere finish lap now =
     (let margin_laps = 2; laps = \<lparr>tv_sec = tv_sec lap * margin_laps, tv_nsec = tv_nsec lap * margin_laps\<rparr>
      in TimeLessThan finish (TimeAdd now laps))"

datatype native_event = Sigprof memory "thread_state option" "nat \<Rightarrow> bool" | Dealloc memory addr

fun event :: "py_version \<Rightarrow> native_event \<Rightarrow> native \<Rightarrow> native option" where
  "event v (Sigprof mem ts ok) st = Handle v mem ts ok st"
| "event v (Dealloc mem p) st = Some (CodeDealloc mem p st)"

fun events :: "py_version \<Rightarrow> native_event list \<Rightarrow> native \<Rightarrow> native option" where
  "events v [] st = Some st"
| "events v (e # es) st = (case event v e st of None \<Rightarrow> None | Some st1 \<Rightarrow> events v es st1)"

definition flush_interval :: timespec where
  "flush_interval = \<lparr>tv_sec = 0, tv_nsec = 100 * 1000 * 1000\<rparr>"

text \<open>The loop: each lap is the clock reading of its test and the events while it sleeps.\<close>

fun collect_loop :: "py_version \<Rightarrow> timespec \<Rightarrow> (timespec \<times> native_event list) list \<Rightarrow> native \<Rightarrow> native option" where
  "collect_loop v finish_line [] st = None"
| "collect_loop v finish_line ((now, es) # laps) st =
     (if AlmostThere finish_line flush_interval now then Some st
      else case events v es st of None \<Rightarrow> None | Some st1 \<Rightarrow> collect_loop v finish_line laps (Flush st1))"

text \<open>
  The script of a collection: the clock reading at the start, the laps, the interruptions of
  the two absolute sleeps and the events during them, and the memory at the end; for the report
  of a refused timer the log before the call, the text of the error and the answers of the
  logging module.
\<close>

record collect_script =
  cs_start :: timespec
  cs_laps :: "(timespec \<times> native_event list) list"
  cs_interrupts1 :: nat
  cs_events1 :: "native_event list"
  cs_interrupts2 :: nat
  cs_events2 :: "native_event list"
  cs_memory :: memory
  cs_log :: log_state
  cs_strerror :: string
  cs_logging :: log_answers

definition Start :: "int \<Rightarrow> string \<Rightarrow> log_answers \<Rightarrow> native \<Rightarrow> (bool \<times> native) option" where
  "Start period_nanos = SetSigprofInterval (signed_take_bit 31 (period_nanos sdiv 1000))"

definition Stop :: "string \<Rightarrow> log_answers \<Rightarrow> native \<Rightarrow> native option" where
  "Stop strerror a st = map_option (\<lambda>(_, st1). st1\<lparr>n_handler := False\<rparr>) (SetSigprofInterval 0 strerror a st)"

text \<open>
  A null result with no exception set is a \<open>SystemError\<close> of the interpreter; with one set, as
  after a failed import of the logging module, it is that exception.
\<close>

definition ImportError :: pyerr where
  "ImportError = OtherError 2"

definition Collect :: "py_version \<Rightarrow> (addr \<Rightarrow> 32 word \<Rightarrow> int) \<Rightarrow> int \<Rightarrow> int \<Rightarrow> collect_script \<Rightarrow> native
    \<Rightarrow> ((trace, int) dict res \<times> native) option" where
  "Collect v addr2line duration_nanos period_nanos cs st =
     (let st0 = (Profiler_Reset st)\<lparr>n_deallocated := []\<rparr> in
      Option.bind (Start period_nanos (cs_strerror cs) (cs_logging cs) st0) (\<lambda>(started, st1).
        if \<not> started then Some (Inl (if lg_exception (n_log st1) then ImportError else SystemError), st1)
        else
          (let finish_line = TimeAdd (cs_start cs) (NanosToTimeSpec duration_nanos) in
           Option.bind (collect_loop v finish_line (cs_laps cs) st1) (\<lambda>st2.
           Option.bind (SleepUntil finish_line (cs_interrupts1 cs)) (\<lambda>_.
           Option.bind (events v (cs_events1 cs) st2) (\<lambda>st3.
           Option.bind (Stop (cs_strerror cs) (cs_logging cs) st3) (\<lambda>st4.
           Option.bind (SleepUntil (TimeAdd finish_line flush_interval) (cs_interrupts2 cs)) (\<lambda>_.
           Option.bind (events v (cs_events2 cs) st4) (\<lambda>st5.
           let st6 = Flush st5 in
           Some (PythonTraces addr2line (cs_memory cs) st6, st6))))))))))"

text \<open>
  The entry point. \<open>PyArg_ParseTuple\<close> with \<open>LL\<close> refuses an integer that is not a \<open>long long\<close>; the
  two numbers are then read as \<open>uint64_t\<close>, the product with the nanoseconds of a millisecond
  wraps, and the constructor takes both as \<open>int64_t\<close>.
\<close>

definition fits_long_long :: "int \<Rightarrow> bool" where
  "fits_long_long n \<longleftrightarrow> - (2 ^ 63) \<le> n \<and> n < 2 ^ 63"

definition kNanosPerMilli :: "64 word" where
  "kNanosPerMilli = 1000 * 1000"

definition ProfileCPU :: "py_version \<Rightarrow> (addr \<Rightarrow> 32 word \<Rightarrow> int) \<Rightarrow> collect_script \<Rightarrow> int \<Rightarrow> int
    \<Rightarrow> (trace, int) dict res option" where
  "ProfileCPU v addr2line cs duration_ns period_ms =
     (if \<not> fits_long_long duration_ns \<or> \<not> fits_long_long period_ms then Some (Inl OverflowError)
      else
        (let duration_nanos = word_of_int duration_ns :: 64 word; period_msec = word_of_int period_ms :: 64 word in
         map_option fst (Collect v addr2line (sint duration_nanos) (sint (period_msec * kNanosPerMilli)) cs
           (Profiler_init\<lparr>n_log := cs_log cs\<rparr>))))"

section \<open>The timer\<close>

lemma SetSigprofInterval_nonneg:
  "0 \<le> period_usec \<Longrightarrow> SetSigprofInterval period_usec strerror a st = Some (True, st\<lparr>n_timer_usec := period_usec\<rparr>)"
  by (simp add: SetSigprofInterval_def)

lemma Stop_eq: "Stop strerror a st = Some (st\<lparr>n_timer_usec := 0, n_handler := False\<rparr>)"
  by (simp add: Stop_def SetSigprofInterval_nonneg)

lemma Start_True: "Start p strerror a st = Some (True, st1) \<Longrightarrow> st1 = st\<lparr>n_timer_usec := signed_take_bit 31 (p sdiv 1000)\<rparr>"
  by (auto simp: Start_def SetSigprofInterval_def split: if_splits)

text \<open>
  A period beyond 2147 seconds, which the conversion to \<open>int\<close> may make negative, is refused by
  \<open>setitimer\<close>, and with the logging module at hand the report of that failure is undefined.
\<close>

lemma refused_timer_undefined:
  assumes "period_usec < 0" "lg_imported (n_log st) \<or> la_import a"
  shows "SetSigprofInterval period_usec strerror a st = None"
  using Log_formats [OF assms(2)] assms(1)
  by (simp add: SetSigprofInterval_def LogError_def format_va_list)

text \<open>The milliseconds for which the timer is set to the period that was asked for.\<close>

lemma sint_int64: "fits_long_long n \<Longrightarrow> sint (word_of_int n :: 64 word) = n"
  by (simp add: fits_long_long_def sint_sbintrunc' signed_take_bit_int_eq_self)

lemma period_nanos_eq:
  assumes "0 \<le> ms" "ms \<le> 2147483"
  shows "fits_long_long ms" "sint ((word_of_int ms :: 64 word) * kNanosPerMilli) = ms * 1000000"
    "signed_take_bit 31 (ms * 1000000 sdiv 1000) = ms * 1000"
proof -
  show "fits_long_long ms" using assms by (simp add: fits_long_long_def)
  have product: "(word_of_int ms :: 64 word) * kNanosPerMilli = word_of_int (ms * 1000000)"
    by (simp add: kNanosPerMilli_def)
  have "fits_long_long (ms * 1000000)" using assms by (simp add: fits_long_long_def)
  then show "sint ((word_of_int ms :: 64 word) * kNanosPerMilli) = ms * 1000000"
    unfolding product by (rule sint_int64)
  have "ms * 1000000 sdiv 1000 = ms * 1000" using assms(1) by (simp add: signed_divide_int_def sgn_if)
  then show "signed_take_bit 31 (ms * 1000000 sdiv 1000) = ms * 1000"
    using assms by (simp add: signed_take_bit_int_eq_self)
qed

lemma Start_ok:
  assumes "0 \<le> ms" "ms \<le> 2147483"
  shows "Start (sint ((word_of_int ms :: 64 word) * kNanosPerMilli)) strerror a st =
    Some (True, st\<lparr>n_timer_usec := ms * 1000\<rparr>)"
  using assms by (simp add: Start_def period_nanos_eq [OF assms] SetSigprofInterval_nonneg)

end
