(* ===== verification/NativeCorrect.thy ===== *)
theory NativeCorrect
  imports NativeProfiler
begin

text \<open>
  Correctness of the native extension: no sample is lost or made up between the signal handler
  and the dictionary handed to Python.
\<close>

section \<open>Lengths of traces\<close>

lemma walk_old_length:
  assumes "walk_old mem a frames = Some r" shows "length frames \<le> kMaxFramesToCapture \<longrightarrow> length r \<le> kMaxFramesToCapture"
  by (rule walk_old.raw_induct [of "\<lambda>m a frames r. length frames \<le> kMaxFramesToCapture \<longrightarrow>
      length r \<le> kMaxFramesToCapture", OF _ assms]) (auto split: if_splits option.splits)

lemma PopulateFrames_length:
  assumes "PopulateFrames v mem ts = Some trace" shows "length trace \<le> kMaxFramesToCapture"
proof (cases ts)
  case None
  with assms show ?thesis by (auto simp: PopulateFrames_def kMaxFramesToCapture_def)
next
  case (Some t)
  show ?thesis
  proof (cases "v = PyBefore311")
    case True
    with assms Some walk_old_length [of "m_old_frame mem" "ts_frame t" "[]" trace] show ?thesis
      by (simp add: PopulateFrames_def)
  next
    case False
    with assms Some walk_invariant [of "resolve_frame v mem" "m_frame mem" _ "[]" trace
        "\<lambda>frames. length frames \<le> kMaxFramesToCapture"] show ?thesis
      by (auto simp: PopulateFrames_def split: option.splits)
  qed
qed

section \<open>The total of the samples\<close>

definition wf_native :: "native \<Rightarrow> bool" where
  "wf_native st \<longleftrightarrow> wf_table (n_table st) \<and> 0 \<le> n_unknown st"

definition native_total :: "native \<Rightarrow> int" where
  "native_total st = dict_total (n_aggregated st) + table_total (n_table st) + n_unknown st"

lemma Handle_total:
  assumes "wf_native st" "Handle v mem ts ok st = Some st'"
  shows "wf_native st'" "native_total st \<le> native_total st'" "native_total st' \<le> native_total st + 1"
    "PopulateFrames v mem ts \<noteq> Some [] \<Longrightarrow> native_total st' = native_total st + 1"
proof -
  obtain trace where trace: "PopulateFrames v mem ts = Some trace"
    using assms(2) by (cases "PopulateFrames v mem ts") (auto simp: Handle_def)
  obtain r table where add: "table_add ok trace (n_table st) = (r, table)" by (cases "table_add ok trace (n_table st)")
  have "wf_table (n_table st)" using assms(1) by (simp add: wf_native_def)
  note c = add_from_counts [OF this PopulateFrames_length [OF trace] add [unfolded table_add_def]]
  have st': "st' = (if r then st\<lparr>n_table := table\<rparr> else st\<lparr>n_table := table, n_unknown := n_unknown st + 1\<rparr>)"
    using assms(2) by (simp add: Handle_def trace add split: bool.splits)
  show "wf_native st'" "native_total st \<le> native_total st'" "native_total st' \<le> native_total st + 1"
    using c assms(1) by (auto simp: st' wf_native_def native_total_def)
  show "native_total st' = native_total st + 1" if "PopulateFrames v mem ts \<noteq> Some []"
    using c that trace by (auto simp: st' native_total_def)
qed

lemma Handle_keeps: "Handle v mem ts ok st = Some st' \<Longrightarrow>
    n_aggregated st' = n_aggregated st \<and> n_deallocated st' = n_deallocated st"
  by (auto simp: Handle_def split: option.splits prod.splits bool.splits)

lemma CodeDealloc_total: "wf_native (CodeDealloc mem p st) = wf_native st" "native_total (CodeDealloc mem p st) = native_total st"
  by (simp_all add: CodeDealloc_def wf_native_def native_total_def split: option.split)

lemma Flush_total:
  assumes "wf_native st"
  shows "wf_native (Flush st)" "native_total (Flush st) = native_total st" "table_total (n_table (Flush st)) = 0"
proof -
  have wf: "wf_table (n_table st)" using assms by (simp add: wf_native_def)
  obtain agg where h: "HarvestSamples (n_table st) (n_aggregated st) =
      (length (filter harvest_ok (n_table st)), map (\<lambda>e. e\<lparr>e_count := 0\<rparr>) (n_table st), agg)"
    "dict_total agg = dict_total (n_aggregated st) + table_total (n_table st)"
    using HarvestSamples_eq [OF wf, of "n_aggregated st"] by auto
  show "wf_native (Flush st)" "native_total (Flush st) = native_total st" "table_total (n_table (Flush st)) = 0"
    using assms h wf_table_cleared [OF wf] by (simp_all add: Flush_def wf_native_def native_total_def)
qed

text \<open>The signals among a list of events.\<close>

definition signal_count :: "native_event list \<Rightarrow> nat" where
  "signal_count es = length (filter (\<lambda>e. case e of Sigprof _ _ _ \<Rightarrow> True | Dealloc _ _ \<Rightarrow> False) es)"

definition walked :: "py_version \<Rightarrow> native_event \<Rightarrow> bool" where
  "walked v e = (case e of Sigprof mem ts _ \<Rightarrow> PopulateFrames v mem ts \<noteq> Some [] | Dealloc _ _ \<Rightarrow> True)"

lemma signal_count_simps [simp]:
  "signal_count [] = 0" "signal_count (Sigprof mem ts ok # es) = Suc (signal_count es)"
  "signal_count (Dealloc mem p # es) = signal_count es"
  "signal_count (es @ fs) = signal_count es + signal_count fs"
  by (simp_all add: signal_count_def)

lemma events_total:
  assumes "wf_native st" "events v es st = Some st'"
  shows "wf_native st' \<and> native_total st' \<le> native_total st + int (signal_count es) \<and>
    ((\<forall>e \<in> set es. walked v e) \<longrightarrow> native_total st' = native_total st + int (signal_count es))"
  using assms
proof (induction es arbitrary: st)
  case (Cons e es)
  obtain st1 where st1: "event v e st = Some st1" "events v es st1 = Some st'"
    using Cons.prems(2) by (auto split: option.splits)
  show ?case
  proof (cases e)
    case (Sigprof mem ts ok)
    then have "Handle v mem ts ok st = Some st1" using st1(1) by simp
    note h = Handle_total [OF Cons.prems(1) this]
    show ?thesis using Cons.IH [OF h(1) st1(2)] h(2-4) Sigprof by (auto simp: walked_def)
  next
    case (Dealloc mem p)
    then have [simp]: "st1 = CodeDealloc mem p st" using st1(1) by simp
    show ?thesis using Cons.IH [of st1] st1(2) Cons.prems(1) Dealloc by (simp add: CodeDealloc_total)
  qed
qed simp

text \<open>The events of the laps that the loop runs.\<close>

fun lap_events :: "timespec \<Rightarrow> (timespec \<times> native_event list) list \<Rightarrow> native_event list" where
  "lap_events finish_line [] = []"
| "lap_events finish_line ((now, es) # laps) =
     (if AlmostThere finish_line flush_interval now then [] else es @ lap_events finish_line laps)"

lemma collect_loop_total:
  assumes "wf_native st" "collect_loop v finish_line laps st = Some st'"
  shows "wf_native st' \<and> native_total st' \<le> native_total st + int (signal_count (lap_events finish_line laps)) \<and>
    ((\<forall>e \<in> set (lap_events finish_line laps). walked v e) \<longrightarrow>
      native_total st' = native_total st + int (signal_count (lap_events finish_line laps)))"
  using assms
proof (induction laps arbitrary: st)
  case (Cons lap laps)
  obtain now es where lap: "lap = (now, es)" by (cases lap)
  show ?case
  proof (cases "AlmostThere finish_line flush_interval now")
    case True
    with Cons.prems show ?thesis by (simp add: lap)
  next
    case False
    then obtain st1 where st1: "events v es st = Some st1" "collect_loop v finish_line laps (Flush st1) = Some st'"
      using Cons.prems(2) by (auto simp: lap split: option.splits)
    note e = events_total [OF Cons.prems(1) st1(1)]
    then have "wf_native (Flush st1)" using Flush_total(1) by blast
    from Cons.IH [OF this st1(2)] e Flush_total(2) [of st1] False show ?thesis by (auto simp: lap)
  qed
qed simp

section \<open>The dictionary\<close>

lemma add_python_trace_total:
  "dict_total (fst (add_python_trace a mem d item acc)) = dict_total (fst acc) + snd item"
  by (cases item) (simp add: add_python_trace_def Let_def dict_total_set dict_get_default_def split: option.split)

lemma add_python_trace_ok: "dict_ok (fst acc) \<Longrightarrow> dict_ok (fst (add_python_trace a mem d item acc))"
  by (cases item) (simp add: add_python_trace_def Let_def)

lemma fold_python_traces:
  "dict_ok (fst acc) \<Longrightarrow> dict_ok (fst (fold (add_python_trace a mem d) items acc)) \<and>
    dict_total (fst (fold (add_python_trace a mem d) items acc)) = dict_total (fst acc) + sum_list (map snd items)"
  by (induction items arbitrary: acc) (simp_all add: add_python_trace_total add_python_trace_ok)

lemma PythonTraces_total:
  assumes "PythonTraces a mem st = Inr py_traces" "0 \<le> n_unknown st"
  shows "dict_ok py_traces" "dict_total py_traces = dict_total (n_aggregated st) + n_unknown st"
proof -
  have p: "py_traces = fst (fold (add_python_trace a mem (n_deallocated st)) (with_unknown st) ([], False))"
    using assms(1) by (auto simp: PythonTraces_def split: prod.splits if_splits)
  note f = fold_python_traces [of "([], False)" a mem "n_deallocated st" "with_unknown st"]
  show "dict_ok py_traces" using f by (simp add: p)
  have "dict_total (with_unknown st) = dict_total (n_aggregated st) + n_unknown st"
    using assms(2) by (simp add: with_unknown_def dict_total_multiset_add)
  then show "dict_total py_traces = dict_total (n_aggregated st) + n_unknown st"
    using f by (simp add: p dict_total_def)
qed

text \<open>The translation fails exactly when the name of a frame cannot be encoded.\<close>

lemma fold_python_traces_error:
  "snd (fold (add_python_trace a mem d) items acc) \<longleftrightarrow>
    snd acc \<or> (\<exists>(frames, n) \<in> set items. \<exists>f \<in> set frames. snd (python_frame a mem d f))"
  by (induction items arbitrary: acc) (auto simp: add_python_trace_def Let_def)

lemma PythonTraces_error:
  "PythonTraces a mem st = Inl e \<longleftrightarrow> e = SystemError \<and>
    (\<exists>(frames, n) \<in> set (with_unknown st). \<exists>f \<in> set frames. snd (python_frame a mem (n_deallocated st) f))"
  using fold_python_traces_error [of a mem "n_deallocated st" "with_unknown st" "([], False)"]
  by (auto simp: PythonTraces_def split: prod.split)

lemma python_frame_error: "snd (python_frame a mem d f) \<Longrightarrow> snd (GetFuncLoc mem (cf_code f))"
  by (auto simp: python_frame_def Let_def split: if_splits option.splits prod.splits)

lemma PythonTraces_decodes:
  assumes "\<And>p. \<not> snd (GetFuncLoc mem p)" shows "\<exists>py_traces. PythonTraces a mem st = Inr py_traces"
proof (cases "PythonTraces a mem st")
  case (Inl e)
  then show ?thesis using python_frame_error assms unfolding PythonTraces_error by blast
qed simp

section \<open>The collection\<close>

lemma wf_reset: "wf_native (Profiler_Reset st)" "native_total (Profiler_Reset st) = dict_total (n_aggregated st)"
  by (simp_all add: Profiler_Reset_def wf_native_def native_total_def wf_table_reset)

lemma total_timer:
  "Start p strerror a st = Some (True, st1) \<Longrightarrow> wf_native st1 = wf_native st \<and> native_total st1 = native_total st"
  "Stop strerror a st = Some st1 \<Longrightarrow> wf_native st1 = wf_native st \<and> native_total st1 = native_total st"
  by (auto dest!: Start_True simp: Stop_eq wf_native_def native_total_def)

definition script_events :: "int \<Rightarrow> collect_script \<Rightarrow> native_event list" where
  "script_events duration_nanos cs =
     lap_events (TimeAdd (cs_start cs) (NanosToTimeSpec duration_nanos)) (cs_laps cs) @ cs_events1 cs @ cs_events2 cs"

lemma Collect_total:
  assumes "Collect v a d p cs st = Some (Inr py_traces, st')" "n_aggregated st = []"
  shows "dict_ok py_traces \<and> dict_total py_traces \<le> int (signal_count (script_events d cs)) \<and>
    ((\<forall>e \<in> set (script_events d cs). walked v e) \<longrightarrow>
      dict_total py_traces = int (signal_count (script_events d cs)))"
proof -
  let ?st0 = "(Profiler_Reset st)\<lparr>n_deallocated := []\<rparr>"
  let ?f = "TimeAdd (cs_start cs) (NanosToTimeSpec d)"
  have w0: "wf_native ?st0" "native_total ?st0 = 0"
    using wf_reset [of st] assms(2) by (simp_all add: wf_native_def native_total_def dict_total_def)
  obtain st1 where st1: "Start p (cs_strerror cs) (cs_logging cs) ?st0 = Some (True, st1)"
    using assms(1) by (auto simp: Collect_def Let_def bind_eq_Some_conv split: prod.splits if_splits)
  have w1: "wf_native st1" "native_total st1 = 0"
    using total_timer(1) [OF st1] w0 by simp_all
  obtain st2 st3 st4 st5 where run: "collect_loop v ?f (cs_laps cs) st1 = Some st2"
    "events v (cs_events1 cs) st2 = Some st3" "events v (cs_events2 cs) st4 = Some st5"
    "PythonTraces a (cs_memory cs) (Flush st5) = Inr py_traces"
    and st4: "Stop (cs_strerror cs) (cs_logging cs) st3 = Some st4"
    using assms(1) by (auto simp: Collect_def Let_def st1 bind_eq_Some_conv)
  note c2 = collect_loop_total [OF w1(1) run(1)]
  note c3 = events_total [OF conjunct1 [OF c2] run(2)]
  note stop = total_timer(2) [OF st4]
  have "wf_native st4" using c3 stop by simp
  note c5 = events_total [OF this run(3)]
  have w5: "wf_native st5" using c5 by simp
  note fl = Flush_total [OF w5]
  have "0 \<le> n_unknown (Flush st5)" using fl(1) by (simp add: wf_native_def)
  note pt = PythonTraces_total [OF run(4) this]
  have "dict_total py_traces = native_total (Flush st5)" using pt(2) fl(3) by (simp add: native_total_def)
  then show ?thesis
    using pt(1) fl(2) c2 c3 c5 w1(2) stop by (auto simp: script_events_def)
qed

lemma ProfileCPU_total:
  assumes "ProfileCPU v addr2line cs d ms = Some (Inr py_traces)"
  shows "dict_ok py_traces \<and> dict_total py_traces \<le> int (signal_count (script_events d cs)) \<and>
    ((\<forall>e \<in> set (script_events d cs). walked v e) \<longrightarrow>
      dict_total py_traces = int (signal_count (script_events d cs)))"
proof -
  obtain st' where "fits_long_long d" "Collect v addr2line (sint (word_of_int d :: 64 word))
      (sint ((word_of_int ms :: 64 word) * kNanosPerMilli)) cs (Profiler_init\<lparr>n_log := cs_log cs\<rparr>) = Some (Inr py_traces, st')"
    using assms by (auto simp: ProfileCPU_def Let_def split: if_splits)
  note run = this(2) [unfolded sint_int64 [OF this(1)]]
  show ?thesis by (rule Collect_total [OF run]) (simp add: Profiler_init_def Profiler_Reset_def)
qed

end
