(* ===== verification/NativeSpec.thy ===== *)
theory NativeSpec
  imports NativeCorrect
begin

text \<open>
  The contract of the native extension: the properties of the manifest about
  \<open>clock.cc\<close>, \<open>stacktraces.cc\<close>, \<open>populate_frames.cc\<close> and \<open>profiler.cc\<close>, and of the CPU profiler
  built on it.
\<close>

section \<open>Example data\<close>

definition sample_code :: code_object where
  "sample_code = \<lparr>co_is_code = True, co_firsttraceable = 2, co_name_utf8 = Some ''work'',
     co_filename_utf8 = Some ''app.py''\<rparr>"

definition sample_memory :: memory where
  "sample_memory = \<lparr>
     m_frame = (\<lambda>a. if a = 4096 then Some \<lparr>f_code = 256, f_owner = OwnedByThread, f_instr = 330, f_previous = 0\<rparr>
       else if a = 8192 then Some \<lparr>f_code = 256, f_owner = OwnedByCStack, f_instr = 0, f_previous = 8192\<rparr> else None),
     m_code = (\<lambda>a. if a = 256 then Some sample_code else None),
     m_current_frame = (\<lambda>a. if a = 512 then Some 4096 else None),
     m_old_frame = (\<lambda>a. if a = 1024 then Some \<lparr>of_lineno = 12, of_code = 256, of_back = 0\<rparr> else None),
     m_code_offset = 64\<rparr>"

definition sample_thread :: thread_state where
  "sample_thread = \<lparr>ts_current_frame = 4096, ts_cframe = 512, ts_frame = 1024\<rparr>"

definition sample_lines :: "addr \<Rightarrow> 32 word \<Rightarrow> int" where
  "sample_lines code offset = 100 + sint offset"

lemma numeral_less_kMax: "kMaxFramesToCapture = Suc 127"
  by (simp add: kMaxFramesToCapture_def)

section \<open>Properties of the clock\<close>

text \<open>
  C31: adding two valid times adds their nanoseconds, and comparing valid times compares them;
  but the sum is a valid time only when the nanosecond fields do not add up to exactly a
  second, which the code does not carry over.
\<close>

theorem time_arithmetic:
  assumes "valid_timespec a" "valid_timespec b"
  shows "nanos_of (TimeAdd a b) = nanos_of a + nanos_of b \<and>
    0 \<le> tv_nsec (TimeAdd a b) \<and> tv_nsec (TimeAdd a b) \<le> kNanosPerSecond \<and>
    (valid_timespec (TimeAdd a b) \<longleftrightarrow> tv_nsec a + tv_nsec b \<noteq> kNanosPerSecond) \<and>
    (TimeLessThan a b \<longleftrightarrow> nanos_of a < nanos_of b)"
proof -
  have "0 \<le> tv_nsec a" "0 \<le> tv_nsec b" using assms by (simp_all add: valid_timespec_def)
  note s = nanos_TimeAdd [OF this]
  have "0 \<le> tv_nsec (TimeAdd a b)" "tv_nsec (TimeAdd a b) \<le> kNanosPerSecond"
    unfolding nsec_TimeAdd [OF assms] by (simp_all add: kNanosPerSecond_def pos_mod_bound [THEN less_imp_le])
  then show ?thesis using s valid_TimeAdd [OF assms] TimeLessThan_nanos [OF assms] by simp
qed

theorem time_arithmetic_witness:
  "\<not> valid_timespec (TimeAdd \<lparr>tv_sec = 7, tv_nsec = 900000000\<rparr> flush_interval)"
  using time_arithmetic [of "\<lparr>tv_sec = 7, tv_nsec = 900000000\<rparr>" flush_interval]
  by (simp add: valid_timespec_def flush_interval_def kNanosPerSecond_def)

text \<open>The handlers of a sequence of events come back.\<close>

definition walk_returns :: "py_version \<Rightarrow> native_event \<Rightarrow> bool" where
  "walk_returns v e = (case e of Sigprof mem ts _ \<Rightarrow> PopulateFrames v mem ts \<noteq> None | Dealloc _ _ \<Rightarrow> True)"

lemma Handle_returns:
  "PopulateFrames v mem ts \<noteq> None \<Longrightarrow> \<exists>st'. Handle v mem ts ok st = Some st'"
  by (auto simp: Handle_def split: prod.split bool.split)

lemma events_return: "\<forall>e \<in> set es. walk_returns v e \<Longrightarrow> \<exists>st'. events v es st = Some st'"
proof (induction es arbitrary: st)
  case (Cons e es)
  have "\<exists>st1. event v e st = Some st1"
  proof (cases e)
    case (Sigprof mem ts ok)
    then show ?thesis using Cons.prems Handle_returns [of v mem ts ok st] by (simp add: walk_returns_def)
  qed simp
  then show ?case using Cons by fastforce
qed simp

lemma loop_returns:
  "\<exists>lap \<in> set laps. AlmostThere finish_line flush_interval (fst lap) \<Longrightarrow>
    \<forall>e \<in> set (concat (map snd laps)). walk_returns v e \<Longrightarrow> \<exists>st'. collect_loop v finish_line laps st = Some st'"
proof (induction laps arbitrary: st)
  case (Cons lap laps)
  obtain now es where lap: "lap = (now, es)" by (cases lap)
  show ?case
  proof (cases "AlmostThere finish_line flush_interval now")
    case False
    obtain st1 where "events v es st = Some st1" using events_return Cons.prems(2) lap by fastforce
    moreover obtain st' where "collect_loop v finish_line laps (Flush st1) = Some st'"
      using Cons.IH [of "Flush st1"] Cons.prems False by (auto simp: lap)
    ultimately show ?thesis by (simp add: lap False)
  qed (simp add: lap)
qed simp

text \<open>With its loop and its handlers done, a collection waits for two absolute times.\<close>

lemma Collect_returns:
  assumes "Start p (cs_strerror cs) (cs_logging cs) ((Profiler_Reset st)\<lparr>n_deallocated := []\<rparr>) = Some (True, st1)"
    and "finish_line = TimeAdd (cs_start cs) (NanosToTimeSpec d)"
    and "collect_loop v finish_line (cs_laps cs) st1 = Some st2"
    and "events v (cs_events1 cs) st2 = Some st3" "Stop (cs_strerror cs) (cs_logging cs) st3 = Some st4"
    and "events v (cs_events2 cs) st4 = Some st5"
  shows "Collect v addr2line d p cs st \<noteq> None \<longleftrightarrow>
    valid_timespec finish_line \<and> valid_timespec (TimeAdd finish_line flush_interval)"
proof -
  have "SleepUntil t n = (if valid_timespec t then Some () else None)" for t n
    using SleepUntil_returns [of t n] by (cases "SleepUntil t n") auto
  then show ?thesis by (simp add: Collect_def Let_def assms(1,3-6) flip: assms(2))
qed

text \<open>
  C32: once its loop has ended and its handlers return, a collection returns exactly when
  neither of its two absolute wake-up times is an invalid time: when the nanoseconds of the
  start and of the duration do not add up to a second, and those of the finish line are not
  nine tenths of a second. Otherwise it sleeps for ever.
\<close>

theorem collection_returns:
  assumes "valid_timespec (cs_start cs)" "0 \<le> d"
    and "Start p (cs_strerror cs) (cs_logging cs) ((Profiler_Reset st)\<lparr>n_deallocated := []\<rparr>) = Some (True, st1)"
    and "finish_line = TimeAdd (cs_start cs) (NanosToTimeSpec d)"
    and "collect_loop v finish_line (cs_laps cs) st1 = Some st2"
    and "events v (cs_events1 cs) st2 = Some st3" "Stop (cs_strerror cs) (cs_logging cs) st3 = Some st4"
    and "events v (cs_events2 cs) st4 = Some st5"
  shows "Collect v addr2line d p cs st \<noteq> None \<longleftrightarrow>
    tv_nsec (cs_start cs) + d mod kNanosPerSecond \<noteq> kNanosPerSecond \<and> tv_nsec finish_line \<noteq> 900000000"
proof -
  have nd: "valid_timespec (NanosToTimeSpec d)" "tv_nsec (NanosToTimeSpec d) = d mod kNanosPerSecond"
    using NanosToTimeSpec_valid [OF assms(2)] sdiv_smod_nonneg [OF assms(2), of kNanosPerSecond]
    by (simp_all add: NanosToTimeSpec_def kNanosPerSecond_def)
  have v1: "valid_timespec finish_line \<longleftrightarrow> tv_nsec (cs_start cs) + d mod kNanosPerSecond \<noteq> kNanosPerSecond"
    unfolding assms(4) using valid_TimeAdd [OF assms(1) nd(1)] nd(2) by simp
  have f: "valid_timespec flush_interval" by (simp add: valid_timespec_def flush_interval_def kNanosPerSecond_def)
  have v2: "valid_timespec finish_line \<Longrightarrow>
      valid_timespec (TimeAdd finish_line flush_interval) \<longleftrightarrow> tv_nsec finish_line \<noteq> 900000000"
    using valid_TimeAdd [OF _ f] by (auto simp: flush_interval_def kNanosPerSecond_def)
  show ?thesis using Collect_returns [OF assms(3-8), of addr2line] v1 v2 by blast
qed

definition sample_script :: "int \<Rightarrow> collect_script" where
  "sample_script nsec = \<lparr>cs_start = \<lparr>tv_sec = 50, tv_nsec = nsec\<rparr>,
     cs_laps = [(\<lparr>tv_sec = 50, tv_nsec = nsec\<rparr>, [Sigprof sample_memory None (\<lambda>_. True)]),
       (\<lparr>tv_sec = 60, tv_nsec = nsec\<rparr>, [])],
     cs_interrupts1 = 3, cs_events1 = [], cs_interrupts2 = 0, cs_events2 = [], cs_memory = sample_memory,
     cs_log = fresh_log, cs_strerror = ''Invalid argument'', cs_logging = \<lparr>la_import = True, la_call = True\<rparr>\<rparr>"

lemma sample_timer_start: "Start 10000000 strerror a st = Some (True, st\<lparr>n_timer_usec := 10000\<rparr>)"
proof -
  have "signed_take_bit 31 (10000000 sdiv 1000 :: int) = 10000" by code_simp
  then show ?thesis by (simp add: Start_def SetSigprofInterval_nonneg)
qed

lemma sample_loop:
  "\<exists>st'. collect_loop v (TimeAdd \<lparr>tv_sec = 50, tv_nsec = 900000000\<rparr> (NanosToTimeSpec 10000000000))
    (cs_laps (sample_script 900000000)) st = Some st'"
proof -
  let ?f = "TimeAdd \<lparr>tv_sec = 50, tv_nsec = 900000000\<rparr> (NanosToTimeSpec 10000000000)"
  have f: "?f = \<lparr>tv_sec = 60, tv_nsec = 900000000\<rparr>" by code_simp
  have a: "\<not> AlmostThere \<lparr>tv_sec = 60, tv_nsec = 900000000\<rparr> flush_interval \<lparr>tv_sec = 50, tv_nsec = 900000000\<rparr>"
    "AlmostThere \<lparr>tv_sec = 60, tv_nsec = 900000000\<rparr> flush_interval \<lparr>tv_sec = 60, tv_nsec = 900000000\<rparr>"
    by code_simp+
  obtain st1 where "Handle v sample_memory None (\<lambda>_. True) st = Some st1"
    using Handle_returns [of v sample_memory None] by (auto simp: PopulateFrames_def)
  then show ?thesis unfolding f by (simp add: sample_script_def a)
qed

theorem collection_returns_witness:
  "Collect Py312 sample_lines 10000000000 10000000 (sample_script 900000000) Profiler_init = None"
proof -
  let ?st1 = "(Profiler_Reset Profiler_init)\<lparr>n_deallocated := [], n_timer_usec := 10000\<rparr>"
  let ?f = "TimeAdd (cs_start (sample_script 900000000)) (NanosToTimeSpec 10000000000)"
  obtain st2 where loop: "collect_loop Py312 ?f (cs_laps (sample_script 900000000)) ?st1 = Some st2"
    using sample_loop [of Py312 ?st1] by (auto simp: sample_script_def)
  have valid: "valid_timespec (cs_start (sample_script 900000000))"
    by (simp add: sample_script_def valid_timespec_def kNanosPerSecond_def)
  have ev: "events Py312 (cs_events1 (sample_script 900000000)) st2 = Some st2"
    "events Py312 (cs_events2 (sample_script 900000000)) st4 = Some st4" for st4
    by (simp_all add: sample_script_def)
  have nsec: "tv_nsec ?f = 900000000" unfolding sample_script_def by code_simp
  have "(0 :: int) \<le> 10000000000" by simp
  from collection_returns [OF valid this sample_timer_start refl loop ev(1) Stop_eq ev(2), of sample_lines] nsec
  show ?thesis by blast
qed

text \<open>What lets a whole call of the extension return: a clock, valid times, and walks that come back.\<close>

definition collection_ends :: "py_version \<Rightarrow> collect_script \<Rightarrow> int \<Rightarrow> bool" where
  "collection_ends v cs d \<longleftrightarrow> (let finish_line = TimeAdd (cs_start cs) (NanosToTimeSpec d) in
     valid_timespec finish_line \<and> valid_timespec (TimeAdd finish_line flush_interval) \<and>
     (\<exists>lap \<in> set (cs_laps cs). AlmostThere finish_line flush_interval (fst lap)) \<and>
     (\<forall>e \<in> set (concat (map snd (cs_laps cs)) @ cs_events1 cs @ cs_events2 cs). walk_returns v e))"

lemma ProfileCPU_returns:
  assumes "fits_long_long d \<Longrightarrow> collection_ends v cs d" "0 \<le> ms" "ms \<le> 2147483" shows "ProfileCPU v addr2line cs d ms \<noteq> None"
proof (cases "fits_long_long d")
  case True
  let ?st = "Profiler_init\<lparr>n_log := cs_log cs\<rparr>" and ?p = "sint ((word_of_int ms :: 64 word) * kNanosPerMilli)"
  let ?st1 = "((Profiler_Reset ?st)\<lparr>n_deallocated := []\<rparr>)\<lparr>n_timer_usec := ms * 1000\<rparr>"
  let ?f = "TimeAdd (cs_start cs) (NanosToTimeSpec d)"
  note ends = assms(1) [OF True, unfolded collection_ends_def Let_def]
  obtain st2 where st2: "collect_loop v ?f (cs_laps cs) ?st1 = Some st2"
    using loop_returns [of "cs_laps cs" ?f v ?st1] ends by auto
  obtain st3 where st3: "events v (cs_events1 cs) st2 = Some st3"
    using events_return [of "cs_events1 cs" v st2] ends by auto
  obtain st5 where st5: "events v (cs_events2 cs) (st3\<lparr>n_timer_usec := 0, n_handler := False\<rparr>) = Some st5"
    using events_return [of "cs_events2 cs" v] ends by fastforce
  have "Collect v addr2line d ?p cs ?st \<noteq> None"
    using Collect_returns [OF Start_ok [OF assms(2,3)] refl st2 st3 Stop_eq st5] ends by blast
  then show ?thesis
    using True period_nanos_eq(1) [OF assms(2,3)] by (simp add: ProfileCPU_def Let_def sint_int64)
qed (simp add: ProfileCPU_def)

section \<open>Properties of the trace tables\<close>

text \<open>
  C33: the fixed table refines a multiset of traces: an addition that reports success adds one
  occurrence of its trace, whatever the hashes and the spurious failures of the exchanges, one
  that reports failure changes nothing, and without spurious failures it only fails when every
  slot holds another trace.
\<close>

theorem table_add_refines_multiset:
  assumes "wf_table table" "length trace \<le> kMaxFramesToCapture" "table_add ok trace table = (r, table')"
  shows "wf_table table' \<and>
    (\<lambda>t. count_in t table') = (if r then (\<lambda>t. count_in t table)(trace := count_in trace table + 1)
      else (\<lambda>t. count_in t table)) \<and>
    (\<not> r \<and> ok = (\<lambda>_. True) \<longrightarrow> (\<forall>e \<in> set table. 0 < e_count e \<and> e_frames e \<noteq> trace))"
proof -
  note c = add_from_counts [OF assms(1,2) assms(3) [unfolded table_add_def]]
  have "(\<forall>e \<in> set table. 0 < e_count e \<and> e_frames e \<noteq> trace)" if "\<not> r" "ok = (\<lambda>_. True)"
    using table_add_full [OF assms(1)] assms(3) that by simp
  with c show ?thesis by (auto simp: fun_eq_iff)
qed

theorem table_add_refines_multiset_witness:
  "count_in [CallFrame 12 256] (snd (table_add (\<lambda>_. True) [CallFrame 12 256] table_reset)) = 1"
proof -
  obtain r table' where a: "table_add (\<lambda>_. True) [CallFrame 12 256] table_reset = (r, table')"
    by (cases "table_add (\<lambda>_. True) [CallFrame 12 256] table_reset")
  note m = table_add_refines_multiset [OF wf_table_reset(1) _ a]
  have "r"
  proof (rule ccontr)
    assume "\<not> r"
    moreover have "empty_entry \<in> set table_reset" by (simp add: table_reset_def kMaxStackTraces_def)
    ultimately have "0 < e_count empty_entry" using m by (auto simp: numeral_less_kMax)
    then show False by (simp add: empty_entry_def)
  qed
  then show ?thesis using m wf_table_reset(2) by (simp add: a numeral_less_kMax fun_eq_iff)
qed

text \<open>
  C34: a harvest moves the whole table: every non-empty trace is added to the growing multiset
  with its count, traces without frames are dropped, the table is empty afterwards, and the
  result is the number of slots moved.
\<close>

theorem harvest_moves_table:
  assumes "wf_table table" "HarvestSamples table to = (n, table', to')"
  shows "(\<forall>t. dict_get_default to' t 0 = dict_get_default to t 0 + (if t \<noteq> [] then count_in t table else 0)) \<and>
    (\<forall>t. count_in t table' = 0) \<and> wf_table table' \<and>
    n = length (filter (\<lambda>e. 0 < e_count e \<and> e_frames e \<noteq> []) table)"
  using HarvestSamples_eq [OF assms(1), of to] assms(2) wf_table_cleared [OF assms(1)]
  by (auto simp: harvest_ok_def [abs_def])

theorem harvest_moves_table_witness:
  "fst (HarvestSamples table_reset []) = 0"
proof -
  obtain n table' to' where h: "HarvestSamples table_reset [] = (n, table', to')" by (cases "HarvestSamples table_reset []")
  from harvest_moves_table [OF wf_table_reset(1) h] have "n = 0"
    by (simp add: table_reset_def empty_entry_def filter_empty_conv)
  with h show ?thesis by simp
qed

section \<open>Properties of the frame walk\<close>

text \<open>
  C37: from 3.11 on, the walk in the signal handler gives the first 128 complete frames of the
  chain, innermost first, where the chain ends at the null pointer or at a frame that cannot be
  read; and it comes back exactly when the chain ends or 128 complete frames come first.
\<close>

theorem walk_first_complete_frames:
  assumes "v \<noteq> PyBefore311" "first_frame v mem ts = Some a"
  shows "(PopulateFrames v mem (Some ts) \<noteq> None \<longleftrightarrow>
      (\<exists>n. length (path (m_frame mem) n a) < n \<or>
        128 \<le> length (complete_frames (resolve_frame v mem) (path (m_frame mem) n a)))) \<and>
    (\<forall>n. length (path (m_frame mem) n a) < n \<or>
        128 \<le> length (complete_frames (resolve_frame v mem) (path (m_frame mem) n a)) \<longrightarrow>
      PopulateFrames v mem (Some ts) =
        Some (take 128 (complete_frames (resolve_frame v mem) (path (m_frame mem) n a))))"
proof -
  have p: "PopulateFrames v mem (Some ts) = walk (resolve_frame v mem) (m_frame mem) a []"
    using assms by (simp add: PopulateFrames_def)
  have e: "enough (resolve_frame v mem) (m_frame mem) n a (length ([] :: call_trace)) \<longleftrightarrow>
      length (path (m_frame mem) n a) < n \<or>
      128 \<le> length (complete_frames (resolve_frame v mem) (path (m_frame mem) n a))" for n
    by (simp add: enough_def kMaxFramesToCapture_def)
  note returns = walk_enough [of "resolve_frame v mem" "m_frame mem" _ a "[]", unfolded e]
  note ends = walk_Some_enough [of "resolve_frame v mem" "m_frame mem" a "[]", unfolded e]
  show ?thesis unfolding p using returns ends by (auto simp: kMaxFramesToCapture_def)
qed

lemma sample_resolve:
  "resolve_frame Py312 sample_memory \<lparr>f_code = 256, f_owner = OwnedByThread, f_instr = 330, f_previous = 0\<rparr> =
    Some (CallFrame 10 256)"
  by code_simp

theorem walk_first_complete_frames_witness:
  "PopulateFrames Py312 sample_memory (Some sample_thread) = Some [CallFrame 10 256]"
proof -
  have "first_frame Py312 sample_memory sample_thread = Some 4096"
    by (simp add: first_frame_def sample_thread_def SafeCopy_def sample_memory_def)
  moreover have "path (m_frame sample_memory) (Suc (Suc 0)) 4096 =
      [\<lparr>f_code = 256, f_owner = OwnedByThread, f_instr = 330, f_previous = 0\<rparr>]"
    by (simp add: SafeCopy_def sample_memory_def)
  ultimately show ?thesis
    using walk_first_complete_frames [of Py312 sample_memory sample_thread 4096] sample_resolve
    by (auto dest!: spec [of _ "Suc (Suc 0)"])
qed

text \<open>
  C38: a readable frame that is not complete and links to itself, as a torn chain may, keeps the
  signal handler in its loop for ever: the number of frames bounds what is stored, not how far
  the chain is followed.
\<close>

theorem walk_loops_on_cycle:
  assumes "v \<noteq> PyBefore311" "first_frame v mem ts = Some a" "a \<noteq> 0" "m_frame mem a = Some fr"
    and "f_previous fr = a" "resolve_frame v mem fr = None"
  shows "PopulateFrames v mem (Some ts) = None"
proof (rule ccontr)
  assume "PopulateFrames v mem (Some ts) \<noteq> None"
  then obtain r where "walk (resolve_frame v mem) (m_frame mem) a [] = Some r"
    using assms(1,2) by (auto simp: PopulateFrames_def)
  from walk_Some_enough [OF this] obtain n where
    "enough (resolve_frame v mem) (m_frame mem) n a (length ([] :: call_trace))" by blast
  moreover have "path (m_frame mem) n a = replicate n fr"
    by (rule path_loop) (use assms(3-5) in \<open>simp_all add: SafeCopy_def\<close>)
  ultimately show False
    using complete_frames_replicate_None [of "resolve_frame v mem" fr n] assms(6)
    by (simp add: enough_def kMaxFramesToCapture_def)
qed

theorem walk_loops_on_cycle_witness:
  "PopulateFrames Py313 sample_memory (Some (sample_thread\<lparr>ts_current_frame := 8192\<rparr>)) = None"
proof -
  let ?fr = "\<lparr>f_code = 256, f_owner = OwnedByCStack, f_instr = 0, f_previous = 8192\<rparr>"
  have "m_frame sample_memory 8192 = Some ?fr" by (simp add: sample_memory_def)
  moreover have "resolve_frame Py313 sample_memory ?fr = None" by code_simp
  ultimately show ?thesis
    by (intro walk_loops_on_cycle [of _ _ _ 8192 ?fr]) (simp_all add: first_frame_def)
qed

section \<open>Properties of a collection\<close>

text \<open>The samples of a profile whose traces the extension returned.\<close>

lemma counted_samples:
  assumes "ProfileCPU v addr2line cs d ms = Some (Inr traces)"
    and "map (read_sample p) (pf_sample p) = map (spec_sample period) traces"
  shows "\<exists>counts. map sm_value (pf_sample p) = map (\<lambda>n. [n, period * n]) counts \<and>
    distinct (map (fst \<circ> read_sample p) (pf_sample p)) \<and>
    sum_list counts \<le> int (signal_count (script_events d cs)) \<and>
    ((\<forall>e \<in> set (script_events d cs). walked v e) \<longrightarrow> sum_list counts = int (signal_count (script_events d cs)))"
proof -
  note total = ProfileCPU_total [OF assms(1)]
  have "map snd (map (read_sample p) (pf_sample p)) = map (\<lambda>n. [n, period * n]) (map snd traces)"
    unfolding assms(2) by (simp add: spec_sample_def comp_def)
  moreover have "map fst (map (read_sample p) (pf_sample p)) = map (map Some) (map fst traces)"
    unfolding assms(2) by (simp add: spec_sample_def comp_def)
  moreover have "distinct (map (map Some) (map fst traces))"
  proof (rule distinct_map [THEN iffD2], intro conjI)
    show "distinct (map fst traces)" using total by (simp add: dict_ok_def)
    show "inj_on (map Some) (set (map fst traces))" by (rule inj_onI) (simp add: inj_map_eq_map)
  qed
  ultimately show ?thesis using total
    by (intro exI [of _ "map snd traces"]) (simp add: read_sample_def comp_def dict_total_def)
qed

text \<open>
  The CPU profiler with the extension as its native entry point: the bytes it returns are a
  profile that counts the profiling signals delivered while the collection ran.
\<close>

theorem cpu_profile_counts_signals:
  assumes "runtime_ok rt" "ProfileCPU v addr2line cs d ms = Some r"
    and "cpu_profile rt (\<lambda>duration_ns period_ms. the (ProfileCPU v addr2line cs duration_ns period_ms)) d
      (CPUProfiler_init ms) = Inr bytes"
  shows "\<exists>p counts. bytes = pb_gzip rt (pb_serialize rt p) \<and> header_read p ''CPU'' ''nanoseconds'' (ms * 1000000) d \<and>
    map sm_value (pf_sample p) = map (\<lambda>n. [n, ms * 1000000 * n]) counts \<and>
    distinct (map (fst \<circ> read_sample p) (pf_sample p)) \<and>
    sum_list counts \<le> int (signal_count (script_events d cs)) \<and>
    ((\<forall>e \<in> set (script_events d cs). walked v e) \<longrightarrow> sum_list counts = int (signal_count (script_events d cs)))"
proof -
  obtain traces where traces: "r = Inr traces"
    "build_profile rt traces ''CPU'' ''nanoseconds'' (ms * 1000000) d = Inr bytes"
    using assms(2,3) by (cases r)
      (auto simp: cpu_profile_def cpu_collect_def cpu_build_profile_def CPUProfiler_init_def mult.assoc)
  obtain p where p: "bytes = pb_gzip rt (pb_serialize rt p)" "header_read p ''CPU'' ''nanoseconds'' (ms * 1000000) d"
    "map (read_sample p) (pf_sample p) = map (spec_sample (ms * 1000000)) traces"
    using build_profile_reads [OF assms(1) traces(2)] by blast
  from counted_samples [OF assms(2) [unfolded traces(1)] p(3)] p(1,2) show ?thesis by blast
qed

lemma no_python_state: "PopulateFrames v mem None = Some [CallFrame kNoPyState 0]"
  by (simp add: PopulateFrames_def)

text \<open>A script with one signal, whose addition to the table fails.\<close>

definition unknown_script :: collect_script where
  "unknown_script = (sample_script 0)\<lparr>cs_laps := [(\<lparr>tv_sec = 50, tv_nsec = 0\<rparr>, [Sigprof sample_memory None (\<lambda>_. False)]),
     (\<lparr>tv_sec = 60, tv_nsec = 0\<rparr>, [])]\<rparr>"

lemma script_times:
  "TimeAdd \<lparr>tv_sec = 50, tv_nsec = 0\<rparr> (NanosToTimeSpec 10000000000) = \<lparr>tv_sec = 60, tv_nsec = 0\<rparr>"
  "\<not> AlmostThere \<lparr>tv_sec = 60, tv_nsec = 0\<rparr> flush_interval \<lparr>tv_sec = 50, tv_nsec = 0\<rparr>"
  "AlmostThere \<lparr>tv_sec = 60, tv_nsec = 0\<rparr> flush_interval \<lparr>tv_sec = 60, tv_nsec = 0\<rparr>"
  "valid_timespec \<lparr>tv_sec = 60, tv_nsec = 0\<rparr>"
  "valid_timespec (TimeAdd \<lparr>tv_sec = 60, tv_nsec = 0\<rparr> flush_interval)"
  by code_simp+

lemma script_times_half:
  "TimeAdd \<lparr>tv_sec = 50, tv_nsec = 0\<rparr> (NanosToTimeSpec 2500000000) = \<lparr>tv_sec = 52, tv_nsec = 500000000\<rparr>"
  "AlmostThere \<lparr>tv_sec = 52, tv_nsec = 500000000\<rparr> flush_interval \<lparr>tv_sec = 60, tv_nsec = 0\<rparr>"
  "valid_timespec \<lparr>tv_sec = 52, tv_nsec = 500000000\<rparr>"
  "valid_timespec (TimeAdd \<lparr>tv_sec = 52, tv_nsec = 500000000\<rparr> flush_interval)"
  by code_simp+

lemma unknown_events: "script_events 10000000000 unknown_script = [Sigprof sample_memory None (\<lambda>_. False)]"
  by (simp add: script_events_def unknown_script_def sample_script_def script_times)

lemma unknown_collection:
  "ProfileCPU Py312 sample_lines unknown_script 10000000000 10 = Some (Inr [([(''[Unknown]'', '''', 0)], 1)])"
proof -
  let ?st = "Profiler_init\<lparr>n_log := fresh_log\<rparr>"
  let ?st1 = "((Profiler_Reset ?st)\<lparr>n_deallocated := []\<rparr>)\<lparr>n_timer_usec := 10000\<rparr>"
  let ?st2 = "?st1\<lparr>n_unknown := 1\<rparr>"
  let ?st4 = "?st2\<lparr>n_timer_usec := 0, n_handler := False\<rparr>"
  have reset: "n_table ?st2 = table_reset" "n_aggregated ?st2 = []" by (simp_all add: Profiler_init_def Profiler_Reset_def)
  have h: "Handle Py312 sample_memory None (\<lambda>_. False) ?st1 = Some ?st2"
    by (simp add: Handle_def no_python_state table_add_never Profiler_Reset_def)
  have fl: "Flush ?st2 = ?st2" "Flush ?st4 = ?st4"
    using reset by (simp_all add: Flush_def HarvestSamples_reset)
  have "Collect Py312 sample_lines 10000000000 10000000 unknown_script ?st =
      Some (PythonTraces sample_lines sample_memory ?st4, ?st4)"
    using h fl
    by (simp add: Collect_def Let_def unknown_script_def sample_script_def script_times SleepUntil_valid
        sample_timer_start Stop_eq)
  then have "ProfileCPU Py312 sample_lines unknown_script 10000000000 10 =
      Some (PythonTraces sample_lines sample_memory ?st4)"
    using sint_int64 [of 10000000000] period_nanos_eq [of 10]
    by (simp add: ProfileCPU_def Let_def fits_long_long_def unknown_script_def sample_script_def)
  moreover have "with_unknown ?st4 = [([CallFrame kUnknown 0], 1)]"
    using reset(2) by (simp add: with_unknown_def multiset_add_def dict_set_def)
  ultimately show ?thesis
    by (simp add: PythonTraces_def add_python_trace_def python_frame_def Let_def CallTraceErrorToName_def
        kUnknown_def kNoPyState_def dict_set_def)
qed

theorem cpu_profile_counts_signals_witness:
  "\<exists>bytes p. cpu_profile sample_runtime (\<lambda>d ms. the (ProfileCPU Py312 sample_lines unknown_script d ms)) 10000000000
      (CPUProfiler_init 10) = Inr bytes \<and> header_read p ''CPU'' ''nanoseconds'' 10000000 10000000000 \<and>
    sum_list (map (\<lambda>s. sm_value s ! 0) (pf_sample p)) = 1"
proof -
  let ?traces = "[([(''[Unknown]'', '''', 0)], 1)] :: (trace, int) dict"
  obtain b where b: "populate_profile sample_runtime ?traces ''CPU'' ''nanoseconds'' 10000000 10000000000 Builder_init = (Inr (), b)"
    using populate_profile_outcome [OF sample_runtime_ok, of ?traces 10000000 10000000000 "''CPU''" "''nanoseconds''"]
    by (auto simp: frames_total_def data_fits_def item_fits_def frame_fits_def)
  have run: "cpu_profile sample_runtime (\<lambda>d ms. the (ProfileCPU Py312 sample_lines unknown_script d ms)) 10000000000
      (CPUProfiler_init 10) = Inr (emit sample_runtime b)"
    by (simp add: cpu_profile_def cpu_collect_def cpu_build_profile_def CPUProfiler_init_def unknown_collection
        build_profile_def b)
  have "walked Py312 e" if "e \<in> set (script_events 10000000000 unknown_script)" for e
    using that by (simp add: unknown_events walked_def no_python_state)
  with cpu_profile_counts_signals [OF sample_runtime_ok unknown_collection run] obtain p counts where
    p: "header_read p ''CPU'' ''nanoseconds'' 10000000 10000000000"
    "map sm_value (pf_sample p) = map (\<lambda>n. [n, 10000000 * n]) counts" "sum_list counts = 1"
    by (auto simp: unknown_events)
  have "map (\<lambda>s. sm_value s ! 0) (pf_sample p) = map (\<lambda>v. v ! 0) (map sm_value (pf_sample p))" by simp
  also have "\<dots> = counts" unfolding p(2) by (simp add: comp_def)
  finally show ?thesis using run p(1,3) by auto
qed

text \<open>
  C39: the line that is reported for a frame is what the line table gives for the recorded
  number taken as a byte offset. From 3.11 on that is the offset of the instruction; before, the
  recorded number already is the source line, and the reported line is in general another.
\<close>

theorem reported_line:
  assumes "readable_code mem code = Some c" "co_name_utf8 c = Some name" "co_filename_utf8 c = Some filename"
    and "code \<noteq> 0" "dict_get deallocated code = None"
    and "ts_frame ts = p" "p \<noteq> 0" "m_old_frame mem p = Some \<lparr>of_lineno = line, of_code = code, of_back = 0\<rparr>"
    and "first_frame v mem ts = Some a" "a \<noteq> 0" "v \<noteq> PyBefore311"
    and "m_frame mem a = Some fr" "f_previous fr = 0" "f_code fr = code" "resolve_frame v mem fr \<noteq> None"
  shows "map_option (map (fst \<circ> python_frame addr2line mem deallocated)) (PopulateFrames v mem (Some ts)) =
      Some [(name, filename, addr2line code (byte_offset mem code (f_instr fr)))] \<and>
    map_option (map (fst \<circ> python_frame addr2line mem deallocated)) (PopulateFrames PyBefore311 mem (Some ts)) =
      Some [(name, filename, addr2line code line)]"
proof -
  have py: "fst (python_frame addr2line mem deallocated (CallFrame n code)) = (name, filename, addr2line code n)" for n
    using assms(1-5) by (simp add: python_frame_def Let_def GetFuncLoc_def)
  obtain cf where cf: "resolve_frame v mem fr = Some cf" using assms(15) by auto
  have "cf = CallFrame (byte_offset mem code (f_instr fr)) code"
    using cf assms(14) by (cases v) (auto simp: resolve_313_def FrameCode_313_def resolve_with_def
        split: option.splits if_splits)
  moreover have "PopulateFrames v mem (Some ts) = Some [cf]"
    using assms(9-13) cf by (simp add: PopulateFrames_def walk.simps SafeCopy_def kMaxFramesToCapture_def)
  moreover have "PopulateFrames PyBefore311 mem (Some ts) = Some [CallFrame line code]"
    using assms(6-8) by (simp add: PopulateFrames_def walk_old.simps kMaxFramesToCapture_def)
  ultimately show ?thesis using py by simp
qed

theorem reported_line_witness:
  "map_option (map (fst \<circ> python_frame sample_lines sample_memory [])) (PopulateFrames PyBefore311 sample_memory (Some sample_thread)) =
     Some [(''work'', ''app.py'', sample_lines 256 12)] \<and> sample_lines 256 12 \<noteq> 12"
proof -
  let ?fr = "\<lparr>f_code = 256, f_owner = OwnedByThread, f_instr = 330, f_previous = 0\<rparr>"
  have "resolve_frame Py312 sample_memory ?fr \<noteq> None" using sample_resolve by simp
  moreover have "(256 :: addr) \<noteq> 0" "(1024 :: addr) \<noteq> 0" "(4096 :: addr) \<noteq> 0" by code_simp+
  moreover have "sample_lines 256 12 = 112" by code_simp
  ultimately show ?thesis
    using reported_line [of sample_memory 256 sample_code "''work''" "''app.py''" "[]" sample_thread 1024 12 Py312 4096 ?fr
        sample_lines]
    by (simp add: readable_code_def SafeCopy_def sample_memory_def sample_code_def sample_thread_def first_frame_def)
qed

end
