(* ===== verification/EndToEnd.thy ===== *)
theory EndToEnd
  imports ClientReal Agent NativeSpec
begin

text \<open>
  The agent as a whole: from the call of the package's entry point to the polling thread it has
  started, whose CPU collections run the native extension and whose wall collections the
  Python profiler.
\<close>

section \<open>The started agent\<close>

text \<open>What the environment gives a step of the polling thread, down to the native collection.\<close>

record agent_env =
  ae_answers :: answers
  ae_collect :: collect_script
  ae_script :: profile_script

definition native_env :: "py_version \<Rightarrow> (addr \<Rightarrow> 32 word \<Rightarrow> int) \<Rightarrow> agent_env \<Rightarrow> run_env" where
  "native_env v addr2line e = \<lparr>re_answers = ae_answers e, re_native = ProfileCPU v addr2line (ae_collect e),
     re_script = ae_script e\<rparr>"

text \<open>The polling thread of the client that the entry point has made.\<close>

definition agent_run :: "parser \<Rightarrow> pb_runtime \<Rightarrow> py_version \<Rightarrow> (addr \<Rightarrow> 32 word \<Rightarrow> int) \<Rightarrow> agent_env list \<Rightarrow> agent
    \<Rightarrow> (poll \<times> client \<times> action list) option" where
  "agent_run parse rt v addr2line es g = Option.bind (g_client g) (\<lambda>c.
     real_run parse (real_profile rt) (map (native_env v addr2line) es) (poll_start c, c))"

lemma config_keeps:
  assumes "config h pid svc ver dc dw ms url c = (r, c')"
  shows "c_backoff c' = c_backoff c" "c_service c' = c_service c"
  using assms
  by (auto simp: config_def py_monad config_profilers Let_def split: if_splits)

lemma client_start_keeps:
  assumes "client_start h c = (r, c')"
  shows "c_backoff c' = c_backoff c" "c_service c' = c_service c" "c_deployment c' = c_deployment c"
  using assms by (auto simp: client_start_def py_monad split: if_splits option.splits profiler.splits prod.splits sum.splits)

text \<open>A call of the entry point that succeeds has configured and started a fresh client.\<close>

lemma start_client:
  assumes "start h args g = (Inr (), g')" "\<not> g_started g"
  obtains pid c0 c1 c where "setup_auth h (s_project_id args) (s_service_account_json_file args) Client_init = (Inr pid, c0)"
    "config h pid (s_service args) (s_service_version args) (s_disable_cpu_profiling args)
       (s_disable_wall_profiling args) (s_period_ms args) (s_discovery_service_url args) c0 = (Inr (), c1)"
    "client_start h c1 = (Inr (), c)" "g_client g' = Some c" "c_backoff c = default_backoff" "\<not> c_service c"
proof -
  obtain r c where rc: "run_client h args Client_init = (r, c)" by (cases "run_client h args Client_init")
  obtain lv where lv: "logging_level (s_verbose args) = (if s_verbose args < - 4 then Inl IndexError else Inr lv)"
    using logging_level_ok by blast
  note st = start_unfold [OF assms(2) rc lv refl]
  have r: "r = Inr ()" "g_client g' = Some c" using assms(1) unfolding st by (auto split: if_splits)
  obtain ra c0 where a: "setup_auth h (s_project_id args) (s_service_account_json_file args) Client_init = (ra, c0)"
    by (cases "setup_auth h (s_project_id args) (s_service_account_json_file args) Client_init")
  obtain pid where pid: "ra = Inr pid" using rc r(1) a by (cases ra) (simp_all add: run_client_def py_monad)
  let ?cfg = "config h pid (s_service args) (s_service_version args) (s_disable_cpu_profiling args)
       (s_disable_wall_profiling args) (s_period_ms args) (s_discovery_service_url args) c0"
  obtain r1 c1 where cf: "?cfg = (r1, c1)" by (cases ?cfg)
  have r1: "r1 = Inr ()" using rc r(1) a pid cf by (cases r1) (simp_all add: run_client_def py_monad)
  have cs: "client_start h c1 = (Inr (), c)" using rc r(1) a pid cf r1 by (simp add: run_client_def py_monad)
  have "c_backoff c = c_backoff c0" "c_service c = c_service c0"
    using config_keeps [OF cf] client_start_keeps [OF cs] by simp_all
  moreover have "c_backoff c0 = default_backoff" "\<not> c_service c0"
    by (subst setup_auth_client [OF a], simp add: Client_init_def)+
  ultimately show ?thesis using a pid cf r1 cs r(2) by (intro that) simp_all
qed


lemma started_run:
  assumes "start h args g = (Inr (), g')" "\<not> g_started g"
    and "agent_run parse rt v addr2line es g' = Some (st, c', acts)"
    and "runtime_ok rt" "1 \<le> s_period_ms args" "Patched name body \<in> set acts"
  obtains e0 e kvs where "e0 \<in> set es" "a_create (ae_answers e0) = Inr (JObj kvs)" "e \<in> set es"
    "valid_upload parse (valid_bytes rt (s_period_ms args)) (native_env v addr2line e) kvs name body"
proof -
  obtain pid c0 c1 c where cl: "config h pid (s_service args) (s_service_version args) (s_disable_cpu_profiling args)
       (s_disable_wall_profiling args) (s_period_ms args) (s_discovery_service_url args) c0 = (Inr (), c1)"
    "client_start h c1 = (Inr (), c)" "g_client g' = Some c"
    by (rule start_client [OF assms(1,2)])
  have run: "real_run parse (real_profile rt) (map (native_env v addr2line) es) (poll_start c, c) = Some (st, c', acts)"
    using assms(3) cl(3) by (simp add: agent_run_def)
  from every_upload_valid [OF assms(4,5) cl(1,2) run assms(6)] that show ?thesis
    by (auto simp: responses_def native_env_def)
qed

text \<open>
  The environment of a step lets the collection end that the response in the step before asked
  for: a CPU collection whose duration the extension accepts, or a wall collection.
\<close>

definition collection_possible :: "parser \<Rightarrow> py_version \<Rightarrow> agent_env \<Rightarrow> agent_env \<Rightarrow> bool" where
  "collection_possible parse v e e' \<longleftrightarrow> (\<forall>profile ty d.
     a_create (ae_answers e) = Inr profile \<longrightarrow> asked parse profile = Some (ty, d) \<longrightarrow>
     (ty = ''CPU'' \<longrightarrow> fits_long_long d \<longrightarrow> collection_ends v (ae_collect e') d) \<and>
     (ty = ''WALL'' \<longrightarrow> script_ends (ae_script e') d))"

lemma possible_collects:
  assumes "1 \<le> ms" "ms \<le> 2147483" "collection_possible parse v e e'"
  shows "collects parse (env_returns ms) (native_env v addr2line e) (native_env v addr2line e')"
  using assms ProfileCPU_returns [of _ v "ae_collect e'" ms addr2line]
  by (simp add: collection_possible_def collects_def env_returns_def native_env_def)

text \<open>What an uploaded body contains.\<close>

lemma valid_upload_body:
  assumes "valid_upload parse good e kvs name (JObj body)" "dict_get body ''profileType'' = Some (JStr ty)"
  obtains bytes j secs nanos where "dict_get body ''profileBytes'' = Some (JStr bytes)"
    "dict_get body ''duration'' = Some j" "parse j = Inr (secs, nanos)"
    "good e ty (secs * 1000000000 + nanos) (b64decode bytes)"
proof -
  obtain enc ty' j secs nanos where u: "body = dict_set kvs ''profileBytes'' (JStr enc)"
    "dict_get kvs ''profileType'' = Some (JStr ty')" "dict_get kvs ''duration'' = Some j"
    "parse j = Inr (secs, nanos)" "good e ty' (secs * 1000000000 + nanos) (b64decode enc)"
    using assms(1) unfolding valid_upload_def by blast
  have "ty' = ty" using assms(2) u(1,2) by simp
  then show ?thesis using u by (intro that [of enc j secs nanos]) simp_all
qed

text \<open>The bytes of a CPU profile whose native collection is the extension's.\<close>

lemma valid_cpu_bytes:
  assumes "valid_bytes rt ms (native_env v addr2line e) ''CPU'' d bytes"
  shows "\<exists>p counts. bytes = pb_gzip rt (pb_serialize rt p) \<and>
    header_read p ''CPU'' ''nanoseconds'' (ms * 1000000) d \<and>
    map sm_value (pf_sample p) = map (\<lambda>n. [n, ms * 1000000 * n]) counts \<and>
    distinct (map (fst \<circ> read_sample p) (pf_sample p)) \<and>
    sum_list counts \<le> int (signal_count (script_events d (ae_collect e))) \<and>
    ((\<forall>x \<in> set (script_events d (ae_collect e)). walked v x) \<longrightarrow>
      sum_list counts = int (signal_count (script_events d (ae_collect e))))"
proof -
  obtain p traces where p: "bytes = pb_gzip rt (pb_serialize rt p)"
    "header_read p ''CPU'' ''nanoseconds'' (ms * 1000000) d"
    "ProfileCPU v addr2line (ae_collect e) d ms = Some (Inr traces)"
    "map (read_sample p) (pf_sample p) = map (\<lambda>(trace, n). (map Some trace, [n, ms * 1000000 * n])) traces"
    using assms by (auto simp: valid_bytes_def requested_header_def collected_by_def native_env_def)
  have "spec_sample (ms * 1000000) = (\<lambda>(trace, n). (map Some trace, [n, ms * 1000000 * n]))"
    by (simp add: spec_sample_def fun_eq_iff)
  from counted_samples [OF p(3) p(4) [folded this]] p(1,2) show ?thesis by blast
qed

section \<open>Example agent\<close>

definition cpu_args :: start_args where
  "cpu_args = default_args\<lparr>s_disable_wall_profiling := True\<rparr>"

definition sample_agent_env :: agent_env where
  "sample_agent_env = \<lparr>ae_answers = sample_answers, ae_collect = unknown_script,
     ae_script = \<lparr>ps_start = 100, ps_rounds = [([], 2 ^ 40)], ps_tail = []\<rparr>\<rparr>"

lemma sample_agent:
  obtains g c rest where "start sample_host cpu_args Agent_init = (Inr (), g)" "g_client g = Some c"
    "c_profilers c = [(''CPU'', Cpu (CPUProfiler_init 10))]" "\<not> c_service c" "c_backoff c = default_backoff"
    "c_deployment c = JObj ((''projectId'', JStr ''proj'') # rest)"
proof -
  have args: "s_period_ms cpu_args = 10" "s_disable_wall_profiling cpu_args" "\<not> s_disable_cpu_profiling cpu_args"
    "s_service cpu_args = None" "s_project_id cpu_args = None" "s_service_account_json_file cpu_args = None"
    "s_verbose cpu_args = 0" by (simp_all add: cpu_args_def default_args_def)
  have cpu: "cpu_enabled sample_host False" by (simp add: cpu_enabled_def sample_host_def starts_with_def)
  have auth: "resolved_auth sample_host cpu_args = Inr (JStr ''proj'')"
    using args by (simp add: resolved_auth_def setup_auth_def py_monad sample_host_def str_truthy_def)
  have ok: "config_ok sample_host cpu_args (JStr ''proj'')"
    using args cpu sample_service sample_accepted by (simp add: config_ok_def resolved_project_def)
  obtain r g where run: "start sample_host cpu_args Agent_init = (r, g)" by (cases "start sample_host cpu_args Agent_init")
  have new: "\<not> g_started Agent_init" by (simp add: Agent_init_def)
  have "r = Inr ()"
    using start_eq(1) [OF new, of sample_host cpu_args] run auth ok args by (simp add: sample_host_def starts_with_def)
  with run have run: "start sample_host cpu_args Agent_init = (Inr (), g)" by simp
  obtain pid c0 c1 c where c: "setup_auth sample_host (s_project_id cpu_args) (s_service_account_json_file cpu_args) Client_init = (Inr pid, c0)"
    "config sample_host pid (s_service cpu_args) (s_service_version cpu_args) (s_disable_cpu_profiling cpu_args)
       (s_disable_wall_profiling cpu_args) (s_period_ms cpu_args) (s_discovery_service_url cpu_args) c0 = (Inr (), c1)"
    "client_start sample_host c1 = (Inr (), c)" "g_client g = Some c" "c_backoff c = default_backoff" "\<not> c_service c"
    by (rule start_client [OF run new])
  have pid: "pid = JStr ''proj''" using auth c(1) by (simp add: resolved_auth_def)
  have p1: "c_profilers c1 = [(''CPU'', Cpu (CPUProfiler_init 10))]"
    using config_dict [OF c(2)] cpu args by (simp add: dict_set_def)
  then have "c_profilers c = [(''CPU'', Cpu (CPUProfiler_init 10))]"
    using c(3) by (auto simp: client_start_def py_monad dict_get_def split: if_splits)
  moreover have "\<exists>rest. c_deployment c = JObj ((''projectId'', JStr ''proj'') # rest)"
    using config_state(2) [OF c(2)] client_start_keeps(3) [OF c(3)] by (simp add: pid resolved_project_def)
  ultimately show ?thesis using that run c(4-6) by blast
qed

text \<open>Three steps of its polling thread: the service is built, a profile is asked for, collected and uploaded.\<close>

lemma sample_bytes:
  "\<exists>bytes. cpu_profile sample_runtime (\<lambda>_ _. Inr [([(''[Unknown]'', '''', 0)], 1)]) 10000000000 (CPUProfiler_init 10) = Inr bytes"
proof -
  let ?traces = "[([(''[Unknown]'', '''', 0)], 1)] :: (trace, int) dict"
  obtain b where "populate_profile sample_runtime ?traces ''CPU'' ''nanoseconds'' 10000000 10000000000 Builder_init = (Inr (), b)"
    using populate_profile_outcome [OF sample_runtime_ok, of ?traces 10000000 10000000000 "''CPU''" "''nanoseconds''"]
    by (auto simp: frames_total_def data_fits_def item_fits_def frame_fits_def)
  then show ?thesis
    by (simp add: cpu_profile_def cpu_collect_def cpu_build_profile_def CPUProfiler_init_def build_profile_def)
qed

text \<open>The step that collects and uploads.\<close>

lemma sample_collect_step:
  assumes "c_profilers c = [(''CPU'', Cpu (CPUProfiler_init 10))]"
  shows "\<exists>a c1 body. step_answers sample_parse (real_profile sample_runtime) (native_env Py312 sample_lines sample_agent_env)
      (Collecting sample_response, c) = Some a \<and>
    poll_step sample_parse a (Collecting sample_response, c) = (Creating, c1, [Patched (JStr ''profiles/1'') (JObj body)]) \<and>
    dict_get body ''profileType'' = Some (JStr ''CPU'')"
proof -
  let ?e = "native_env Py312 sample_lines sample_agent_env" and ?cpu = "Cpu (CPUProfiler_init 10)"
  let ?kvs = "[(''name'', JStr ''profiles/1''), (''profileType'', JStr ''CPU''), (''duration'', JStr ''10s'')]"
  obtain bytes where bytes: "cpu_profile sample_runtime (\<lambda>_ _. Inr [([(''[Unknown]'', '''', 0)], 1)]) 10000000000
      (CPUProfiler_init 10) = Inr bytes" using sample_bytes by blast
  have "re_native ?e 10000000000 (cpu_period_ms (CPUProfiler_init 10)) = Some (Inr [([(''[Unknown]'', '''', 0)], 1)])"
    using unknown_collection by (simp add: CPUProfiler_init_def native_env_def sample_agent_env_def)
  then have rp: "real_profile sample_runtime ?e ?cpu 10000000000 = Some (Inr bytes, ?cpu)" using bytes by simp
  let ?a = "sample_answers\<lparr>a_profile := (\<lambda>_ _. (Inr bytes, ?cpu))\<rparr>"
  have "requested_run sample_parse (JObj ?kvs) c = Some (?cpu, 10000000000)"
    by (simp add: requested_run_def lookup_profiler_def assms dict_get_def sample_parse_def NANOS_PER_SEC_def)
  then have "step_answers sample_parse (real_profile sample_runtime) ?e (Collecting sample_response, c) = Some ?a"
    using rp by (simp add: step_answers_def native_env_def sample_agent_env_def sample_response_def del: real_profile.simps)
  moreover
  let ?body = "dict_set ?kvs ''profileBytes'' (JStr (b64encode bytes))"
  have "a_profile ?a ?cpu (10 * 1000000000 + 0) = (Inr bytes, ?cpu)" by simp
  note cs = collect_Some [OF refl _ _ _ _ this]
  have "collect_and_upload_profile sample_parse ?a (JObj ?kvs) c =
      (Inr (), c\<lparr>c_profilers := dict_set (c_profilers c) ''CPU'' ?cpu\<rparr>, [Patched (JStr ''profiles/1'') (JObj ?body)])"
    by (subst cs) (simp_all add: dict_get_def assms sample_parse_def)
  then have "poll_step sample_parse ?a (Collecting sample_response, c) =
      (Creating, c\<lparr>c_profilers := dict_set (c_profilers c) ''CPU'' ?cpu\<rparr>, [Patched (JStr ''profiles/1'') (JObj ?body)])"
    by (simp add: sample_response_def)
  moreover have "dict_get ?kvs ''profileType'' = Some (JStr ''CPU'')" by (simp add: dict_get_def)
  then have "dict_get ?body ''profileType'' = Some (JStr ''CPU'')" by simp
  ultimately show ?thesis by blast
qed

lemma sample_agent_run:
  assumes "g_client g = Some c" "c_profilers c = [(''CPU'', Cpu (CPUProfiler_init 10))]" "\<not> c_service c"
    "c_backoff c = default_backoff" "c_deployment c = JObj ((''projectId'', JStr ''proj'') # rest)"
  shows "\<exists>st c' acts body. agent_run sample_parse sample_runtime Py312 sample_lines (replicate 3 sample_agent_env) g = Some (st, c', acts) \<and>
    Patched (JStr ''profiles/1'') (JObj body) \<in> set acts \<and> dict_get body ''profileType'' = Some (JStr ''CPU'')"
proof -
  let ?e = "native_env Py312 sample_lines sample_agent_env" and ?c1 = "c\<lparr>c_service := True\<rparr>"
  let ?c = "?c1\<lparr>c_backoff := default_backoff\<rparr>"
  have env: "re_answers ?e = sample_answers" by (simp add: native_env_def sample_agent_env_def)
  have step1: "step_answers sample_parse (real_profile sample_runtime) ?e (Building default_backoff, c) = Some sample_answers"
    "poll_step sample_parse sample_answers (Building default_backoff, c) = (Creating, ?c1, [])"
    by (simp_all add: step_answers_def env build_service_def) (simp add: sample_answers_def)
  have step2: "step_answers sample_parse (real_profile sample_runtime) ?e (Creating, ?c1) = Some sample_answers"
    by (simp add: step_answers_def env)
  have create: "poll_create sample_parse sample_answers ?c1 = (Collecting sample_response, ?c,
      [Created ''projects/proj'' (JObj [(''profileType'', JArr [JStr ''CPU'']), (''deployment'', c_deployment c)])])"
    by (simp add: poll_create_def create_request_def assms(2,5) sample_answers_def sample_response_def dict_get_def
        after_create_def)
  have "c_profilers ?c = [(''CPU'', Cpu (CPUProfiler_init 10))]" using assms(2) by simp
  from sample_collect_step [OF this] obtain a c2 body where
    step3: "step_answers sample_parse (real_profile sample_runtime) ?e (Collecting sample_response, ?c) = Some a"
    "poll_step sample_parse a (Collecting sample_response, ?c) = (Creating, c2, [Patched (JStr ''profiles/1'') (JObj body)])"
    and ty: "dict_get body ''profileType'' = Some (JStr ''CPU'')" by blast
  have st: "poll_start c = Building default_backoff" using assms(3) by (simp add: poll_start_def)
  have es: "map (native_env Py312 sample_lines) (replicate 3 sample_agent_env) = [?e, ?e, ?e]" by (simp add: eval_nat_numeral)
  have "\<exists>st c' acts. agent_run sample_parse sample_runtime Py312 sample_lines (replicate 3 sample_agent_env) g =
      Some (st, c', acts) \<and> Patched (JStr ''profiles/1'') (JObj body) \<in> set acts"
    unfolding agent_run_def assms(1) es
    by (simp add: st step1 step2 step3 create del: poll_step.simps(1,3))
  with ty show ?thesis by blast
qed

section \<open>Properties\<close>

text \<open>
  C1: end to end: when the package was started, everything its polling thread ever uploads is a
  response of the server, under its name, with one entry added; and that entry decodes to the
  compressed serialization of a valid profile with the requested type, the period that \<open>start\<close>
  was given and the requested duration. The samples of a CPU profile are what the native
  extension collected in one of the collections; those of a wall profile count the stacks that
  the signals of one of them interrupted, and the unknown trace, and cover every period.
\<close>

theorem agent_uploads_valid:
  assumes "start h args g = (Inr (), g')" "\<not> g_started g"
    and "agent_run parse rt v addr2line es g' = Some (st, c', acts)"
    and "runtime_ok rt" "1 \<le> s_period_ms args" "Patched name body \<in> set acts"
  shows "\<exists>e0 \<in> set es. \<exists>e \<in> set es. \<exists>kvs. a_create (ae_answers e0) = Inr (JObj kvs) \<and>
    valid_upload parse (valid_bytes rt (s_period_ms args)) (native_env v addr2line e) kvs name body"
  by (rule started_run [OF assms]) blast

theorem agent_uploads_valid_witness:
  "\<exists>g st c' acts name kvs body. start sample_host cpu_args Agent_init = (Inr (), g) \<and>
    agent_run sample_parse sample_runtime Py312 sample_lines (replicate 3 sample_agent_env) g = Some (st, c', acts) \<and>
    Patched name body \<in> set acts \<and>
    valid_upload sample_parse (valid_bytes sample_runtime 10) (native_env Py312 sample_lines sample_agent_env) kvs name body"
proof -
  obtain g c rest where g: "start sample_host cpu_args Agent_init = (Inr (), g)" "g_client g = Some c"
    "c_profilers c = [(''CPU'', Cpu (CPUProfiler_init 10))]" "\<not> c_service c" "c_backoff c = default_backoff"
    "c_deployment c = JObj ((''projectId'', JStr ''proj'') # rest)" by (rule sample_agent)
  obtain st c' acts body where run: "agent_run sample_parse sample_runtime Py312 sample_lines
      (replicate 3 sample_agent_env) g = Some (st, c', acts)" "Patched (JStr ''profiles/1'') (JObj body) \<in> set acts"
    using sample_agent_run [OF g(2-6)] by blast
  have args: "\<not> g_started Agent_init" "s_period_ms cpu_args = 10"
    by (simp_all add: Agent_init_def cpu_args_def default_args_def)
  from agent_uploads_valid [OF g(1) args(1) run(1) sample_runtime_ok _ run(2)] args(2) g(1) run show ?thesis
    by fastforce
qed


text \<open>
  C2: when the package was started with a period that the timer can hold, its polling thread goes
  on for ever: every step returns and the thread is not ended, whatever the profiles, the uploads
  and the service do, as long as responses carry a type, the delays asked for can be slept, and
  each collection can end where it runs: a CPU profile that the server asked for in one step with
  a duration finds in the next step valid wake-up times for that duration, a clock that passes
  its end, and frame walks that come back; a wall profile finds a clock that passes its end.
  (A longer period can make the timer fail, whose report is undefined behaviour.)
\<close>

theorem agent_polls_for_ever:
  assumes "start h args g = (Inr (), g')" "\<not> g_started g" "runtime_ok rt"
    and "1 \<le> s_period_ms args" "s_period_ms args \<le> 2147483"
    and "\<forall>e \<in> set es. fair parse (ae_answers e)"
    and "successively (collection_possible parse v) es"
  shows "\<exists>st c' acts. agent_run parse rt v addr2line es g' = Some (st, c', acts) \<and> (\<nexists>e. st = Dead e)"
proof -
  obtain pid c0 c1 c where cl: "config h pid (s_service args) (s_service_version args) (s_disable_cpu_profiling args)
       (s_disable_wall_profiling args) (s_period_ms args) (s_discovery_service_url args) c0 = (Inr (), c1)"
    "client_start h c1 = (Inr (), c)" "g_client g' = Some c" "c_backoff c = default_backoff"
    by (rule start_client [OF assms(1,2)])
  have b: "standard_backoff (c_backoff c)" by (simp add: cl(4))
  have fair: "\<forall>e \<in> set (map (native_env v addr2line) es). fair parse (re_answers e)"
    using assms(6) by (simp add: native_env_def)
  have "successively (collects parse (env_returns (s_period_ms args))) (map (native_env v addr2line) es)"
    using possible_collects [of "s_period_ms args" parse v _ _ addr2line] assms(4,5)
    by (simp add: successively_map successively_mono [OF assms(7)])
  from real_polling_goes_on [OF assms(3,4) cl(1,2) b fair this] show ?thesis
    by (simp add: agent_run_def cl(3))
qed

text \<open>The JSON form of a duration: digits, at most nine more after a point, and an \<open>s\<close>.\<close>

definition decimal :: "string \<Rightarrow> int option" where
  "decimal ds = (if ds \<noteq> [] \<and> list_all (\<lambda>c. 48 \<le> (of_char c :: nat) \<and> (of_char c :: nat) \<le> 57) ds
     then Some (foldl (\<lambda>n c. 10 * n + (of_char c - 48)) 0 ds) else None)"

definition json_duration :: parser where
  "json_duration j = (case j of
       JStr s \<Rightarrow>
         (if s = [] \<or> last s \<noteq> CHR ''s'' then Inl ValueError
          else (let whole = takeWhile (\<lambda>c. c \<noteq> CHR ''.'') (butlast s);
                    fraction = drop (Suc (length whole)) (butlast s)
                in case (decimal whole, decimal (take 9 (fraction @ replicate 9 CHR ''0''))) of
                     (Some secs, Some nanos) \<Rightarrow> Inr (secs, nanos)
                   | _ \<Rightarrow> Inl ValueError))
     | _ \<Rightarrow> Inl ValueError)"

lemma json_duration_examples:
  "json_duration (JStr ''10s'') = Inr (10, 0)" "json_duration (JStr ''2.5s'') = Inr (2, 500000000)"
  "json_duration (JStr ''2.5'') = Inl ValueError"
  by code_simp+

definition asking :: "string \<Rightarrow> agent_env" where
  "asking duration = sample_agent_env\<lparr>ae_answers := sample_answers\<lparr>a_create := Inr (JObj
     [(''name'', JStr ''profiles/1''), (''profileType'', JStr ''CPU''), (''duration'', JStr duration)])\<rparr>\<rparr>"

lemma asking_possible:
  assumes "json_duration (JStr duration) = Inr (secs, nanos)"
    and "(secs, nanos) \<in> {(10, 0), (2, 500000000)}"
  shows "fair parse (ae_answers (asking duration))" "collection_possible json_duration Py312 (asking duration) (asking other)"
proof -
  show "fair parse (ae_answers (asking duration))"
    by (simp add: asking_def fair_def sample_answers_def dict_get_def)
  have "collection_ends Py312 unknown_script 10000000000" "collection_ends Py312 unknown_script 2500000000"
    by (simp_all add: collection_ends_def Let_def unknown_script_def sample_script_def script_times script_times_half
        walk_returns_def no_python_state)
  then show "collection_possible json_duration Py312 (asking duration) (asking other)"
    using assms by (auto simp: collection_possible_def asked_def asking_def sample_agent_env_def sample_answers_def dict_get_def
        NANOS_PER_SEC_def)
qed

theorem agent_polls_for_ever_witness:
  "\<exists>g st c' acts. start sample_host cpu_args Agent_init = (Inr (), g) \<and>
    agent_run json_duration sample_runtime Py312 sample_lines
      [asking ''10s'', asking ''10s'', asking ''2.5s'', asking ''2.5s'', asking ''10s''] g = Some (st, c', acts) \<and>
    (\<nexists>e. st = Dead e)"
proof -
  obtain g where g: "start sample_host cpu_args Agent_init = (Inr (), g)" by (rule sample_agent)
  have args: "\<not> g_started Agent_init" "1 \<le> s_period_ms cpu_args" "s_period_ms cpu_args \<le> 2147483"
    by (simp_all add: Agent_init_def cpu_args_def default_args_def)
  let ?es = "[asking ''10s'', asking ''10s'', asking ''2.5s'', asking ''2.5s'', asking ''10s'']"
  note possible = asking_possible [OF json_duration_examples(1), simplified] asking_possible [OF json_duration_examples(2), simplified]
  have "\<forall>e \<in> set ?es. fair json_duration (ae_answers e)" "successively (collection_possible json_duration Py312) ?es"
    by (simp_all add: possible)
  from agent_polls_for_ever [OF g args(1) sample_runtime_ok args(2,3) this, of sample_lines] g show ?thesis
    by auto
qed


text \<open>
  C3: the CPU profiler end to end: when the package was started, an uploaded CPU profile counts
  the profiling signals delivered during one of the native collections. Each second sample
  value is the first times the period in nanoseconds, no stack occurs twice, and the first
  values add up to the number of signals, or to less when some signals found no frame to
  record: no sample is lost or made up on the way from the signal handler to the server.
\<close>

theorem uploaded_cpu_profile_counts_signals:
  assumes "start h args g = (Inr (), g')" "\<not> g_started g"
    and "agent_run parse rt v addr2line es g' = Some (st, c', acts)"
    and "runtime_ok rt" "1 \<le> s_period_ms args"
    and "Patched name (JObj body) \<in> set acts" "dict_get body ''profileType'' = Some (JStr ''CPU'')"
  shows "\<exists>e \<in> set es. \<exists>enc j secs nanos d p counts.
    dict_get body ''profileBytes'' = Some (JStr enc) \<and> dict_get body ''duration'' = Some j \<and>
    parse j = Inr (secs, nanos) \<and> d = secs * 1000000000 + nanos \<and>
    b64decode enc = pb_gzip rt (pb_serialize rt p) \<and>
    header_read p ''CPU'' ''nanoseconds'' (s_period_ms args * 1000000) d \<and>
    map sm_value (pf_sample p) = map (\<lambda>n. [n, s_period_ms args * 1000000 * n]) counts \<and>
    distinct (map (fst \<circ> read_sample p) (pf_sample p)) \<and>
    sum_list counts \<le> int (signal_count (script_events d (ae_collect e))) \<and>
    ((\<forall>x \<in> set (script_events d (ae_collect e)). walked v x) \<longrightarrow>
      sum_list counts = int (signal_count (script_events d (ae_collect e))))"
proof -
  obtain e0 e kvs where e: "e \<in> set es"
    "valid_upload parse (valid_bytes rt (s_period_ms args)) (native_env v addr2line e) kvs name (JObj body)"
    by (rule started_run [OF assms(1-6)])
  obtain enc j secs nanos where b: "dict_get body ''profileBytes'' = Some (JStr enc)"
    "dict_get body ''duration'' = Some j" "parse j = Inr (secs, nanos)"
    "valid_bytes rt (s_period_ms args) (native_env v addr2line e) ''CPU'' (secs * 1000000000 + nanos) (b64decode enc)"
    by (rule valid_upload_body [OF e(2) assms(7)])
  from valid_cpu_bytes [OF b(4)] e(1) b(1-3) show ?thesis by blast
qed

theorem uploaded_cpu_profile_counts_signals_witness:
  "\<exists>g st c' acts body enc p. start sample_host cpu_args Agent_init = (Inr (), g) \<and>
    agent_run sample_parse sample_runtime Py312 sample_lines (replicate 3 sample_agent_env) g = Some (st, c', acts) \<and>
    Patched (JStr ''profiles/1'') (JObj body) \<in> set acts \<and>
    dict_get body ''profileBytes'' = Some (JStr enc) \<and> b64decode enc = pb_gzip sample_runtime (pb_serialize sample_runtime p) \<and>
    sum_list (map (\<lambda>s. sm_value s ! 0) (pf_sample p)) = 1"
proof -
  obtain g c rest where g: "start sample_host cpu_args Agent_init = (Inr (), g)" "g_client g = Some c"
    "c_profilers c = [(''CPU'', Cpu (CPUProfiler_init 10))]" "\<not> c_service c" "c_backoff c = default_backoff"
    "c_deployment c = JObj ((''projectId'', JStr ''proj'') # rest)" by (rule sample_agent)
  obtain st c' acts body where run: "agent_run sample_parse sample_runtime Py312 sample_lines
      (replicate 3 sample_agent_env) g = Some (st, c', acts)" "Patched (JStr ''profiles/1'') (JObj body) \<in> set acts"
    "dict_get body ''profileType'' = Some (JStr ''CPU'')"
    using sample_agent_run [OF g(2-6)] by blast
  have args: "\<not> g_started Agent_init" "1 \<le> s_period_ms cpu_args"
    by (simp_all add: Agent_init_def cpu_args_def default_args_def)
  have w: "\<forall>x \<in> set (script_events 10000000000 unknown_script). walked Py312 x"
    by (simp add: unknown_events walked_def no_python_state)
  obtain enc p counts where r: "dict_get body ''profileBytes'' = Some (JStr enc)"
    "b64decode enc = pb_gzip sample_runtime (pb_serialize sample_runtime p)"
    "map sm_value (pf_sample p) = map (\<lambda>n. [n, s_period_ms cpu_args * 1000000 * n]) counts" "sum_list counts = 1"
    using uploaded_cpu_profile_counts_signals [OF g(1) args(1) run(1) sample_runtime_ok args(2) run(2,3)] w
    by (auto simp: sample_parse_def sample_agent_env_def unknown_events)
  have "map (\<lambda>s. sm_value s ! 0) (pf_sample p) = map (\<lambda>v. v ! 0) (map sm_value (pf_sample p))" by simp
  also have "\<dots> = counts" unfolding r(3) by (simp add: comp_def)
  finally show ?thesis using g(1) run(1,2) r(1,2,4) by metis
qed

end
