(* ===== verification/AgentRace.thy ===== *)
theory AgentRace
  imports Agent Steps
begin

text \<open>
  Calls of the package's entry point that overlap: \<open>start\<close> tests the module's flag at its
  beginning and sets it at its end, with nothing that keeps another thread's call out between.
  A call is split into the test with the argument checks, the calls on the client, and the setting of the flag.
\<close>

section \<open>A call in steps\<close>

datatype call = CCheck host start_args | CRun host start_args | CSet | CIgnored | CDone "unit res"

record calls =
  k_agent :: agent
  k_calls :: "call list"

definition check_args :: "host \<Rightarrow> start_args \<Rightarrow> (agent, unit) py" where
  "check_args h args =
     (if \<not> (starts_with (h_platform h) ''linux'' \<or> starts_with (h_platform h) ''darwin'')
      then py_raise NotImplementedError else
      py_bind (py_lift (logging_level (s_verbose args))) (\<lambda>level.
      py_set (\<lambda>g. g\<lparr>g_log_level := Some level\<rparr>)))"

fun call_step :: "call \<Rightarrow> agent \<Rightarrow> (call \<times> agent) option" where
  "call_step (CCheck h args) g =
     (if g_started g then Some (CIgnored, g) else
      case check_args h args g of
        (Inl e, g1) \<Rightarrow> Some (CDone (Inl e), g1)
      | (Inr _, g1) \<Rightarrow> Some (CRun h args, g1))"
| "call_step (CRun h args) g =
     (case run_client h args Client_init of (r, c) \<Rightarrow>
      let g1 = g\<lparr>g_client := Some c, g_threads := g_threads g + c_threads c\<rparr> in
      case r of Inl e \<Rightarrow> Some (CDone (Inl e), g1) | Inr _ \<Rightarrow> Some (CSet, g1))"
| "call_step CSet g = Some (CDone (Inr ()), g\<lparr>g_started := True\<rparr>)"
| "call_step CIgnored g = None"
| "call_step (CDone r) g = None"

definition step_call :: "nat \<Rightarrow> calls \<Rightarrow> calls option" where
  "step_call i k = (if i < length (k_calls k)
     then map_option (\<lambda>(c, g). \<lparr>k_agent = g, k_calls = (k_calls k)[i := c]\<rparr>) (call_step (k_calls k ! i) (k_agent k))
     else None)"


inductive calls_step :: "calls \<Rightarrow> calls \<Rightarrow> bool" where
  Call: "step_call i k = Some k' \<Longrightarrow> calls_step k k'"

section \<open>A call alone\<close>

text \<open>The steps of a call that nothing interrupts have the effect of \<open>start\<close>.\<close>

definition outcome_call :: "bool \<Rightarrow> unit res \<Rightarrow> call" where
  "outcome_call ignored r = (if ignored then CIgnored else CDone r)"

inductive call_run :: "call \<Rightarrow> agent \<Rightarrow> call \<Rightarrow> agent \<Rightarrow> bool" where
  Stop: "call_step c g = None \<Longrightarrow> call_run c g c g"
| More: "call_step c g = Some (c1, g1) \<Longrightarrow> call_run c1 g1 c2 g2 \<Longrightarrow> call_run c g c2 g2"

lemma run_from_set: "call_run CSet g (CDone (Inr ())) (g\<lparr>g_started := True\<rparr>)"
  by (rule call_run.More [OF _ call_run.Stop]) simp_all

lemma run_done: "call_run (CDone r) g (CDone r) g"
  by (rule call_run.Stop) simp

theorem undisturbed_call_is_start:
  assumes "start h args g = (r, g')"
  shows "call_run (CCheck h args) g (outcome_call (g_started g) r) g'"
proof (cases "g_started g")
  case True
  then have "r = Inr ()" "g' = g" using assms by (simp_all add: start_started)
  then show ?thesis using True by (auto simp: outcome_call_def intro!: call_run.More [OF _ call_run.Stop])
next
  case False
  obtain r1 g1 where chk: "check_args h args g = (r1, g1)" by (cases "check_args h args g")
  obtain r2 c where rc: "run_client h args Client_init = (r2, c)" by (cases "run_client h args Client_init")
  let ?g2 = "g1\<lparr>g_client := Some c, g_threads := g_threads g1 + c_threads c\<rparr>"
  show ?thesis
  proof (cases r1)
    case (Inl e)
    then have "r = Inl e" "g' = g1" using assms False chk
      by (auto simp: start_def check_args_def py_monad split: if_splits sum.splits)
    then show ?thesis using False chk Inl
      by (auto simp: outcome_call_def intro!: call_run.More [OF _ run_done])
  next
    case (Inr u)
    then have st: "start h args g = (case r2 of Inl e \<Rightarrow> (Inl e, ?g2) | Inr _ \<Rightarrow> (Inr (), ?g2\<lparr>g_started := True\<rparr>))"
      using False chk rc by (auto simp: start_def check_args_def py_monad split: if_splits sum.splits)
    have first: "call_step (CCheck h args) g = Some (CRun h args, g1)" using False chk Inr by simp
    have "call_run (CRun h args) g1 (CDone r) g'"
    proof (cases r2)
      case (Inl e)
      then show ?thesis using st assms rc by (intro call_run.More [OF _ run_done]) simp
    next
      case r2: (Inr v)
      then have "call_step (CRun h args) g1 = Some (CSet, ?g2)" using rc by simp
      from call_run.More [OF this run_from_set] show ?thesis using st assms r2 by simp
    qed
    from call_run.More [OF first this] show ?thesis using False by (simp add: outcome_call_def)
  qed
qed

section \<open>Overlapping calls\<close>

text \<open>The polling threads are those of the calls that got past the client's start.\<close>

definition begun_call :: "call \<Rightarrow> bool" where
  "begun_call c \<longleftrightarrow> c = CSet \<or> c = CDone (Inr ())"

definition threads_counted :: "calls \<Rightarrow> bool" where
  "threads_counted k \<longleftrightarrow> g_threads (k_agent k) = length (filter begun_call (k_calls k)) \<and>
     (g_started (k_agent k) \<longleftrightarrow> CDone (Inr ()) \<in> set (k_calls k))"

lemma check_args_keeps: "check_args h args g = (r, g') \<Longrightarrow> g_threads g' = g_threads g \<and> g_started g' = g_started g"
  by (auto simp: check_args_def py_monad split: if_splits sum.splits)

lemma length_filter_update:
  assumes "i < length xs"
  shows "length (filter P (xs[i := x])) + (if P (xs ! i) then 1 else 0) = length (filter P xs) + (if P x then 1 else 0)"
proof -
  have "xs = take i xs @ xs ! i # drop (Suc i) xs" using assms by (rule id_take_nth_drop)
  then have "length (filter P xs) = length (filter P (take i xs @ xs ! i # drop (Suc i) xs))" by simp
  then show ?thesis using assms by (simp add: upd_conv_take_nth_drop)
qed

text \<open>How a step changes the call, the count and the flag.\<close>

lemma call_step_counts:
  assumes "call_step c g = Some (c', g')"
  shows "c \<noteq> CDone (Inr ())"
    "g_threads g' + (if begun_call c then 1 else 0) = g_threads g + (if begun_call c' then 1 else 0)"
    "g_started g' \<longleftrightarrow> g_started g \<or> c' = CDone (Inr ())"
proof -
  show "c \<noteq> CDone (Inr ())" using assms by auto
  have "g_threads g' + (if begun_call c then 1 else 0) = g_threads g + (if begun_call c' then 1 else 0) \<and>
    (g_started g' \<longleftrightarrow> g_started g \<or> c' = CDone (Inr ()))"
  proof (cases c)
    case (CCheck h args)
    then show ?thesis using assms check_args_keeps [of h args g]
      by (auto simp: begun_call_def split: if_splits prod.splits sum.splits)
  next
    case (CRun h args)
    obtain r cl where rc: "run_client h args Client_init = (r, cl)" by (cases "run_client h args Client_init")
    have "c_threads cl = (case r of Inr _ \<Rightarrow> 1 | Inl _ \<Rightarrow> 0)" using run_client_outcome [of h args] by (simp add: rc)
    then show ?thesis using assms CRun by (cases r) (auto simp: rc begun_call_def)
  qed (use assms in \<open>auto simp: begun_call_def\<close>)
  then show "g_threads g' + (if begun_call c then 1 else 0) = g_threads g + (if begun_call c' then 1 else 0)"
    "g_started g' \<longleftrightarrow> g_started g \<or> c' = CDone (Inr ())" by blast+
qed

lemma threads_counted_step:
  assumes "calls_step k k'" "threads_counted k"
  shows "threads_counted k'"
proof -
  obtain i c g where i: "i < length (k_calls k)" and s: "call_step (k_calls k ! i) (k_agent k) = Some (c, g)"
    and k': "k' = \<lparr>k_agent = g, k_calls = (k_calls k)[i := c]\<rparr>"
    using assms(1) by (auto simp: calls_step.simps step_call_def split: if_splits)
  note cs = call_step_counts [OF s]
  have "CDone (Inr ()) \<in> set ((k_calls k)[i := c]) \<longleftrightarrow> CDone (Inr ()) \<in> set (k_calls k) \<or> c = CDone (Inr ())"
    using cs(1) i by (metis in_set_conv_nth length_list_update nth_list_update_eq nth_list_update_neq)
  then show ?thesis
    using assms(2) cs(2,3) length_filter_update [OF i, of begun_call c] by (auto simp: threads_counted_def k')
qed

interpretation counted: step_invariant calls_step threads_counted
  by unfold_locales (rule threads_counted_step)

text \<open>
  However the calls overlap, a polling thread runs for every call that has started its client,
  and the flag is set exactly when one of them has returned.
\<close>

theorem overlapping_threads:
  assumes "reachable calls_step \<lparr>k_agent = Agent_init, k_calls = map (\<lambda>(h, args). CCheck h args) requests\<rparr> k"
  shows "g_threads (k_agent k) = length (filter begun_call (k_calls k)) \<and>
    (g_started (k_agent k) \<longleftrightarrow> CDone (Inr ()) \<in> set (k_calls k))"
proof -
  have "threads_counted k"
    by (rule counted.inv_reachable [OF assms])
      (auto simp: threads_counted_def Agent_init_def begun_call_def filter_empty_conv)
  then show ?thesis by (simp add: threads_counted_def)
qed



end
