(* ===== verification/ClientHttp.thy ===== *)
theory ClientHttp
  imports Prelude
begin

text \<open>
  The two helper classes of \<open>client.py\<close>: the request class that adds the agent's headers, and
  the log filter that silences the discovery library when it is called from the agent.
\<close>

section \<open>Request headers\<close>

definition agent_version :: string where
  "agent_version = ''4.2.1''"

definition add_product :: "string \<Rightarrow> string \<Rightarrow> (string, string) dict \<Rightarrow> (string, string) dict" where
  "add_product h val headers =
     (let headers1 = (case dict_get headers h of
          Some v \<Rightarrow> dict_set headers h (v @ '' '') | None \<Rightarrow> dict_set headers h '''')
      in dict_set headers1 h (the (dict_get headers1 h) @ val))"

text \<open>\<open>None\<close> is a call without a \<open>headers\<close> argument.\<close>

definition request_headers :: "(string, string) dict option \<Rightarrow> (string, string) dict" where
  "request_headers headers =
     (let headers1 = dict_set (case headers of None \<Rightarrow> [] | Some hs \<Rightarrow> hs) ''x-goog-api-format-version'' ''2''
      in fold (\<lambda>(h, val). add_product h val)
           [(''user-agent'', ''gcloud-python-profiler/'' @ agent_version),
            (''x-goog-api-client'', ''gccl/'' @ agent_version)] headers1)"

section \<open>The log filter\<close>

text \<open>\<open>os.path.splitext(p)[0]\<close> on a POSIX path: leading dots of the file name start no extension.\<close>

definition upto_last :: "char \<Rightarrow> string \<Rightarrow> string" where
  "upto_last c s = rev (dropWhile (\<lambda>d. d \<noteq> c) (rev s))"

definition after_last :: "char \<Rightarrow> string \<Rightarrow> string" where
  "after_last c s = rev (takeWhile (\<lambda>d. d \<noteq> c) (rev s))"

definition splitext_root :: "string \<Rightarrow> string" where
  "splitext_root p = (let dir = upto_last (CHR ''/'') p; name = after_last (CHR ''/'') p;
       stem = butlast (upto_last (CHR ''.'') name)
     in if \<exists>c \<in> set stem. c \<noteq> CHR ''.'' then dir @ stem else p)"

definition INFO :: int where
  "INFO = 20"

text \<open>
  The filter object. Without levels, or with no level among them, the constructor evaluates
  \<open>set(logging.INFO)\<close>, and an integer cannot be iterated over.
\<close>

record child_log_filter =
  lf_filter_levels :: "int list"
  lf_my_filename :: string

definition ChildLogFilter_init :: "string \<Rightarrow> int list option \<Rightarrow> child_log_filter res" where
  "ChildLogFilter_init module_file filter_levels =
     (case filter_levels of
        Some (l # ls) \<Rightarrow> Inr \<lparr>lf_filter_levels = l # ls, lf_my_filename = splitext_root module_file\<rparr>
      | _ \<Rightarrow> Inl TypeError)"

text \<open>
  \<open>filter\<close> for a record of a level and the files of the calling frames, innermost first:
  \<open>False\<close> drops the record.
\<close>

fun any_frame :: "string \<Rightarrow> string list \<Rightarrow> bool" where
  "any_frame my_filename [] = False"
| "any_frame my_filename (f # callerframes) =
     (if splitext_root f = my_filename then True else any_frame my_filename callerframes)"

definition log_filter :: "child_log_filter \<Rightarrow> int \<Rightarrow> string list \<Rightarrow> bool" where
  "log_filter lf levelno callerframes =
     (if levelno \<notin> set (lf_filter_levels lf) then True
      else \<not> any_frame (lf_my_filename lf) callerframes)"

text \<open>
  \<open>_filter_log\<close> adds one more filter to the logger of the discovery library; a logger keeps a
  record that every one of its filters lets pass.
\<close>

definition add_child_log_filter :: "string \<Rightarrow> child_log_filter list \<Rightarrow> child_log_filter list res" where
  "add_child_log_filter module_file filters =
     res_bind (ChildLogFilter_init module_file (Some [INFO])) (\<lambda>lf. Inr (filters @ [lf]))"

definition logger_keeps :: "child_log_filter list \<Rightarrow> int \<Rightarrow> string list \<Rightarrow> bool" where
  "logger_keeps filters levelno callerframes \<longleftrightarrow> (\<forall>lf \<in> set filters. log_filter lf levelno callerframes)"

section \<open>Lemmas\<close>

lemma dict_get_add_product:
  "dict_get (add_product h val hs) k = (if k = h
     then Some ((case dict_get hs h of Some v \<Rightarrow> v @ '' '' | None \<Rightarrow> '''') @ val) else dict_get hs k)"
  by (simp add: add_product_def Let_def split: option.split)

lemma upto_after_last:
  "c \<notin> set b \<Longrightarrow> upto_last c (a @ c # b) = a @ [c]"
  "c \<notin> set b \<Longrightarrow> after_last c (a @ c # b) = b"
proof -
  assume c: "c \<notin> set b"
  then have n: "\<forall>x \<in> set (rev b). x \<noteq> c" by auto
  show "upto_last c (a @ c # b) = a @ [c]"
    using dropWhile_append2 [of "rev b" "\<lambda>d. d \<noteq> c" "c # rev a"] n by (simp add: upto_last_def)
  show "after_last c (a @ c # b) = b"
    using takeWhile_append2 [of "rev b" "\<lambda>d. d \<noteq> c" "c # rev a"] n by (simp add: after_last_def)
qed

lemma splitext_root_file:
  assumes "CHR ''/'' \<notin> set name" "CHR ''/'' \<notin> set ext" "CHR ''.'' \<notin> set ext"
    and "\<exists>c \<in> set name. c \<noteq> CHR ''.''"
  shows "splitext_root (dir @ CHR ''/'' # name @ CHR ''.'' # ext) = dir @ CHR ''/'' # name"
proof -
  have s: "CHR ''/'' \<notin> set (name @ CHR ''.'' # ext)" using assms by simp
  show ?thesis
    unfolding splitext_root_def upto_after_last [OF s] upto_after_last(1) [OF assms(3)] Let_def
    using assms(4) by simp
qed

section \<open>Properties\<close>

text \<open>
  A request carries the new error format, and its user-agent and API client headers end
  with the agent's product, after whatever the caller put there; every other header is the
  caller's.
\<close>

theorem request_headers_products:
  "dict_get (request_headers headers) ''x-goog-api-format-version'' = Some ''2'' \<and>
   dict_get (request_headers headers) ''user-agent'' =
     Some ((case headers of None \<Rightarrow> '''' | Some hs \<Rightarrow> case dict_get hs ''user-agent'' of None \<Rightarrow> '''' | Some v \<Rightarrow> v @ '' '')
       @ ''gcloud-python-profiler/4.2.1'') \<and>
   dict_get (request_headers headers) ''x-goog-api-client'' =
     Some ((case headers of None \<Rightarrow> '''' | Some hs \<Rightarrow> case dict_get hs ''x-goog-api-client'' of None \<Rightarrow> '''' | Some v \<Rightarrow> v @ '' '')
       @ ''gccl/4.2.1'') \<and>
   (k \<notin> {''x-goog-api-format-version'', ''user-agent'', ''x-goog-api-client''} \<longrightarrow>
     dict_get (request_headers headers) k = (case headers of None \<Rightarrow> None | Some hs \<Rightarrow> dict_get hs k))"
  by (auto simp: request_headers_def Let_def dict_get_add_product agent_version_def split: option.split)

theorem request_headers_products_witness:
  "dict_get (request_headers (Some [(''user-agent'', ''lib/1''), (''accept'', ''json'')])) ''accept'' = Some ''json''"
  using request_headers_products [of "Some [(''user-agent'', ''lib/1''), (''accept'', ''json'')]" "''accept''"]
  by (simp add: dict_get_def)

text \<open>
  A record of the discovery library that its other filters let pass is dropped exactly when it
  is informational and a frame of the agent's module is among the callers, whether the frame
  names the source or the compiled file.
\<close>

lemma any_frame_iff: "any_frame my_filename files \<longleftrightarrow> (\<exists>f \<in> set files. splitext_root f = my_filename)"
  by (induction files) auto

theorem log_filter_drops:
  assumes "CHR ''/'' \<notin> set name" "\<exists>c \<in> set name. c \<noteq> CHR ''.''" "ext \<in> {''py'', ''pyc''}" "ext' \<in> {''py'', ''pyc''}"
    and "add_child_log_filter (dir @ CHR ''/'' # name @ CHR ''.'' # ext) filters = Inr filters'"
  shows "\<not> logger_keeps filters' INFO (pre @ (dir @ CHR ''/'' # name @ CHR ''.'' # ext') # post) \<and>
    (logger_keeps filters' level files \<longleftrightarrow> logger_keeps filters level files \<and>
      (level = INFO \<longrightarrow> (\<forall>f \<in> set files. splitext_root f \<noteq> dir @ CHR ''/'' # name)))"
proof -
  have e: "CHR ''/'' \<notin> set ext" "CHR ''.'' \<notin> set ext" "CHR ''/'' \<notin> set ext'" "CHR ''.'' \<notin> set ext'"
    using assms(3,4) by auto
  note r = splitext_root_file [OF assms(1) e(1,2) assms(2)] splitext_root_file [OF assms(1) e(3,4) assms(2)]
  show ?thesis using assms(5)
    by (auto simp: add_child_log_filter_def ChildLogFilter_init_def logger_keeps_def log_filter_def
        any_frame_iff r)
qed

theorem log_filter_drops_witness:
  "\<exists>filters. add_child_log_filter ''/site/googlecloudprofiler/client.pyc'' [] = Inr filters \<and>
    \<not> logger_keeps filters INFO [''/usr/lib/x.py'', ''/site/googlecloudprofiler/client.py'']"
proof -
  obtain filters where f: "add_child_log_filter ''/site/googlecloudprofiler/client.pyc'' [] = Inr filters"
    by (simp add: add_child_log_filter_def ChildLogFilter_init_def)
  show ?thesis
    using log_filter_drops [of "''client''" "''pyc''" "''py''" "''/site/googlecloudprofiler''" "[]" filters
        "[''/usr/lib/x.py'']" "[]" 0 "[]"] f by simp
qed

end
