(* ===== verification/Setup.thy ===== *)
theory Setup
  imports PyRegex
begin

text \<open>
  \<open>setup.py\<close>: the choice of the extension modules, the reading of the version from
  \<open>__version__.py\<close> by a regular-expression search with a group, and the call of \<open>setup\<close> the
  script ends with. The texts of the files it opens are arguments.
\<close>

section \<open>Search with a group\<close>

text \<open>
  \<open>re.search\<close> of an expression that is a prefix, a group and a suffix: the start and end of the
  group in the first match, start positions tried from the left.
\<close>

definition group_spans :: "re \<Rightarrow> re \<Rightarrow> re \<Rightarrow> string \<Rightarrow> (nat \<times> nat) list" where
  "group_spans pre body post s = concat (map (\<lambda>p. concat (map (\<lambda>i. concat (map (\<lambda>j.
     map (\<lambda>_. (i, j)) (matches post s j)) (matches body s i))) (matches pre s p))) [0..<Suc (length s)])"

definition search_group :: "re \<Rightarrow> re \<Rightarrow> re \<Rightarrow> string \<Rightarrow> string option" where
  "search_group pre body post s = (case group_spans pre body post s of [] \<Rightarrow> None
     | (i, j) # _ \<Rightarrow> Some (take (j - i) (drop i s)))"

section \<open>The version\<close>

definition digit :: "(char \<times> char) list" where
  "digit = [(CHR ''0'', CHR ''9'')]"

definition digits :: re where
  "digits = Cat (Cls digit) (Many (Cls digit))"

definition quote :: char where
  "quote = CHR 0x27"

definition version_pre :: re where
  "version_pre = Cat LineStart (literal (''__version__ = '' @ [quote]))"

definition version_body :: re where
  "version_body = cat [digits, Lit (CHR ''.''), digits, Repeat 0 1 (Cat (Lit (CHR ''.'')) digits),
     Repeat 0 1 (Lit (CHR ''-'')), Many AnyChar]"

definition get_version :: "string \<Rightarrow> string res" where
  "get_version line = (case search_group version_pre version_body (Lit quote) line of
     Some v \<Rightarrow> Inr v | None \<Rightarrow> Inl RuntimeError)"

section \<open>The extension modules\<close>

text \<open>
  The arguments of \<open>Extension\<close>. Which source files there are is the answer of \<open>glob.glob\<close>, an
  argument here.
\<close>

record extension =
  ext_name :: string
  ext_sources :: "string list"
  ext_include_dirs :: "string list"
  ext_language :: string
  ext_compile_args :: "string list"
  ext_link_args :: "string list"

definition native_extension :: "string list \<Rightarrow> extension" where
  "native_extension sources = \<lparr>ext_name = ''googlecloudprofiler._profiler'', ext_sources = sources,
     ext_include_dirs = [''googlecloudprofiler/src''], ext_language = ''c++'',
     ext_compile_args = [''-std=c++11''],
     ext_link_args = [''-std=c++11'', ''-static-libstdc++'', ''-static-libgcc'']\<rparr>"

text \<open>The two tests of the platform, each with what it prints, in the order of the script.\<close>

definition unsupported_message :: "string \<Rightarrow> string" where
  "unsupported_message platform = platform @ '' '' @
     ''is not a supported operating system.'' @ [newline] @
     ''Profiler Python agent modules will be installed but will not '' @
     ''be functional. Refer to the documentation for a list of '' @
     ''supported operating systems.'' @ [newline]"

definition darwin_message :: "string \<Rightarrow> string" where
  "darwin_message platform =
     ''Profiler Python agent has limited support for '' @ '' '' @ platform @ '' '' @ ''. '' @
     ''Wall profiler is available with supported Python versions. '' @
     ''CPU profiler is not available. '' @
     ''Refer to the documentation for a list of supported operating '' @
     ''systems and Python versions.'' @ [newline]"

definition ext_modules :: "string list \<Rightarrow> string \<Rightarrow> extension list \<times> string list" where
  "ext_modules sources platform =
     (let ext0 = [native_extension sources];
          (ext1, out1) =
            (if \<not> (starts_with platform ''linux'' \<or> starts_with platform ''darwin'')
             then ([], [unsupported_message platform]) else (ext0, []))
      in if starts_with platform ''darwin'' then ([], out1 @ [darwin_message platform]) else (ext1, out1))"

section \<open>The call of setup\<close>

definition install_requires :: "string list" where
  "install_requires = [''google-api-python-client!=1.12.0,!=2.0.2'', ''google-auth>=1.0.0'',
     ''google-auth-httplib2'', ''protobuf>=3.20'', ''requests'']"

record setup_call =
  su_name :: string
  su_description :: string
  su_long_description :: string
  su_long_description_content_type :: string
  su_url :: string
  su_author :: string
  su_version :: string
  su_install_requires :: "string list"
  su_setup_requires :: "string list"
  su_packages :: "string list"
  su_ext_modules :: "extension list"
  su_license :: string
  su_keywords :: string
  su_classifiers :: "string list"

text \<open>
  The script itself: \<open>readme\<close> and \<open>version_file\<close> are the texts of the two files it opens (or what
  \<open>open\<close> raises), in the order of the keyword arguments that read them.
\<close>

definition setup_script ::
  "string list \<Rightarrow> string \<Rightarrow> string res \<Rightarrow> string res \<Rightarrow> setup_call res \<times> string list" where
  "setup_script sources platform readme version_file =
     (let (ext, out) = ext_modules sources platform in
      (res_bind readme (\<lambda>text. res_bind (res_bind version_file get_version) (\<lambda>version. Inr
        \<lparr>su_name = ''google-cloud-profiler'',
         su_description = ''Google Cloud Profiler Python Agent'',
         su_long_description = text,
         su_long_description_content_type = ''text/markdown'',
         su_url = ''https://github.com/GoogleCloudPlatform/cloud-profiler-python'',
         su_author = ''Google LLC'',
         su_version = version,
         su_install_requires = install_requires,
         su_setup_requires = [''wheel''],
         su_packages = [''googlecloudprofiler''],
         su_ext_modules = ext,
         su_license = ''Apache License, Version 2.0'',
         su_keywords = ''google cloud profiler'',
         su_classifiers = [''Development Status :: 5 - Production/Stable'',
           ''Intended Audience :: Developers'',
           ''License :: OSI Approved :: Apache Software License'',
           ''Programming Language :: Python :: 3.7'',
           ''Programming Language :: Python :: 3.8'',
           ''Programming Language :: Python :: 3.9'',
           ''Programming Language :: Python :: 3.10'',
           ''Programming Language :: Python :: 3.11'',
           ''Programming Language :: Python :: 3.12'',
           ''Programming Language :: Python :: 3.13'']\<rparr>)), out))"

section \<open>Lemmas\<close>

text \<open>An expression that cannot read a newline.\<close>

primrec one_line :: "re \<Rightarrow> bool" where
  "one_line Start \<longleftrightarrow> True"
| "one_line LineStart \<longleftrightarrow> True"
| "one_line End \<longleftrightarrow> True"
| "one_line (Cls rs) \<longleftrightarrow> \<not> in_class rs newline"
| "one_line AnyChar \<longleftrightarrow> True"
| "one_line (Cat a b) \<longleftrightarrow> one_line a \<and> one_line b"
| "one_line (Repeat lo hi a) \<longleftrightarrow> one_line a"
| "one_line (Many a) \<longleftrightarrow> one_line a"

definition on_line :: "string \<Rightarrow> nat \<Rightarrow> nat \<Rightarrow> bool" where
  "on_line s i j \<longleftrightarrow> i \<le> j \<and> (\<forall>k \<in> {i..<j}. s ! k \<noteq> newline)"

lemma on_line_refl [simp]: "on_line s i i"
  by (simp add: on_line_def)

lemma on_line_trans: "on_line s i j \<Longrightarrow> on_line s j k \<Longrightarrow> on_line s i k"
  by (fastforce simp: on_line_def not_le)

lemma greedy_on_line:
  assumes "\<And>i j. j \<in> set (m i) \<Longrightarrow> on_line s i j"
  shows "j \<in> set (greedy m hi lo i) \<Longrightarrow> on_line s i j"
proof (induction hi arbitrary: lo i)
  case (Suc hi)
  then show ?case using assms by (auto split: if_splits) (meson on_line_trans)+
qed (simp split: if_splits)

lemma matches_on_line: "one_line r \<Longrightarrow> j \<in> set (matches r s i) \<Longrightarrow> on_line s i j"
proof (induction r arbitrary: i j)
  case (Cls rs)
  then show ?case by (auto simp: on_line_def split: if_splits dest: less_antisym)
next
  case AnyChar
  then show ?case by (auto simp: on_line_def split: if_splits dest: less_antisym)
next
  case (Cat a b)
  then show ?case by auto (meson on_line_trans)
next
  case (Repeat lo hi a)
  then show ?case using greedy_on_line [of "matches a s" s j hi lo i] by simp
next
  case (Many a)
  then show ?case using greedy_on_line [of "matches a s" s j "length s - i" 0 i] by simp
qed (auto split: if_splits)

lemma version_body_one_line: "one_line version_body"
  by code_simp

text \<open>Reaching an end through the parts of an expression.\<close>

lemma matches_CatI: "j \<in> set (matches a s i) \<Longrightarrow> k \<in> set (matches b s j) \<Longrightarrow> k \<in> set (matches (Cat a b) s i)"
  by auto

lemma matches_ManyI:
  assumes "reads r s P" "i \<le> j" "j \<le> length s" "\<forall>k \<in> {i..<j}. P (s ! k)"
  shows "j \<in> set (matches (Many r) s i)"
  using set_greedy [OF assms(1), of 0 "length s - i" j i] assms by auto

lemma matches_opt_skip: "i \<in> set (matches (Repeat 0 1 r) s i)"
  by simp

lemma matches_digits:
  assumes "i < j" "j \<le> length s" "\<forall>k \<in> {i..<j}. in_class digit (s ! k)"
  shows "j \<in> set (matches digits s i)"
  unfolding digits_def
proof (rule matches_CatI)
  show "Suc i \<in> set (matches (Cls digit) s i)" using assms by simp
  show "j \<in> set (matches (Many (Cls digit)) s (Suc i))"
    by (rule matches_ManyI [OF reads_Cls]) (use assms in auto)
qed

lemma nth_middle:
  "s = a @ b @ c \<Longrightarrow> k \<in> {length a..<length a + length b} \<Longrightarrow> s ! k \<in> set b"
  by (auto simp: nth_append)

lemma version_body_reaches:
  assumes s: "s = pre @ (d1 @ CHR ''.'' # d2 @ rest) @ post"
    and "d1 \<noteq> []" "d2 \<noteq> []" "\<forall>c \<in> set (d1 @ d2). in_class digit c" "newline \<notin> set rest"
  shows "length pre + length (d1 @ CHR ''.'' # d2 @ rest) \<in> set (matches version_body s (length pre))"
proof -
  let ?i1 = "length pre + length d1" and ?i3 = "length pre + length d1 + 1 + length d2"
  have 1: "?i1 \<in> set (matches digits s (length pre))"
    using nth_middle [of s pre d1 "CHR ''.'' # d2 @ rest @ post"] assms
    by (intro matches_digits) auto
  have 2: "Suc ?i1 \<in> set (matches (Lit (CHR ''.'')) s ?i1)"
    by (simp add: matches_Lit s nth_append)
  have 3: "?i3 \<in> set (matches digits s (Suc ?i1))"
    using nth_middle [of s "pre @ d1 @ [CHR ''.'']" d2 "rest @ post"] assms
    by (intro matches_digits) auto
  have r: "s ! k \<in> set rest" if "k \<in> {?i3..<?i3 + length rest}" for k
    using nth_middle [of s "pre @ d1 @ CHR ''.'' # d2" rest post k] that by (simp add: s)
  have 4: "?i3 + length rest \<in> set (matches (Many AnyChar) s ?i3)"
  proof (intro matches_ManyI [OF reads_AnyChar] ballI)
    show "s ! k \<noteq> newline" if "k \<in> {?i3..<?i3 + length rest}" for k
      using r [OF that] assms(5) by metis
  qed (simp_all add: s)
  have "?i3 + length rest \<in> set (matches version_body s (length pre))"
    unfolding version_body_def cat.simps
    by (rule matches_CatI [OF 1 matches_CatI [OF 2 matches_CatI [OF 3
        matches_CatI [OF matches_opt_skip matches_CatI [OF matches_opt_skip 4]]]]])
  then show ?thesis by (simp add: add.assoc)
qed

text \<open>On a line that ends with its only quote, every end before a quote is that quote.\<close>

lemma only_quote:
  assumes s: "s = pre @ v @ quote # newline # post" and "quote \<notin> set v"
    and "on_line s (length pre) j" "j < length s" "s ! j = quote"
  shows "j = length pre + length v"
proof (rule linorder_cases [of j "length pre + length v"])
  assume "j < length pre + length v"
  then show ?thesis using nth_middle [of s pre v "quote # newline # post" j] assms
    by (auto simp: on_line_def)
next
  assume l: "length pre + length v < j"
  have nl: "s ! (length pre + length v + 1) = newline" by (simp add: s nth_append)
  show ?thesis
  proof (cases "j = length pre + length v + 1")
    case True
    then show ?thesis using nl assms(5) by (simp add: quote_def newline_def)
  next
    case False
    then show ?thesis using nl l assms(3) by (auto simp: on_line_def)
  qed
qed

lemma concat_map_first:
  assumes "\<forall>p < n. f p = []" "n < m"
  shows "concat (map f [0..<m]) = f n @ concat (map f [Suc n..<m])"
proof -
  have "[0..<m] = [0..<n] @ n # [Suc n..<m]"
    using assms(2) by (metis le0 less_imp_le_nat upt_add_eq_append le_add_diff_inverse upt_conv_Cons)
  moreover have "concat (map f [0..<n]) = []" using assms(1) by simp
  ultimately show ?thesis by simp
qed

section \<open>Properties\<close>

text \<open>The expression starts a match at the assignment, and every match reads up to the last quote.\<close>

lemma version_start:
  assumes s: "s = pre @ ''__version__ = '' @ [quote] @ tail" and pre: "pre = [] \<or> last pre = newline"
  shows "matches version_pre s (length pre) = [length pre + length (''__version__ = '' @ [quote])]"
proof -
  let ?w = "''__version__ = '' @ [quote]" and ?p = "length pre"
  have w: "take (length ?w) (drop ?p s) = ?w" unfolding s by simp
  have len: "?p + length ?w \<le> length s" unfolding s by simp
  have "matches LineStart s ?p = [?p]" using pre
    by (cases "pre = []") (auto simp: s nth_append last_conv_nth)
  then have "matches version_pre s ?p = matches (literal ?w) s ?p" by (simp add: version_pre_def)
  also have "\<dots> = [?p + length ?w]" using matches_literal [of ?w s ?p] w len by simp
  finally show ?thesis .
qed

lemma version_end:
  assumes "s = before @ v @ quote # newline # post" "quote \<notin> set v"
    and "j \<in> set (matches version_body s (length before))" "matches (Lit quote) s j \<noteq> []"
  shows "j = length before + length v"
proof -
  have "on_line s (length before) j" by (rule matches_on_line [OF version_body_one_line assms(3)])
  moreover have "j < length s" "s ! j = quote" using assms(4) by (auto simp: matches_Lit split: if_splits)
  ultimately show ?thesis using only_quote [OF assms(1,2), of j] by blast
qed

lemma version_group:
  assumes s: "s = pre @ ''__version__ = '' @ [quote] @ v @ quote # newline # post"
    and v: "v = d1 @ CHR ''.'' # d2 @ rest" "d1 \<noteq> []" "d2 \<noteq> []" "\<forall>c \<in> set (d1 @ d2). in_class digit c"
      "newline \<notin> set rest" "quote \<notin> set v"
    and pre: "pre = [] \<or> last pre = newline" "\<forall>p < length pre. matches version_pre s p = []"
  shows "search_group version_pre version_body (Lit quote) s = Some v"
proof -
  let ?w = "''__version__ = '' @ [quote]" and ?p = "length pre"
  let ?i = "?p + length ?w"
  let ?f = "\<lambda>p. concat (map (\<lambda>i. concat (map (\<lambda>j. map (\<lambda>_. (i, j)) (matches (Lit quote) s j))
      (matches version_body s i))) (matches version_pre s p))"
  have len: "?i \<le> length s" unfolding s by simp
  have "s = pre @ ''__version__ = '' @ [quote] @ (v @ quote # newline # post)" unfolding s by simp
  note start = version_start [OF this pre(1)]
  have s2: "s = (pre @ ?w) @ v @ quote # newline # post" unfolding s by simp
  have s3: "s = (pre @ ?w) @ (d1 @ CHR ''.'' # d2 @ rest) @ quote # newline # post" unfolding s2 v(1) by simp
  have lw: "length (pre @ ?w) = ?i" by simp
  let ?e = "?i + length v"
  have e: "?e \<in> set (matches version_body s ?i)"
    using version_body_reaches [OF s3 v(2-5)] unfolding lw v(1) [symmetric] .
  have q: "matches (Lit quote) s ?e = [Suc ?e]"
    using s2 by (simp add: matches_Lit nth_append)
  have only: "j = ?e" if "j \<in> set (matches version_body s ?i)" "matches (Lit quote) s j \<noteq> []" for j
    using version_end [OF s2 v(6)] that unfolding lw by blast
  let ?h = "concat (map (\<lambda>j. map (\<lambda>_. (?i, j)) (matches (Lit quote) s j)) (matches version_body s ?i))"
  have f: "?f ?p = ?h" unfolding start by simp
  have sub: "set ?h \<subseteq> {(?i, ?e)}" using only by force
  have "(?i, ?e) \<in> set ?h" using e q by force
  then obtain h t where ht: "?h = h # t" by (cases ?h) auto
  have "h \<in> set ?h" unfolding ht by (rule list.set_intros)
  from subsetD [OF sub this] have h: "h = (?i, ?e)" by (rule singletonD)
  have none: "\<forall>p < ?p. ?f p = []" using pre(2) by simp
  have "?p < Suc (length s)" using len by simp
  from concat_map_first [of ?p ?f, OF none this]
  have "group_spans version_pre version_body (Lit quote) s =
      ((?i, ?e) # t) @ concat (map ?f [Suc ?p..<Suc (length s)])"
    unfolding group_spans_def f ht h .
  moreover have "take (?e - ?i) (drop ?i s) = v"
  proof -
    have "drop ?i s = v @ quote # newline # post" unfolding s2 using lw by (metis append_eq_conv_conj)
    then show ?thesis by simp
  qed
  ultimately show ?thesis by (simp add: search_group_def)
qed

text \<open>
  C30: the version is what stands between the quotes of the first line of the file that
  assigns \<open>__version__\<close>, when it starts with two numbers and a dot between them.
\<close>

theorem get_version_reads:
  assumes "line = pre @ ''__version__ = '' @ [quote] @ v @ quote # newline # post"
    and "v = d1 @ CHR ''.'' # d2 @ rest" "d1 \<noteq> []" "d2 \<noteq> []" "\<forall>c \<in> set (d1 @ d2). in_class digit c"
    and "newline \<notin> set rest" "quote \<notin> set v"
    and "pre = [] \<or> last pre = newline" "\<forall>p < length pre. matches version_pre line p = []"
  shows "get_version line = Inr v"
  using version_group [OF assms] by (simp add: get_version_def)

theorem get_version_reads_witness:
  "get_version ([newline] @ ''__version__ = '' @ [quote] @ ''4.2.1'' @ quote # newline # []) = Inr ''4.2.1''"
proof -
  have d: "\<forall>c \<in> set (''4'' @ ''2''). in_class digit c" by code_simp
  have p: "\<forall>p < length [newline]. matches version_pre ([newline] @ ''__version__ = '' @ [quote] @ ''4.2.1'' @ quote # newline # []) p = []"
    by code_simp
  have n: "newline \<notin> set ''.1''" "quote \<notin> set ''4.2.1''" by code_simp+
  show ?thesis by (rule get_version_reads [OF refl _ _ _ d n(1) n(2) _ p]) simp_all
qed

section \<open>The script\<close>

lemma linux_not_darwin: "starts_with s ''linux'' \<Longrightarrow> \<not> starts_with s ''darwin''"
  by (auto simp: starts_with_prefix)

text \<open>
  The script ends in a call of \<open>setup\<close> whenever both files could be read and the version was
  found; the native extension is then built on Linux only, and anything printed is about a
  platform where it is not.
\<close>

lemma setup_script_outcome:
  assumes "get_version text = Inr v"
  shows "\<exists>call out. setup_script sources platform (Inr readme) (Inr text) = (Inr call, out) \<and>
    su_version call = v \<and> su_long_description call = readme \<and>
    (if starts_with platform ''linux'' then su_ext_modules call = [native_extension sources] \<and> out = []
     else su_ext_modules call = [] \<and> length out = 1)"
  using assms linux_not_darwin [of platform] by (auto simp: setup_script_def ext_modules_def)

lemma setup_script_error:
  "fst (setup_script sources platform readme version_file) = Inl e \<longleftrightarrow>
     readme = Inl e \<or> (\<exists>text. readme = Inr text) \<and>
       (version_file = Inl e \<or> (\<exists>line. version_file = Inr line \<and> get_version line = Inl e))"
  by (cases readme; cases version_file; cases "get_version (projr version_file)")
    (simp_all add: setup_script_def split: prod.splits)

end
