(* ===== verification/NativeRace.thy ===== *)
theory NativeRace
  imports NativeTraces Steps
begin

text \<open>
  The fixed table of \<open>stacktraces.cc\<close> under concurrency: any number of \<open>Add\<close> calls in signal
  handlers on their threads, interleaved with one thread that extracts the slots. Each access to
  shared memory is a step: the atomic operations on a slot's count and on its number of active
  updates, and the plain reads and writes of the two fields of a frame. Steps take effect in one
  order that all threads see; a weak exchange may fail spuriously.
\<close>

section \<open>Shared state\<close>

record slot =
  sl_buffer :: call_trace
  sl_num :: nat
  sl_count :: int
  sl_active :: int

definition sl_trace :: "slot \<Rightarrow> call_trace" where
  "sl_trace e = take (sl_num e) (sl_buffer e)"

text \<open>Where an \<open>Add\<close> is: which access comes next, for which trace, at which probe.\<close>

datatype apc = AInc | ALoad | AReserve | AEarly | AWrite nat | AWriteCode nat | ANum | APublish
  | AMatch | ACompare nat | ACompareCode nat | AReload | ABump int | ABumped | ANext | ADone bool

datatype adder = Adder (ad_pc: apc) (ad_trace: call_trace) (ad_probe: nat)

definition slot_of :: "adder \<Rightarrow> nat" where
  "slot_of a = probe (CalculateHash (ad_trace a)) (ad_probe a)"

text \<open>Where the extraction is: slot, frames to read, count taken, frames read so far, line of the next.\<close>

datatype xpc = XIdle | XLoad nat | XNum nat | XLock nat nat | XCopy nat nat int call_trace
  | XCopyCode nat nat int call_trace "32 word" | XSpin nat int call_trace | XStore nat int call_trace

record sharing =
  sh_slots :: "slot list"
  sh_adders :: "adder list"
  sh_extract :: xpc
  sh_taken :: trace_counts

section \<open>Steps\<close>

text \<open>
  One access of an \<open>Add\<close>, given the slot of its probe; \<open>ok\<close> is whether a weak exchange does not
  fail spuriously.
\<close>

definition access :: "bool \<Rightarrow> adder \<Rightarrow> slot \<Rightarrow> (adder \<times> slot) option" where
  "access ok a e =
     (let t = ad_trace a; p = ad_probe a in
      case ad_pc a of
        AInc \<Rightarrow> if kMaxStackTraces \<le> p then Some (Adder (ADone False) t p, e)
          else Some (Adder ALoad t p, e\<lparr>sl_active := sl_active e + 1\<rparr>)
      | ALoad \<Rightarrow> Some (Adder (if sl_count e = 0 then AReserve
          else if sl_count e = kTraceCountLocked then ANext else AMatch) t p, e)
      | AReserve \<Rightarrow> if ok \<and> sl_count e = 0 then Some (Adder AEarly t p, e\<lparr>sl_count := kTraceCountLocked\<rparr>)
          else Some (Adder ANext t p, e)
      | AEarly \<Rightarrow> Some (Adder (AWrite 0) t p, e\<lparr>sl_active := sl_active e - 1\<rparr>)
      | AWrite j \<Rightarrow> if j < length t
          then Some (Adder (AWriteCode j) t p,
            e\<lparr>sl_buffer := (sl_buffer e)[j := CallFrame (cf_lineno (t ! j)) (cf_code (sl_buffer e ! j))]\<rparr>)
          else Some (Adder ANum t p, e)
      | AWriteCode j \<Rightarrow> Some (Adder (AWrite (Suc j)) t p,
          e\<lparr>sl_buffer := (sl_buffer e)[j := CallFrame (cf_lineno (sl_buffer e ! j)) (cf_code (t ! j))]\<rparr>)
      | ANum \<Rightarrow> Some (Adder APublish t p, e\<lparr>sl_num := length t\<rparr>)
      | APublish \<Rightarrow> Some (Adder (ADone True) t p, e\<lparr>sl_count := 1\<rparr>)
      | AMatch \<Rightarrow> Some (Adder (if length t = sl_num e then ACompare 0 else ANext) t p, e)
      | ACompare j \<Rightarrow> if j < length t
          then Some (Adder (if cf_lineno (t ! j) \<noteq> cf_lineno (sl_buffer e ! j) then ANext else ACompareCode j) t p, e)
          else Some (Adder AReload t p, e)
      | ACompareCode j \<Rightarrow>
          Some (Adder (if cf_code (t ! j) \<noteq> cf_code (sl_buffer e ! j) then ANext else ACompare (Suc j)) t p, e)
      | AReload \<Rightarrow> Some (Adder (if sl_count e \<noteq> kTraceCountLocked then ABump (sl_count e) else ANext) t p, e)
      | ABump n \<Rightarrow> if ok \<and> sl_count e = n then Some (Adder ABumped t p, e\<lparr>sl_count := n + 1\<rparr>)
          else Some (Adder ANext t p, e)
      | ABumped \<Rightarrow> Some (Adder (ADone True) t p, e\<lparr>sl_active := sl_active e - 1\<rparr>)
      | ANext \<Rightarrow> Some (Adder AInc t (p + 1), e\<lparr>sl_active := sl_active e - 1\<rparr>)
      | ADone r \<Rightarrow> None)"

definition adder_step :: "bool \<Rightarrow> adder \<Rightarrow> slot list \<Rightarrow> (adder \<times> slot list) option" where
  "adder_step ok a slots = (case access ok a (slots ! slot_of a) of None \<Rightarrow> None
     | Some (a', e) \<Rightarrow> Some (a', slots[slot_of a := e]))"

text \<open>
  One access of the extraction, over all slots as in the harvest; an extraction at a slot that
  is unused or reserved moves on, and one with active updates spins.
\<close>

definition next_slot :: "nat \<Rightarrow> xpc" where
  "next_slot i = (if Suc i < kMaxStackTraces then XLoad (Suc i) else XIdle)"

definition extract_step :: "xpc \<Rightarrow> slot list \<Rightarrow> trace_counts \<Rightarrow> xpc \<times> slot list \<times> trace_counts" where
  "extract_step x slots taken = (case x of
       XIdle \<Rightarrow> (XLoad 0, slots, taken)
     | XLoad i \<Rightarrow> (if sl_count (slots ! i) \<le> 0 then next_slot i else XNum i, slots, taken)
     | XNum i \<Rightarrow> (XLock i (min (sl_num (slots ! i)) kMaxFramesToCapture), slots, taken)
     | XLock i n \<Rightarrow> (XCopy i n (sl_count (slots ! i)) [], slots[i := (slots ! i)\<lparr>sl_count := kTraceCountLocked\<rparr>], taken)
     | XCopy i n c frames \<Rightarrow>
         (if length frames < n then XCopyCode i n c frames (cf_lineno (sl_buffer (slots ! i) ! length frames))
          else XSpin i c frames, slots, taken)
     | XCopyCode i n c frames line \<Rightarrow>
         (XCopy i n c (frames @ [CallFrame line (cf_code (sl_buffer (slots ! i) ! length frames))]), slots, taken)
     | XSpin i c frames \<Rightarrow> (if sl_active (slots ! i) \<noteq> 0 then XSpin i c frames else XStore i c frames, slots, taken)
     | XStore i c frames \<Rightarrow> (next_slot i, slots[i := (slots ! i)\<lparr>sl_count := 0\<rparr>],
         if frames \<noteq> [] \<and> 0 < c then multiset_add frames c taken else taken))"

definition start_adder :: "call_trace \<Rightarrow> sharing \<Rightarrow> sharing" where
  "start_adder t s = s\<lparr>sh_adders := sh_adders s @ [Adder AInc t 0]\<rparr>"

definition run_adder :: "bool \<Rightarrow> nat \<Rightarrow> sharing \<Rightarrow> sharing option" where
  "run_adder ok k s = (case adder_step ok (sh_adders s ! k) (sh_slots s) of None \<Rightarrow> None
     | Some (a, slots) \<Rightarrow> Some (s\<lparr>sh_adders := (sh_adders s)[k := a], sh_slots := slots\<rparr>))"

definition run_extract :: "sharing \<Rightarrow> sharing" where
  "run_extract s = (case extract_step (sh_extract s) (sh_slots s) (sh_taken s) of (x, slots, taken) \<Rightarrow>
     s\<lparr>sh_extract := x, sh_slots := slots, sh_taken := taken\<rparr>)"

inductive share_step :: "sharing \<Rightarrow> sharing \<Rightarrow> bool" where
  Signal: "length t \<le> kMaxFramesToCapture \<Longrightarrow> share_step s (start_adder t s)"
| Add: "k < length (sh_adders s) \<Longrightarrow> run_adder ok k s = Some s' \<Longrightarrow> share_step s s'"
| Extract: "share_step s (run_extract s)"

definition sharing_init :: sharing where
  "sharing_init = \<lparr>sh_slots = replicate kMaxStackTraces
     \<lparr>sl_buffer = replicate kMaxFramesToCapture (CallFrame 0 0), sl_num = 0, sl_count = 0, sl_active = 0\<rparr>,
     sh_adders = [], sh_extract = XIdle, sh_taken = []\<rparr>"

abbreviation share_reach :: "sharing \<Rightarrow> bool" where
  "share_reach \<equiv> reachable share_step sharing_init"

lemma share_reach_init: "share_reach sharing_init"
  by (rule reachable.Init)

lemma share_reach_step: "share_reach s \<Longrightarrow> share_step s s' \<Longrightarrow> share_reach s'"
  by (rule reachable.Step)

inductive_cases share_stepE: "share_step s s'"

section \<open>Counting\<close>

definition num :: "('a \<Rightarrow> bool) \<Rightarrow> 'a list \<Rightarrow> int" where
  "num P xs = sum_list (map (\<lambda>x. if P x then 1 else 0) xs)"

lemma num_update: "k < length xs \<Longrightarrow> num P (xs[k := x]) = num P xs - (if P (xs ! k) then 1 else 0) + (if P x then 1 else 0)"
  by (simp add: num_def sum_list_update)

lemma num_append: "num P (xs @ ys) = num P xs + num P ys"
  by (simp add: num_def)

lemma num_Nil [simp]: "num P [] = 0"
  by (simp add: num_def)

lemma num_Cons: "num P (x # xs) = (if P x then 1 else 0) + num P xs"
  by (simp add: num_def)

lemma num_nonneg: "0 \<le> num P xs"
  by (induction xs) (simp_all add: num_Cons)

lemma num_pos: "0 < num P xs \<longleftrightarrow> (\<exists>x \<in> set xs. P x)"
proof (induction xs)
  case (Cons x xs)
  then show ?case using num_nonneg [of P xs] by (auto simp: num_Cons)
qed simp

lemma num_0: "num P xs = 0 \<longleftrightarrow> (\<forall>x \<in> set xs. \<not> P x)"
  using num_pos [of P xs] num_nonneg [of P xs] by (metis less_le)

lemma num_two:
  assumes "k < length xs" "j < length xs" "k \<noteq> j" "P (xs ! k)" "P (xs ! j)"
  shows "2 \<le> num P xs"
proof -
  have split: "num P xs = num P (take k xs) + 1 + num P (drop (Suc k) xs)"
    by (subst id_take_nth_drop [OF assms(1)]) (simp add: num_append num_Cons assms(4))
  have "xs ! j \<in> set (take k xs) \<or> xs ! j \<in> set (drop (Suc k) xs)"
  proof (cases "j < k")
    case True
    then have "take k xs ! j \<in> set (take k xs)" using assms(2) by (intro nth_mem) simp
    then show ?thesis using True by simp
  next
    case False
    then have "drop (Suc k) xs ! (j - Suc k) \<in> set (drop (Suc k) xs)" using assms(2,3) by (intro nth_mem) simp
    then show ?thesis using False assms(1,3) by simp
  qed
  then have "0 < num P (take k xs) \<or> 0 < num P (drop (Suc k) xs)" unfolding num_pos using assms(5) by blast
  then show ?thesis using split num_nonneg [of P "take k xs"] num_nonneg [of P "drop (Suc k) xs"] by linarith
qed

section \<open>The invariant\<close>

text \<open>The classes of places in \<open>Add\<close>: counted as active, holding the reservation, reading the frames.\<close>

fun is_active :: "apc \<Rightarrow> bool" where
  "is_active AInc = False" | "is_active (AWrite _) = False" | "is_active (AWriteCode _) = False" | "is_active ANum = False"
| "is_active APublish = False" | "is_active (ADone _) = False" | "is_active _ = True"

fun is_writing :: "apc \<Rightarrow> bool" where
  "is_writing AEarly = True" | "is_writing (AWrite _) = True" | "is_writing (AWriteCode _) = True" | "is_writing ANum = True"
| "is_writing APublish = True" | "is_writing _ = False"

fun is_reading :: "apc \<Rightarrow> bool" where
  "is_reading AMatch = True" | "is_reading (ACompare _) = True" | "is_reading (ACompareCode _) = True" | "is_reading AReload = True"
| "is_reading (ABump _) = True" | "is_reading _ = False"

fun counted :: "apc \<Rightarrow> bool" where
  "counted ABumped = True" | "counted (ADone r) = r" | "counted _ = False"

fun holds :: "nat \<Rightarrow> xpc \<Rightarrow> bool" where
  "holds i (XCopy k _ _ _) = (k = i)" | "holds i (XCopyCode k _ _ _ _) = (k = i)" | "holds i (XSpin k _ _) = (k = i)"
| "holds i (XStore k _ _) = (k = i)" | "holds i _ = False"

fun storing :: "nat \<Rightarrow> xpc \<Rightarrow> bool" where
  "storing i (XStore k _ _) = (k = i)" | "storing i _ = False"

definition at_slot :: "nat \<Rightarrow> (apc \<Rightarrow> bool) \<Rightarrow> adder \<Rightarrow> bool" where
  "at_slot i Q a \<longleftrightarrow> slot_of a = i \<and> Q (ad_pc a)"

definition writers :: "nat \<Rightarrow> adder list \<Rightarrow> int" where
  "writers i as = num (at_slot i is_writing) as"

text \<open>
  A slot counts its active updates, and is reserved exactly while one writer or the extraction
  holds it.
\<close>

definition slot_ok :: "nat \<Rightarrow> slot \<Rightarrow> adder list \<Rightarrow> xpc \<Rightarrow> bool" where
  "slot_ok i e as x \<longleftrightarrow> sl_active e = num (at_slot i is_active) as \<and>
     (if sl_count e = -1 then 1 else 0) = writers i as + (if holds i x then 1 else 0) \<and>
     -1 \<le> sl_count e \<and> length (sl_buffer e) = kMaxFramesToCapture \<and> sl_num e \<le> kMaxFramesToCapture"

text \<open>What the places of an \<open>Add\<close> know about their slot.\<close>

definition stable :: "nat \<Rightarrow> slot \<Rightarrow> adder list \<Rightarrow> xpc \<Rightarrow> bool" where
  "stable i e as x \<longleftrightarrow> sl_count e \<noteq> 0 \<and> writers i as = 0 \<and> \<not> storing i x"

fun knows :: "apc \<Rightarrow> call_trace \<Rightarrow> slot \<Rightarrow> bool" where
  "knows (AWrite j) t e = (j \<le> length t \<and> take j (sl_buffer e) = take j t)"
| "knows (AWriteCode j) t e = (j < length t \<and> take j (sl_buffer e) = take j t \<and>
     cf_lineno (sl_buffer e ! j) = cf_lineno (t ! j))"
| "knows ANum t e = (take (length t) (sl_buffer e) = t)"
| "knows APublish t e = (sl_trace e = t)"
| "knows (ACompare j) t e = (sl_num e = length t \<and> j \<le> length t \<and> take j (sl_buffer e) = take j t)"
| "knows (ACompareCode j) t e = (sl_num e = length t \<and> j < length t \<and> take j (sl_buffer e) = take j t \<and>
     cf_lineno (sl_buffer e ! j) = cf_lineno (t ! j))"
| "knows AReload t e = (sl_trace e = t)"
| "knows (ABump n) t e = (sl_trace e = t \<and> 0 < n)"
| "knows _ t e = True"

definition adder_ok :: "adder \<Rightarrow> slot \<Rightarrow> adder list \<Rightarrow> xpc \<Rightarrow> bool" where
  "adder_ok a e as x \<longleftrightarrow> length (ad_trace a) \<le> kMaxFramesToCapture \<and> knows (ad_pc a) (ad_trace a) e \<and>
     (is_reading (ad_pc a) \<longrightarrow> stable (slot_of a) e as x)"

fun extract_ok :: "xpc \<Rightarrow> slot list \<Rightarrow> bool" where
  "extract_ok XIdle slots = True"
| "extract_ok (XLoad i) slots = (i < kMaxStackTraces)"
| "extract_ok (XNum i) slots = (i < kMaxStackTraces \<and> 0 < sl_count (slots ! i))"
| "extract_ok (XLock i n) slots = (i < kMaxStackTraces \<and> 0 < sl_count (slots ! i) \<and> n = sl_num (slots ! i))"
| "extract_ok (XCopy i n c frames) slots = (i < kMaxStackTraces \<and> n = sl_num (slots ! i) \<and> 0 < c \<and>
     length frames \<le> n \<and> frames = take (length frames) (sl_buffer (slots ! i)))"
| "extract_ok (XCopyCode i n c frames line) slots = (i < kMaxStackTraces \<and> n = sl_num (slots ! i) \<and> 0 < c \<and>
     length frames < n \<and> frames = take (length frames) (sl_buffer (slots ! i)) \<and>
     line = cf_lineno (sl_buffer (slots ! i) ! length frames))"
| "extract_ok (XSpin i c frames) slots = (i < kMaxStackTraces \<and> 0 < c \<and> frames = sl_trace (slots ! i))"
| "extract_ok (XStore i c frames) slots = (i < kMaxStackTraces \<and> 0 < c \<and> frames = sl_trace (slots ! i))"

text \<open>The occurrences of a trace in the table, and the ones the extraction holds.\<close>

definition value_in :: "call_trace \<Rightarrow> slot \<Rightarrow> int" where
  "value_in t e = (if 0 < sl_count e \<and> sl_trace e = t then sl_count e else 0)"

definition in_slots :: "call_trace \<Rightarrow> slot list \<Rightarrow> int" where
  "in_slots t slots = sum_list (map (value_in t) slots)"

fun in_hand :: "call_trace \<Rightarrow> xpc \<Rightarrow> slot list \<Rightarrow> int" where
  "in_hand t (XCopy i n c frames) slots = (if sl_trace (slots ! i) = t then c else 0)"
| "in_hand t (XCopyCode i n c frames line) slots = (if sl_trace (slots ! i) = t then c else 0)"
| "in_hand t (XSpin i c frames) slots = (if frames = t then c else 0)"
| "in_hand t (XStore i c frames) slots = (if frames = t then c else 0)"
| "in_hand t _ slots = 0"

text \<open>Additions of a trace that took effect.\<close>

definition added :: "call_trace \<Rightarrow> adder list \<Rightarrow> int" where
  "added t as = num (\<lambda>a. ad_trace a = t \<and> counted (ad_pc a)) as"

definition ledger :: "call_trace \<Rightarrow> sharing \<Rightarrow> bool" where
  "ledger t s \<longleftrightarrow> added t (sh_adders s) = in_slots t (sh_slots s) + in_hand t (sh_extract s) (sh_slots s)
     + dict_get_default (sh_taken s) t 0"

definition sharing_ok :: "sharing \<Rightarrow> bool" where
  "sharing_ok s \<longleftrightarrow> length (sh_slots s) = kMaxStackTraces \<and>
     (\<forall>i < kMaxStackTraces. slot_ok i (sh_slots s ! i) (sh_adders s) (sh_extract s)) \<and>
     (\<forall>a \<in> set (sh_adders s). adder_ok a (sh_slots s ! slot_of a) (sh_adders s) (sh_extract s)) \<and>
     extract_ok (sh_extract s) (sh_slots s) \<and> (\<forall>t. t \<noteq> [] \<longrightarrow> ledger t s)"

section \<open>The effect of one access\<close>

lemma access_adder:
  assumes "access ok a e = Some (a', e')"
  shows "ad_trace a' = ad_trace a" "slot_of a' = slot_of a \<or> ad_pc a' = AInc"
  using assms by (auto simp: access_def Let_def slot_of_def split: apc.splits if_splits)

lemma access_frames:
  assumes "access ok a e = Some (a', e')"
  shows "is_writing (ad_pc a) \<or> sl_buffer e' = sl_buffer e \<and> sl_num e' = sl_num e"
  using assms by (auto simp: access_def Let_def split: apc.splits if_splits)

lemma access_active:
  assumes "access ok a e = Some (a', e')"
  shows "sl_active e' = sl_active e - (if is_active (ad_pc a) then 1 else 0) + (if is_active (ad_pc a') then 1 else 0)"
  using assms by (auto simp: access_def Let_def split: apc.splits if_splits)

lemma access_sizes:
  assumes "access ok a e = Some (a', e')" "length (ad_trace a) \<le> kMaxFramesToCapture"
    and "length (sl_buffer e) = kMaxFramesToCapture" "sl_num e \<le> kMaxFramesToCapture"
  shows "length (sl_buffer e') = kMaxFramesToCapture" "sl_num e' \<le> kMaxFramesToCapture"
  using assms by (auto simp: access_def Let_def split: apc.splits if_splits)

text \<open>The count, given what the place knows: a writer has it reserved, a bump expects a positive one.\<close>

lemma access_count:
  assumes "access ok a e = Some (a', e')" "knows (ad_pc a) (ad_trace a) e" "-1 \<le> sl_count e"
    and "is_writing (ad_pc a) \<Longrightarrow> sl_count e = -1"
  shows "-1 \<le> sl_count e'" "sl_count e' = 0 \<Longrightarrow> sl_count e = 0" "0 < sl_count e \<Longrightarrow> 0 < sl_count e'"
    "(if sl_count e' = -1 then 1 else 0 :: int) = (if sl_count e = -1 then 1 else 0)
      - (if is_writing (ad_pc a) then 1 else 0) + (if is_writing (ad_pc a') then 1 else 0)"
    "is_writing (ad_pc a') \<Longrightarrow> is_writing (ad_pc a) \<or> sl_count e = 0"
    "is_reading (ad_pc a') \<Longrightarrow> is_reading (ad_pc a) \<or> 0 < sl_count e"
  using assms by (auto simp: access_def Let_def kTraceCountLocked_def split: apc.splits if_splits)

lemma take_write: "take j xs = take j ys \<Longrightarrow> j < length xs \<Longrightarrow> j < length ys \<Longrightarrow> take (Suc j) (xs[j := ys ! j]) = take (Suc j) ys"
  by (simp add: take_Suc_conv_app_nth)

lemma take_match: "take j xs = take j ys \<Longrightarrow> j < length xs \<Longrightarrow> j < length ys \<Longrightarrow> ys ! j = xs ! j \<Longrightarrow>
    take (Suc j) xs = take (Suc j) ys"
  by (simp add: take_Suc_conv_app_nth)

lemma access_knows:
  assumes "access ok a e = Some (a', e')" "knows (ad_pc a) (ad_trace a) e" "-1 \<le> sl_count e"
    and "length (sl_buffer e) = kMaxFramesToCapture" "length (ad_trace a) \<le> kMaxFramesToCapture"
    and "is_reading (ad_pc a) \<Longrightarrow> sl_count e \<noteq> 0"
  shows "knows (ad_pc a') (ad_trace a') e'"
proof -
  have a': "a' = Adder (ad_pc a') (ad_trace a) (ad_probe a')" using access_adder(1) [OF assms(1)] by (cases a') simp
  show ?thesis
  proof (cases "ad_pc a")
    case (AWrite j)
    then have "take j (sl_buffer e) = take j (ad_trace a)" "j \<le> length (ad_trace a)" using assms(2) by simp_all
    then show ?thesis using assms(1,4,5) AWrite by (cases "j < length (ad_trace a)") (auto simp: access_def Let_def)
  next
    case (AWriteCode j)
    then have "take j (sl_buffer e) = take j (ad_trace a)" "j < length (ad_trace a)"
      and f: "CallFrame (cf_lineno (sl_buffer e ! j)) (cf_code (ad_trace a ! j)) = ad_trace a ! j"
      using assms(2) by simp_all
    moreover have "take (Suc j) ((sl_buffer e)[j := ad_trace a ! j]) = take (Suc j) (ad_trace a)"
      using calculation(1,2) assms(4,5) by (intro take_write) simp_all
    ultimately show ?thesis using assms(1) AWriteCode by (auto simp: access_def Let_def)
  next
    case (ACompare j)
    then have "take j (sl_buffer e) = take j (ad_trace a)" "j \<le> length (ad_trace a)" "sl_num e = length (ad_trace a)"
      using assms(2) by simp_all
    then show ?thesis using assms(1) ACompare
      by (cases "j < length (ad_trace a)"; cases "cf_lineno (ad_trace a ! j) = cf_lineno (sl_buffer e ! j)")
        (auto simp: access_def Let_def sl_trace_def)
  next
    case (ACompareCode j)
    then have k: "take j (sl_buffer e) = take j (ad_trace a)" "j < length (ad_trace a)" "sl_num e = length (ad_trace a)"
      "cf_lineno (sl_buffer e ! j) = cf_lineno (ad_trace a ! j)"
      using assms(2) by simp_all
    moreover have "cf_code (ad_trace a ! j) = cf_code (sl_buffer e ! j) \<Longrightarrow>
        take (Suc j) (sl_buffer e) = take (Suc j) (ad_trace a)"
      using k(1,2,4) assms(4,5) by (intro take_match call_frame.expand) simp_all
    ultimately show ?thesis using assms(1) ACompareCode
      by (cases "cf_code (ad_trace a ! j) = cf_code (sl_buffer e ! j)") (auto simp: access_def Let_def)
  next
    case ALoad
    then show ?thesis using assms(1) by (auto simp: access_def Let_def)
  next
    case ANum
    then show ?thesis using assms(1,2) by (auto simp: access_def Let_def sl_trace_def)
  next
    case AReload
    then show ?thesis using assms(1,2,3,6) by (auto simp: access_def Let_def kTraceCountLocked_def)
  qed (use assms(1) in \<open>auto simp: access_def Let_def split: if_splits\<close>)
qed

lemma value_in_update [simp]:
  "value_in t (e\<lparr>sl_active := k\<rparr>) = value_in t e"
  "value_in t (e\<lparr>sl_count := c\<rparr>) = (if 0 < c \<and> sl_trace e = t then c else 0)"
  "sl_count e = -1 \<Longrightarrow> value_in t e = 0"
  "sl_count e = -1 \<Longrightarrow> value_in t (e\<lparr>sl_buffer := b\<rparr>) = 0"
  "sl_count e = -1 \<Longrightarrow> value_in t (e\<lparr>sl_num := n\<rparr>) = 0"
  "sl_count e = 0 \<Longrightarrow> value_in t e = 0"
  by (simp_all add: value_in_def sl_trace_def)

lemma value_in_pos: "0 < sl_count e \<Longrightarrow> value_in t e = (if sl_trace e = t then sl_count e else 0)"
  by (simp add: value_in_def)

lemma access_value:
  assumes "access ok a e = Some (a', e')" "knows (ad_pc a) (ad_trace a) e"
    and "is_writing (ad_pc a) \<Longrightarrow> sl_count e = -1"
  shows "value_in t e' - (if ad_trace a' = t \<and> counted (ad_pc a') then 1 else 0) =
    value_in t e - (if ad_trace a = t \<and> counted (ad_pc a) then 1 else 0)"
proof (cases "ad_pc a")
  case (ABump n)
  with assms(2) have k: "sl_trace e = ad_trace a" "0 < n" by simp_all
  show ?thesis
  proof (cases "ok \<and> sl_count e = n")
    case True
    with ABump assms(1) have "a' = Adder ABumped (ad_trace a) (ad_probe a)" "e' = e\<lparr>sl_count := n + 1\<rparr>"
      by (auto simp: access_def Let_def)
    then show ?thesis using ABump True k by (simp add: value_in_pos)
  next
    case False
    with ABump assms(1) have "a' = Adder ANext (ad_trace a) (ad_probe a)" "e' = e" by (auto simp: access_def Let_def)
    then show ?thesis using ABump by simp
  qed
qed (use assms in \<open>auto simp: access_def Let_def kTraceCountLocked_def split: if_splits\<close>)
section \<open>An access keeps the invariant\<close>

lemma knows_trivial: "\<not> is_writing pc \<Longrightarrow> \<not> is_reading pc \<Longrightarrow> knows pc t e"
  by (cases pc) simp_all

lemma knows_cong: "sl_buffer e' = sl_buffer e \<Longrightarrow> sl_num e' = sl_num e \<Longrightarrow> knows pc t e' = knows pc t e"
  by (cases pc) (simp_all add: sl_trace_def)

lemma storing_holds: "storing i x \<Longrightarrow> holds i x"
  by (cases x) simp_all

lemma slot_ok_writer:
  assumes "slot_ok i e as x" "a \<in> set as" "slot_of a = i" "is_writing (ad_pc a)"
  shows "sl_count e = -1" "writers i as = 1" "\<not> holds i x"
proof -
  have "0 < writers i as" unfolding writers_def num_pos at_slot_def using assms(2-4) by blast
  with assms(1) show "sl_count e = -1" "writers i as = 1" "\<not> holds i x"
    by (auto simp: slot_ok_def split: if_splits)
qed

lemma slot_ok_free:
  assumes "slot_ok i e as x" "0 < sl_count e"
  shows "writers i as = 0" "\<not> holds i x"
  using assms num_nonneg [of "at_slot i is_writing" as] by (auto simp: slot_ok_def writers_def split: if_splits)

lemma slot_ok_held:
  assumes "slot_ok i e as x" "holds i x"
  shows "writers i as = 0" "sl_count e = -1"
  using assms num_nonneg [of "at_slot i is_writing" as] by (auto simp: slot_ok_def writers_def split: if_splits)

lemma writers_0: "writers i as = 0 \<Longrightarrow> a \<in> set as \<Longrightarrow> slot_of a = i \<Longrightarrow> \<not> is_writing (ad_pc a)"
  by (auto simp: writers_def num_0 at_slot_def)

lemma at_slot_update:
  assumes "k < length as" "slot_of a' = slot_of (as ! k) \<or> ad_pc a' = AInc" "\<not> Q AInc"
  shows "num (at_slot j Q) (as[k := a']) = num (at_slot j Q) as +
    (if slot_of (as ! k) = j then (if Q (ad_pc a') then 1 else 0) - (if Q (ad_pc (as ! k)) then 1 else 0) else 0)"
  using assms by (auto simp: num_update at_slot_def)

lemmas writers_update = at_slot_update [of _ _ _ is_writing, folded writers_def, simplified]
lemmas active_update = at_slot_update [of _ _ _ is_active, simplified]

lemma sharing_okD:
  assumes "sharing_ok s"
  shows "length (sh_slots s) = kMaxStackTraces"
    "i < kMaxStackTraces \<Longrightarrow> slot_ok i (sh_slots s ! i) (sh_adders s) (sh_extract s)"
    "a \<in> set (sh_adders s) \<Longrightarrow> adder_ok a (sh_slots s ! slot_of a) (sh_adders s) (sh_extract s)"
    "extract_ok (sh_extract s) (sh_slots s)" "t \<noteq> [] \<Longrightarrow> ledger t s"
  using assms by (auto simp: sharing_ok_def)

lemma slot_of_less: "slot_of a < kMaxStackTraces"
  by (simp add: slot_of_def probe_less)

text \<open>The situation of an access: adder \<open>k\<close> at its slot, before and after.\<close>

definition accessed :: "bool \<Rightarrow> nat \<Rightarrow> sharing \<Rightarrow> adder \<Rightarrow> slot \<Rightarrow> bool" where
  "accessed ok k s a' e' \<longleftrightarrow> sharing_ok s \<and> k < length (sh_adders s) \<and>
     access ok (sh_adders s ! k) (sh_slots s ! slot_of (sh_adders s ! k)) = Some (a', e')"

lemma accessed_facts:
  assumes "accessed ok k s a' e'" "sh_adders s ! k = a" "sh_slots s ! slot_of a = e"
  shows "k < length (sh_adders s)" "access ok a e = Some (a', e')" "a \<in> set (sh_adders s)"
    "slot_ok (slot_of a) e (sh_adders s) (sh_extract s)" "adder_ok a e (sh_adders s) (sh_extract s)"
    "is_writing (ad_pc a) \<Longrightarrow> sl_count e = -1" "-1 \<le> sl_count e"
    "knows (ad_pc a) (ad_trace a) e" "is_reading (ad_pc a) \<Longrightarrow> stable (slot_of a) e (sh_adders s) (sh_extract s)"
proof -
  show k: "k < length (sh_adders s)" "access ok a e = Some (a', e')" using assms by (auto simp: accessed_def)
  show a: "a \<in> set (sh_adders s)" using k(1) assms(2) by auto
  show s: "slot_ok (slot_of a) e (sh_adders s) (sh_extract s)"
    using assms sharing_okD(2) [of s "slot_of a"] slot_of_less by (auto simp: accessed_def)
  show ok: "adder_ok a e (sh_adders s) (sh_extract s)" using assms sharing_okD(3) [of s a] a by (auto simp: accessed_def)
  show "is_writing (ad_pc a) \<Longrightarrow> sl_count e = -1" using slot_ok_writer(1) [OF s a refl] .
  show "-1 \<le> sl_count e" using s by (simp add: slot_ok_def)
  show "knows (ad_pc a) (ad_trace a) e" "is_reading (ad_pc a) \<Longrightarrow> stable (slot_of a) e (sh_adders s) (sh_extract s)"
    using ok by (simp_all add: adder_ok_def)
qed

lemma accessed_count:
  assumes "accessed ok k s a' e'" "sh_adders s ! k = a" "sh_slots s ! slot_of a = e"
  shows "-1 \<le> sl_count e'" "sl_count e' = 0 \<Longrightarrow> sl_count e = 0" "0 < sl_count e \<Longrightarrow> 0 < sl_count e'"
    "(if sl_count e' = -1 then 1 else 0 :: int) = (if sl_count e = -1 then 1 else 0)
      - (if is_writing (ad_pc a) then 1 else 0) + (if is_writing (ad_pc a') then 1 else 0)"
    "is_writing (ad_pc a') \<Longrightarrow> is_writing (ad_pc a) \<or> sl_count e = 0"
    "is_reading (ad_pc a') \<Longrightarrow> is_reading (ad_pc a) \<or> 0 < sl_count e"
  using access_count [OF accessed_facts(2,8,7,6) [OF assms]] by blast+

lemma accessed_slot_ok:
  assumes "accessed ok k s a' e'" "j < kMaxStackTraces"
  shows "slot_ok j ((sh_slots s)[slot_of (sh_adders s ! k) := e'] ! j) ((sh_adders s)[k := a']) (sh_extract s)"
proof -
  let ?a = "sh_adders s ! k"
  let ?e = "sh_slots s ! slot_of ?a"
  note f = accessed_facts [OF assms(1) refl refl]
  note ad = access_adder [OF f(2)]
  note c = accessed_count [OF assms(1) refl refl]
  have len: "length (sh_slots s) = kMaxStackTraces" and old: "slot_ok j (sh_slots s ! j) (sh_adders s) (sh_extract s)"
    using assms sharing_okD(1,2) by (auto simp: accessed_def)
  note w = writers_update [OF f(1) ad(2), of j] and a = active_update [OF f(1) ad(2), of j]
  show ?thesis
  proof (cases "slot_of ?a = j")
    case True
    have z: "length (sl_buffer e') = kMaxFramesToCapture" "sl_num e' \<le> kMaxFramesToCapture"
      using access_sizes [OF f(2)] f(4,5) by (auto simp: slot_ok_def adder_ok_def)
    show ?thesis
      using True old w a c(1,4) z access_active [OF f(2)] len assms(2)
      by (auto simp: slot_ok_def split: if_splits)
  next
    case False
    then show ?thesis using old w a by (simp add: slot_ok_def)
  qed
qed

lemma accessed_self_ok:
  assumes "accessed ok k s a' e'"
  shows "adder_ok a' ((sh_slots s)[slot_of (sh_adders s ! k) := e'] ! slot_of a') ((sh_adders s)[k := a']) (sh_extract s)"
proof -
  let ?a = "sh_adders s ! k"
  let ?e = "sh_slots s ! slot_of ?a"
  note f = accessed_facts [OF assms refl refl]
  note ad = access_adder [OF f(2)]
  note c = accessed_count [OF assms refl refl]
  have t: "length (ad_trace ?a) \<le> kMaxFramesToCapture" "length (sl_buffer ?e) = kMaxFramesToCapture"
    using f(4,5) by (auto simp: slot_ok_def adder_ok_def)
  have len: "slot_of ?a < length (sh_slots s)" using assms sharing_okD(1) slot_of_less by (auto simp: accessed_def)
  have kn: "knows (ad_pc a') (ad_trace a') e'"
    by (rule access_knows [OF f(2,8,7) t(2,1)]) (use f(9) in \<open>simp add: stable_def\<close>)
  show ?thesis
  proof (cases "ad_pc a' = AInc")
    case True
    then show ?thesis using ad t by (simp add: adder_ok_def)
  next
    case False
    then have same: "slot_of a' = slot_of ?a" using ad(2) by simp
    have "stable (slot_of ?a) e' ((sh_adders s)[k := a']) (sh_extract s)" if r: "is_reading (ad_pc a')"
    proof -
      have nw: "\<not> is_writing (ad_pc a')" using r by (cases "ad_pc a'") simp_all
      have "stable (slot_of ?a) ?e (sh_adders s) (sh_extract s)"
        using c(6) [OF r] f(9) slot_ok_free [OF f(4)] storing_holds by (auto simp: stable_def)
      then show ?thesis
        using writers_update [OF f(1) ad(2), of "slot_of ?a"] nw c(2) writers_0 [OF _ f(3) refl]
        by (auto simp: stable_def)
    qed
    then show ?thesis using kn ad(1) t(1) len by (simp add: adder_ok_def same)
  qed
qed

lemma accessed_other_ok:
  assumes "accessed ok k s a' e'" "m < length (sh_adders s)" "m \<noteq> k" "sh_adders s ! m = b"
  shows "adder_ok b ((sh_slots s)[slot_of (sh_adders s ! k) := e'] ! slot_of b) ((sh_adders s)[k := a']) (sh_extract s)"
proof -
  let ?a = "sh_adders s ! k"
  let ?e = "sh_slots s ! slot_of ?a"
  note f = accessed_facts [OF assms(1) refl refl]
  note ad = access_adder [OF f(2)]
  note c = accessed_count [OF assms(1) refl refl]
  have b: "b \<in> set (sh_adders s)" using assms(2,4) by auto
  have old: "adder_ok b (sh_slots s ! slot_of b) (sh_adders s) (sh_extract s)"
    using assms(1) b sharing_okD(3) by (auto simp: accessed_def)
  have len: "slot_of ?a < length (sh_slots s)" using assms(1) sharing_okD(1) slot_of_less by (auto simp: accessed_def)
  note w = writers_update [OF f(1) ad(2), of "slot_of b"]
  show ?thesis
  proof (cases "slot_of b = slot_of ?a")
    case False
    then show ?thesis using old w by (simp add: adder_ok_def stable_def)
  next
    case same: True
    have kn: "knows (ad_pc b) (ad_trace b) e'"
    proof (cases "is_writing (ad_pc ?a)")
      case True
      have one: "writers (slot_of ?a) (sh_adders s) = 1" by (rule slot_ok_writer(2) [OF f(4,3) refl True])
      have "\<not> is_writing (ad_pc b)"
        using num_two [OF f(1) assms(2) assms(3) [symmetric], of "at_slot (slot_of ?a) is_writing"] one True same assms(4)
        by (auto simp: writers_def at_slot_def)
      moreover have "\<not> is_reading (ad_pc b)" using old one same by (auto simp: adder_ok_def stable_def)
      ultimately show ?thesis by (rule knows_trivial)
    next
      case False
      then have "sl_buffer e' = sl_buffer ?e" "sl_num e' = sl_num ?e" using access_frames [OF f(2)] by simp_all
      from knows_cong [OF this] show ?thesis using old same by (simp add: adder_ok_def)
    qed
    have "stable (slot_of b) e' ((sh_adders s)[k := a']) (sh_extract s)" if "is_reading (ad_pc b)"
    proof -
      have st: "stable (slot_of b) ?e (sh_adders s) (sh_extract s)" using old that same by (simp add: adder_ok_def)
      then have "\<not> is_writing (ad_pc ?a)" "\<not> is_writing (ad_pc a')"
        using writers_0 [OF _ f(3) same [symmetric]] c(5) by (auto simp: stable_def)
      then show ?thesis using st w c(2) by (auto simp: stable_def)
    qed
    then show ?thesis using kn old len by (simp add: adder_ok_def same)
  qed
qed

lemma accessed_extract_ok:
  assumes "accessed ok k s a' e'"
  shows "extract_ok (sh_extract s) ((sh_slots s)[slot_of (sh_adders s ! k) := e'])"
proof -
  let ?i = "slot_of (sh_adders s ! k)"
  let ?e = "sh_slots s ! ?i"
  note f = accessed_facts [OF assms refl refl]
  note c = accessed_count [OF assms refl refl]
  have old: "extract_ok (sh_extract s) (sh_slots s)" and len: "?i < length (sh_slots s)"
    using assms sharing_okD(1,4) slot_of_less by (auto simp: accessed_def)
  have same: "sl_buffer e' = sl_buffer ?e" "sl_num e' = sl_num ?e" if "0 < sl_count ?e \<or> holds ?i (sh_extract s)"
    using access_frames [OF f(2)] f(6) slot_ok_writer(3) [OF f(4,3) refl] that by auto
  show ?thesis
    using old len same c(3) by (cases "sh_extract s") (auto simp: nth_list_update sl_trace_def)
qed

lemma accessed_ledger:
  assumes "accessed ok k s a' e'" "t \<noteq> []"
  shows "ledger t (s\<lparr>sh_adders := (sh_adders s)[k := a'], sh_slots := (sh_slots s)[slot_of (sh_adders s ! k) := e']\<rparr>)"
proof -
  let ?a = "sh_adders s ! k"
  let ?i = "slot_of ?a"
  let ?e = "sh_slots s ! ?i"
  note f = accessed_facts [OF assms(1) refl refl]
  have old: "ledger t s" and len: "?i < length (sh_slots s)"
    using assms sharing_okD(1,5) slot_of_less by (auto simp: accessed_def)
  have "added t ((sh_adders s)[k := a']) = added t (sh_adders s)
      - (if ad_trace ?a = t \<and> counted (ad_pc ?a) then 1 else 0) + (if ad_trace a' = t \<and> counted (ad_pc a') then 1 else 0)"
    using f(1) by (simp add: added_def num_update)
  moreover have "in_slots t ((sh_slots s)[?i := e']) = in_slots t (sh_slots s) - value_in t ?e + value_in t e'"
    using len by (simp add: in_slots_def sum_list_update)
  moreover have "in_hand t (sh_extract s) ((sh_slots s)[?i := e']) = in_hand t (sh_extract s) (sh_slots s)"
  proof (cases "holds ?i (sh_extract s)")
    case True
    then have "sl_trace e' = sl_trace ?e"
      using access_frames [OF f(2)] slot_ok_writer(3) [OF f(4,3) refl] by (auto simp: sl_trace_def)
    then show ?thesis using len by (cases "sh_extract s") (auto simp: nth_list_update)
  next
    case False
    then show ?thesis by (cases "sh_extract s") (auto simp: nth_list_update)
  qed
  ultimately show ?thesis using old access_value [OF f(2,8,6), of t] by (simp add: ledger_def)
qed

lemma sharing_ok_run_adder:
  assumes "sharing_ok s" "k < length (sh_adders s)" "run_adder ok k s = Some s'"
  shows "sharing_ok s'"
proof -
  let ?i = "slot_of (sh_adders s ! k)"
  obtain a' e' where acc: "access ok (sh_adders s ! k) (sh_slots s ! ?i) = Some (a', e')"
    and s': "s' = s\<lparr>sh_adders := (sh_adders s)[k := a'], sh_slots := (sh_slots s)[?i := e']\<rparr>"
    using assms(3) by (auto simp: run_adder_def adder_step_def split: option.splits)
  have A: "accessed ok k s a' e'" using assms(1,2) acc by (simp add: accessed_def)
  have "adder_ok b ((sh_slots s)[?i := e'] ! slot_of b) ((sh_adders s)[k := a']) (sh_extract s)"
    if "b \<in> set ((sh_adders s)[k := a'])" for b
  proof -
    from that obtain m where m: "m < length (sh_adders s)" "(sh_adders s)[k := a'] ! m = b"
      by (auto simp: in_set_conv_nth)
    show ?thesis
    proof (cases "m = k")
      case True
      then show ?thesis using m accessed_self_ok [OF A] by simp
    next
      case False
      then show ?thesis using m accessed_other_ok [OF A m(1) False] by simp
    qed
  qed
  then show ?thesis
    using accessed_slot_ok [OF A] accessed_extract_ok [OF A] accessed_ledger [OF A] sharing_okD(1) [OF assms(1)]
    by (simp add: sharing_ok_def s')
qed

section \<open>The extraction and new signals keep the invariant\<close>

lemma slot_ok_extract:
  "slot_ok i e as x \<Longrightarrow> holds i x' = holds i x \<Longrightarrow> slot_ok i e as x'"
  by (simp add: slot_ok_def)

lemma adder_ok_extract:
  "adder_ok a e as x \<Longrightarrow> (storing (slot_of a) x' \<Longrightarrow> is_reading (ad_pc a) \<Longrightarrow> storing (slot_of a) x) \<Longrightarrow> adder_ok a e as x'"
  by (auto simp: adder_ok_def stable_def)

text \<open>A step of the extraction that leaves the slots alone.\<close>

lemma sharing_ok_move:
  assumes "sharing_ok s" "\<And>i. holds i x = holds i (sh_extract s)" "extract_ok x (sh_slots s)"
    and "\<And>i a. storing i x \<Longrightarrow> a \<in> set (sh_adders s) \<Longrightarrow> slot_of a = i \<Longrightarrow> is_reading (ad_pc a) \<Longrightarrow> storing i (sh_extract s)"
    and "\<And>t. t \<noteq> [] \<Longrightarrow> in_hand t x (sh_slots s) = in_hand t (sh_extract s) (sh_slots s)"
  shows "sharing_ok (s\<lparr>sh_extract := x\<rparr>)"
  using assms slot_ok_extract [OF _ assms(2)] adder_ok_extract
  by (auto simp: sharing_ok_def ledger_def)

lemma extract_ok_next: "extract_ok (next_slot i) slots" "holds j (next_slot i) = False" "storing j (next_slot i) = False"
    "in_hand t (next_slot i) slots = 0"
  by (simp_all add: next_slot_def)

lemma is_reading_active: "is_reading pc \<Longrightarrow> is_active pc"
  by (cases pc) simp_all

lemma sharing_ok_copy:
  assumes "sharing_ok s" "sh_extract s = XCopy i n c frames"
  shows "sharing_ok (run_extract s)"
proof -
  let ?e = "sh_slots s ! i"
  note d = sharing_okD [OF assms(1)]
  have x: "i < kMaxStackTraces" "n = sl_num ?e" "0 < c" "length frames \<le> n" "frames = take (length frames) (sl_buffer ?e)"
    using d(4) assms(2) by simp_all
  have "n \<le> length (sl_buffer ?e)" using d(2) [OF x(1)] x(2) by (simp add: slot_ok_def)
  show ?thesis
  proof (cases "length frames < n")
    case True
    then have "sharing_ok (s\<lparr>sh_extract := XCopyCode i n c frames (cf_lineno (sl_buffer ?e ! length frames))\<rparr>)"
      by (intro sharing_ok_move [OF assms(1)]) (use assms(2) x in simp_all)
    then show ?thesis using True assms(2) by (simp add: run_extract_def extract_step_def)
  next
    case False
    then have "frames = sl_trace ?e" using x by (simp add: sl_trace_def)
    then have "sharing_ok (s\<lparr>sh_extract := XSpin i c frames\<rparr>)"
      by (intro sharing_ok_move [OF assms(1)]) (use assms(2) x in simp_all)
    then show ?thesis using False assms(2) by (simp add: run_extract_def extract_step_def)
  qed
qed

lemma sharing_ok_copy_code:
  assumes "sharing_ok s" "sh_extract s = XCopyCode i n c frames line"
  shows "sharing_ok (run_extract s)"
proof -
  let ?e = "sh_slots s ! i"
  note d = sharing_okD [OF assms(1)]
  have x: "i < kMaxStackTraces" "n = sl_num ?e" "0 < c" "length frames < n" "frames = take (length frames) (sl_buffer ?e)"
    "CallFrame line (cf_code (sl_buffer ?e ! length frames)) = sl_buffer ?e ! length frames"
    using d(4) assms(2) by simp_all
  have len: "n \<le> length (sl_buffer ?e)" using d(2) [OF x(1)] x(2) by (simp add: slot_ok_def)
  have "frames @ [sl_buffer ?e ! length frames] = take (Suc (length frames)) (sl_buffer ?e)"
    using x(4,5) len by (simp add: take_Suc_conv_app_nth)
  then have "sharing_ok (s\<lparr>sh_extract := XCopy i n c (frames @ [sl_buffer ?e ! length frames])\<rparr>)"
    by (intro sharing_ok_move [OF assms(1)]) (use assms(2) x(1-5) len in simp_all)
  then show ?thesis using assms(2) x(6) by (simp add: run_extract_def extract_step_def)
qed

lemma sharing_ok_spin:
  assumes "sharing_ok s" "sh_extract s = XSpin i c frames"
  shows "sharing_ok (run_extract s)"
proof -
  let ?e = "sh_slots s ! i"
  note d = sharing_okD [OF assms(1)]
  have x: "i < kMaxStackTraces" "0 < c" "frames = sl_trace ?e" using d(4) assms(2) by simp_all
  show ?thesis
  proof (cases "sl_active ?e = 0")
    case True
    then have "\<forall>a \<in> set (sh_adders s). \<not> at_slot i is_active a"
      using d(2) [OF x(1)] by (simp add: slot_ok_def num_0)
    then have "sharing_ok (s\<lparr>sh_extract := XStore i c frames\<rparr>)"
      by (intro sharing_ok_move [OF assms(1)]) (use assms(2) x is_reading_active in \<open>auto simp: at_slot_def\<close>)
    then show ?thesis using True assms(2) by (simp add: run_extract_def extract_step_def)
  next
    case False
    then have "run_extract s = s\<lparr>sh_extract := XSpin i c frames\<rparr>"
      using assms(2) by (simp add: run_extract_def extract_step_def)
    also have "\<dots> = s" by (simp flip: assms(2))
    finally show ?thesis using assms(1) by simp
  qed
qed

lemma sharing_ok_seek:
  assumes "sharing_ok s" "sh_extract s = XIdle \<or> sh_extract s = XLoad i \<or> sh_extract s = XNum i"
  shows "sharing_ok (run_extract s)"
proof -
  note d = sharing_okD [OF assms(1)]
  have "sharing_ok (s\<lparr>sh_extract := x\<rparr>)" if "x = fst (extract_step (sh_extract s) (sh_slots s) (sh_taken s))" for x
  proof (rule sharing_ok_move [OF assms(1)])
    show "extract_ok x (sh_slots s)"
      using that assms(2) d(4) d(2) [of i] extract_ok_next(1)
      by (auto simp: extract_step_def slot_ok_def kMaxStackTraces_def)
  qed (use that assms(2) in \<open>auto simp: extract_step_def extract_ok_next split: if_splits\<close>)
  moreover have "run_extract s = s\<lparr>sh_extract := fst (extract_step (sh_extract s) (sh_slots s) (sh_taken s))\<rparr>"
    using assms(2) by (auto simp: run_extract_def extract_step_def)
  ultimately show ?thesis by simp
qed

text \<open>The two steps that write a slot's count: taking the slot and giving it back.\<close>

lemma knows_count [simp]: "knows pc t (e\<lparr>sl_count := c\<rparr>) = knows pc t e"
  by (cases pc) (simp_all add: sl_trace_def)

lemma sharing_ok_count:
  assumes "sharing_ok s" "i < kMaxStackTraces" "\<And>j. j \<noteq> i \<Longrightarrow> holds j x = holds j (sh_extract s)"
    and "slot_ok i ((sh_slots s ! i)\<lparr>sl_count := c\<rparr>) (sh_adders s) x" "\<And>j. \<not> storing j x"
    and "\<And>a. a \<in> set (sh_adders s) \<Longrightarrow> slot_of a = i \<Longrightarrow> is_reading (ad_pc a) \<Longrightarrow> c \<noteq> 0"
    and "extract_ok x ((sh_slots s)[i := (sh_slots s ! i)\<lparr>sl_count := c\<rparr>])"
    and "\<And>t. t \<noteq> [] \<Longrightarrow> value_in t ((sh_slots s ! i)\<lparr>sl_count := c\<rparr>) + dict_get_default taken t 0 +
        in_hand t x ((sh_slots s)[i := (sh_slots s ! i)\<lparr>sl_count := c\<rparr>]) =
      value_in t (sh_slots s ! i) + dict_get_default (sh_taken s) t 0 + in_hand t (sh_extract s) (sh_slots s)"
  shows "sharing_ok (s\<lparr>sh_extract := x, sh_slots := (sh_slots s)[i := (sh_slots s ! i)\<lparr>sl_count := c\<rparr>], sh_taken := taken\<rparr>)"
proof -
  let ?e = "(sh_slots s ! i)\<lparr>sl_count := c\<rparr>"
  let ?slots = "(sh_slots s)[i := ?e]"
  note d = sharing_okD [OF assms(1)]
  have "slot_ok j (?slots ! j) (sh_adders s) x" if "j < kMaxStackTraces" for j
    using that d(1) assms(2,4) slot_ok_extract [OF d(2) assms(3)] by (cases "j = i") auto
  moreover have "adder_ok a (?slots ! slot_of a) (sh_adders s) x" if a: "a \<in> set (sh_adders s)" for a
    using d(1) d(3) [OF a] assms(2,5) assms(6) [OF a]
    by (cases "slot_of a = i") (auto simp: adder_ok_def stable_def)
  moreover have "ledger t (s\<lparr>sh_extract := x, sh_slots := ?slots, sh_taken := taken\<rparr>)" if t: "t \<noteq> []" for t
    using assms(8) [OF t] d(5) [OF t] assms(2) d(1) by (simp add: ledger_def in_slots_def sum_list_update)
  ultimately show ?thesis using assms(7) d(1) by (simp add: sharing_ok_def)
qed

lemma sharing_ok_lock:
  assumes "sharing_ok s" "sh_extract s = XLock i n"
  shows "sharing_ok (run_extract s)"
proof -
  let ?e = "sh_slots s ! i"
  note d = sharing_okD [OF assms(1)]
  have x: "i < kMaxStackTraces" "0 < sl_count ?e" "n = sl_num ?e" using d(4) assms(2) by simp_all
  have ok: "slot_ok i ?e (sh_adders s) (XLock i n)" using d(2) [OF x(1)] assms(2) by simp
  have "sharing_ok (s\<lparr>sh_extract := XCopy i n (sl_count ?e) [], sh_slots := (sh_slots s)[i := ?e\<lparr>sl_count := -1\<rparr>],
      sh_taken := sh_taken s\<rparr>)"
  proof (rule sharing_ok_count [OF assms(1) x(1)])
    show "slot_ok i (?e\<lparr>sl_count := -1\<rparr>) (sh_adders s) (XCopy i n (sl_count ?e) [])"
      using ok x(2) slot_ok_free [OF ok x(2)] by (auto simp: slot_ok_def)
  qed (use assms(2) x d(1) in \<open>auto simp: value_in_pos sl_trace_def\<close>)
  then show ?thesis using assms(2) by (simp add: run_extract_def extract_step_def kTraceCountLocked_def)
qed

lemma sharing_ok_store:
  assumes "sharing_ok s" "sh_extract s = XStore i c frames"
  shows "sharing_ok (run_extract s)"
proof -
  let ?e = "sh_slots s ! i"
  let ?taken = "if frames \<noteq> [] \<and> 0 < c then multiset_add frames c (sh_taken s) else sh_taken s"
  note d = sharing_okD [OF assms(1)]
  have x: "i < kMaxStackTraces" "0 < c" "frames = sl_trace ?e" using d(4) assms(2) by simp_all
  have ok: "slot_ok i ?e (sh_adders s) (XStore i c frames)" using d(2) [OF x(1)] assms(2) by simp
  have held: "writers i (sh_adders s) = 0" "sl_count ?e = -1" using slot_ok_held [OF ok] by simp_all
  have "sharing_ok (s\<lparr>sh_extract := next_slot i, sh_slots := (sh_slots s)[i := ?e\<lparr>sl_count := 0\<rparr>], sh_taken := ?taken\<rparr>)"
  proof (rule sharing_ok_count [OF assms(1) x(1)])
    show "slot_ok i (?e\<lparr>sl_count := 0\<rparr>) (sh_adders s) (next_slot i)"
      using ok held extract_ok_next(2) by (auto simp: slot_ok_def)
    show "(0 :: int) \<noteq> 0" if "a \<in> set (sh_adders s)" "slot_of a = i" "is_reading (ad_pc a)" for a
      using d(3) [OF that(1)] that assms(2) by (simp add: adder_ok_def stable_def)
  qed (use assms(2) x held in \<open>auto simp: extract_ok_next dict_get_default_multiset_add\<close>)
  then show ?thesis using assms(2) by (simp add: run_extract_def extract_step_def)
qed

lemma sharing_ok_run_extract: "sharing_ok s \<Longrightarrow> sharing_ok (run_extract s)"
  using sharing_ok_seek sharing_ok_lock sharing_ok_copy sharing_ok_copy_code sharing_ok_spin sharing_ok_store
  by (cases "sh_extract s") blast+

lemma sharing_ok_start:
  assumes "sharing_ok s" "length t \<le> kMaxFramesToCapture"
  shows "sharing_ok (start_adder t s)"
proof -
  have w: "num (at_slot i Q) (sh_adders s @ [Adder AInc t 0]) = num (at_slot i Q) (sh_adders s)" if "\<not> Q AInc" for i Q
    using that by (simp add: num_append num_Cons at_slot_def)
  have a: "added t' (sh_adders s @ [Adder AInc t 0]) = added t' (sh_adders s)" for t'
    by (simp add: added_def num_append num_Cons)
  have "slot_ok i e (sh_adders s @ [Adder AInc t 0]) x = slot_ok i e (sh_adders s) x"
    "stable i e (sh_adders s @ [Adder AInc t 0]) x = stable i e (sh_adders s) x" for i e x
    using w [of is_active i] w [of is_writing i] by (simp_all add: slot_ok_def stable_def writers_def)
  then show ?thesis using assms a by (auto simp: sharing_ok_def start_adder_def adder_ok_def ledger_def)
qed

lemma sharing_ok_init:
  "sharing_ok sharing_init"
  by (simp add: sharing_init_def sharing_ok_def slot_ok_def writers_def ledger_def added_def in_slots_def value_in_def
      sum_list_replicate dict_get_default_def)

interpretation sharing_steps: step_invariant share_step sharing_ok
  by unfold_locales (erule share_stepE, auto intro: sharing_ok_start sharing_ok_run_adder sharing_ok_run_extract)

lemmas sharing_ok_reach = sharing_steps.inv_reachable [OF _ sharing_ok_init]

end
