(* ===== verification/NativeRaceSpec.thy ===== *)
theory NativeRaceSpec
  imports NativeRace
begin

text \<open>
  What the concurrent table promises: every addition that reports success is found exactly once,
  in a slot, in the hands of the extraction, or among what it extracted; the extraction only
  waits for additions that can go on; and an addition that runs without interference is the
  sequential one of theory \<open>NativeTraces\<close>.
\<close>

section \<open>An addition on its own\<close>

text \<open>The steps of one \<open>Add\<close> with nothing in between, and where they lead.\<close>

fun solo :: "(nat \<Rightarrow> bool) \<Rightarrow> nat \<Rightarrow> adder \<times> slot list \<Rightarrow> (adder \<times> slot list) option" where
  "solo ok 0 s = Some s"
| "solo ok (Suc m) (a, slots) = (case adder_step (ok (ad_probe a)) a slots of None \<Rightarrow> None | Some s \<Rightarrow> solo ok m s)"

definition leads :: "(nat \<Rightarrow> bool) \<Rightarrow> adder \<times> slot list \<Rightarrow> adder \<times> slot list \<Rightarrow> bool" where
  "leads ok s s' \<longleftrightarrow> (\<exists>m. solo ok m s = Some s')"

lemma leads_refl [simp]: "leads ok s s"
  by (auto simp: leads_def intro: exI [of _ 0])

lemma leads_step: "adder_step (ok (ad_probe a)) a slots = Some s \<Longrightarrow> leads ok s s' \<Longrightarrow> leads ok (a, slots) s'"
  unfolding leads_def by (metis option.simps(5) solo.simps(2))

lemma leads_trans [trans]: "leads ok s s' \<Longrightarrow> leads ok s' s'' \<Longrightarrow> leads ok s s''"
proof -
  have "solo ok m s = Some s' \<Longrightarrow> leads ok s' s'' \<Longrightarrow> leads ok s s''" for m
  proof (induction m arbitrary: s)
    case (Suc m)
    then show ?case by (cases s) (auto split: option.splits intro: leads_step)
  qed simp
  then show "leads ok s s' \<Longrightarrow> leads ok s' s'' \<Longrightarrow> leads ok s s''" by (auto simp: leads_def)
qed

text \<open>A step whose slot is in the table: the general step and the two loops over the frames.\<close>

abbreviation slot_index :: "call_trace \<Rightarrow> nat \<Rightarrow> nat" where
  "slot_index t p \<equiv> probe (CalculateHash t) p"

lemma leads_access:
  assumes "access (ok p) (Adder pc t p) (slots ! slot_index t p) = Some (a, e)"
    and "leads ok (a, slots[slot_index t p := e]) s'"
  shows "leads ok (Adder pc t p, slots) s'"
  using leads_step [of ok "Adder pc t p" slots] assms by (simp add: adder_step_def slot_of_def)

lemma leads_one:
  assumes "access (ok p) (Adder pc t p) (slots ! slot_index t p) = Some (a, e)" "slots' = slots[slot_index t p := e]"
  shows "leads ok (Adder pc t p, slots) (a, slots')"
  by (rule leads_access [where a = a and e = e]) (simp_all add: assms)

lemma leads_quiet:
  assumes "access (ok p) (Adder pc t p) (slots ! slot_index t p) = Some (a, slots ! slot_index t p)"
  shows "leads ok (Adder pc t p, slots) (a, slots)"
  by (rule leads_one [where e = "slots ! slot_index t p"]) (simp_all add: assms)

lemma leads_write:
  assumes "length slots = kMaxStackTraces" "length (sl_buffer (slots ! slot_index t p)) = kMaxFramesToCapture"
    and "length t \<le> kMaxFramesToCapture" "j \<le> length t"
    and "take j (sl_buffer (slots ! slot_index t p)) = take j t"
  shows "\<exists>buf. take (length t) buf = t \<and> leads ok (Adder (AWrite j) t p, slots)
      (Adder ANum t p, slots[slot_index t p := (slots ! slot_index t p)\<lparr>sl_buffer := buf\<rparr>])"
  using assms
proof (induction "length t - j" arbitrary: j slots)
  case 0
  let ?i = "slot_index t p"
  have j: "j = length t" using 0 by simp
  have "leads ok (Adder (AWrite j) t p, slots) (Adder ANum t p, slots)"
    by (rule leads_access [where a = "Adder ANum t p" and e = "slots ! ?i"]) (simp_all add: access_def j)
  moreover have "take (length t) (sl_buffer (slots ! ?i)) = t" using 0(6) j by simp
  moreover have "slots[?i := (slots ! ?i)\<lparr>sl_buffer := sl_buffer (slots ! ?i)\<rparr>] = slots" by simp
  ultimately show ?case by metis
next
  case (Suc n)
  let ?i = "slot_index t p"
  let ?buf = "sl_buffer (slots ! ?i)"
  let ?half = "(slots ! ?i)\<lparr>sl_buffer := ?buf[j := CallFrame (cf_lineno (t ! j)) (cf_code (?buf ! j))]\<rparr>"
  let ?e = "(slots ! ?i)\<lparr>sl_buffer := ?buf[j := t ! j]\<rparr>"
  have i: "?i < length slots" using Suc.prems(1) probe_less by simp
  have j: "j < length t" "n = length t - Suc j" using Suc.hyps(2) by simp_all
  have "take (Suc j) (sl_buffer (slots[?i := ?e] ! ?i)) = take (Suc j) t"
    using take_write [OF Suc.prems(5)] i j(1) Suc.prems(2,3) by simp
  then obtain buf where b: "take (length t) buf = t" "leads ok (Adder (AWrite (Suc j)) t p, slots[?i := ?e])
      (Adder ANum t p, slots[?i := (slots ! ?i)\<lparr>sl_buffer := buf\<rparr>])"
    using Suc.hyps(1) [OF j(2), of "slots[?i := ?e]"] Suc.prems(1-3) i j(1) by auto
  have "leads ok (Adder (AWrite j) t p, slots) (Adder (AWriteCode j) t p, slots[?i := ?half])"
    by (rule leads_one [where e = ?half]) (simp_all add: access_def j(1))
  also have "leads ok \<dots> (Adder (AWrite (Suc j)) t p, slots[?i := ?e])"
    by (rule leads_one [where e = ?e]) (use i j(1) Suc.prems(2,3) in \<open>simp_all add: access_def\<close>)
  also note b(2)
  finally show ?case using b(1) by blast
qed

lemma leads_compare:
  assumes "length (sl_buffer (slots ! slot_index t p)) = kMaxFramesToCapture" "sl_num (slots ! slot_index t p) = length t"
    and "length t \<le> kMaxFramesToCapture" "j \<le> length t" "take j (sl_buffer (slots ! slot_index t p)) = take j t"
  shows "leads ok (Adder (ACompare j) t p, slots)
      (Adder (if t = sl_trace (slots ! slot_index t p) then AReload else ANext) t p, slots)"
  using assms
proof (induction "length t - j" arbitrary: j)
  case 0
  then have "j = length t" "sl_trace (slots ! slot_index t p) = t" by (simp_all add: sl_trace_def)
  note at_end = this
  show ?case
    by (rule leads_access [where a = "Adder AReload t p" and e = "slots ! slot_index t p"])
      (simp_all add: access_def at_end)
next
  case (Suc n)
  let ?e = "slots ! slot_index t p"
  have j: "j < length t" "n = length t - Suc j" using Suc.hyps(2) by simp_all
  show ?case
  proof (cases "t ! j = sl_buffer ?e ! j")
    case True
    have "take (Suc j) (sl_buffer ?e) = take (Suc j) t"
      using take_match [OF Suc.prems(5) _ j(1) True] j(1) Suc.prems(1,3) by simp
    with Suc.hyps(1) [OF j(2)] Suc.prems(1-3) j(1) have "leads ok (Adder (ACompare (Suc j)) t p, slots)
        (Adder (if t = sl_trace ?e then AReload else ANext) t p, slots)" by simp
    moreover have "access (ok p) (Adder (ACompare j) t p) ?e = Some (Adder (ACompareCode j) t p, ?e)"
      "access (ok p) (Adder (ACompareCode j) t p) ?e = Some (Adder (ACompare (Suc j)) t p, ?e)"
      by (simp_all add: access_def True j(1))
    ultimately show ?thesis by (simp add: leads_access)
  next
    case False
    then have "t \<noteq> sl_trace ?e" using j(1) Suc.prems(2) by (metis nth_take sl_trace_def)
    have "leads ok (Adder (ACompare j) t p, slots) (Adder ANext t p, slots)"
    proof (cases "cf_lineno (t ! j) = cf_lineno (sl_buffer ?e ! j)")
      case same: True
      then have "cf_code (t ! j) \<noteq> cf_code (sl_buffer ?e ! j)" using False call_frame.expand by blast
      then have "access (ok p) (Adder (ACompareCode j) t p) ?e = Some (Adder ANext t p, ?e)" by (simp add: access_def)
      moreover have "access (ok p) (Adder (ACompare j) t p) ?e = Some (Adder (ACompareCode j) t p, ?e)"
        by (simp add: access_def same j(1))
      ultimately show ?thesis by (simp add: leads_access)
    next
      case False
      then show ?thesis by (intro leads_quiet) (simp add: access_def j(1))
    qed
    then show ?thesis using \<open>t \<noteq> sl_trace ?e\<close> by simp
  qed
qed

text \<open>The sequential table that the slots stand for, and slots of the right sizes.\<close>

definition entry_of :: "slot \<Rightarrow> trace_entry" where
  "entry_of e = \<lparr>e_frames = sl_trace e, e_count = sl_count e\<rparr>"

definition table_of :: "slot list \<Rightarrow> trace_table" where
  "table_of slots = map entry_of slots"

definition sized :: "slot list \<Rightarrow> bool" where
  "sized slots \<longleftrightarrow> length slots = kMaxStackTraces \<and>
     (\<forall>e \<in> set slots. length (sl_buffer e) = kMaxFramesToCapture \<and> sl_num e \<le> kMaxFramesToCapture)"

lemma sizedD:
  "sized slots \<Longrightarrow> length slots = kMaxStackTraces"
  "sized slots \<Longrightarrow> length (sl_buffer (slots ! slot_index t p)) = kMaxFramesToCapture"
  "sized slots \<Longrightarrow> sl_num (slots ! slot_index t p) \<le> kMaxFramesToCapture"
  using probe_less by (auto simp: sized_def)

lemma table_of_nth: "sized slots \<Longrightarrow> table_of slots ! slot_index t p = entry_of (slots ! slot_index t p)"
  by (simp add: table_of_def sizedD(1) probe_less)

text \<open>One active update more, as seen by an addition at its slot.\<close>

definition entered :: "call_trace \<Rightarrow> nat \<Rightarrow> slot list \<Rightarrow> slot list" where
  "entered t p slots = slots[slot_index t p := (slots ! slot_index t p)\<lparr>sl_active := sl_active (slots ! slot_index t p) + 1\<rparr>]"

lemma entered_nth: "sized slots \<Longrightarrow>
    entered t p slots ! slot_index t p = (slots ! slot_index t p)\<lparr>sl_active := sl_active (slots ! slot_index t p) + 1\<rparr>"
  by (simp add: entered_def sizedD(1) probe_less)

lemma entered_update: "(entered t p slots)[slot_index t p := e] = slots[slot_index t p := e]"
  by (simp add: entered_def)

lemma leads_enter: "p < kMaxStackTraces \<Longrightarrow> leads ok (Adder AInc t p, slots) (Adder ALoad t p, entered t p slots)"
  by (rule leads_one) (simp_all add: access_def entered_def)

lemma leads_next: "sized slots \<Longrightarrow> leads ok (Adder ANext t p, entered t p slots) (Adder AInc t (p + 1), slots)"
  by (rule leads_one [where e = "slots ! slot_index t p"]) (simp_all add: access_def entered_nth entered_update)

text \<open>The two successful outcomes at a slot.\<close>

lemma leads_reserve:
  assumes "sized slots" "length t \<le> kMaxFramesToCapture" "ok p" "sl_count (slots ! slot_index t p) = 0"
  shows "\<exists>e. leads ok (Adder ALoad t p, entered t p slots) (Adder (ADone True) t p, slots[slot_index t p := e]) \<and>
    entry_of e = \<lparr>e_frames = t, e_count = 1\<rparr>"
proof -
  let ?i = "slot_index t p"
  let ?e = "slots ! ?i"
  have i: "?i < length slots" using assms(1) sizedD(1) probe_less by simp
  note n = entered_nth [OF assms(1)] and u = entered_update
  obtain buf where buf: "take (length t) buf = t" "leads ok (Adder (AWrite 0) t p, slots[?i := ?e\<lparr>sl_count := -1\<rparr>])
      (Adder ANum t p, slots[?i := ?e\<lparr>sl_count := -1, sl_buffer := buf\<rparr>])"
    using leads_write [of "slots[?i := ?e\<lparr>sl_count := -1\<rparr>]" t p 0 ok] sizedD [OF assms(1)] assms(2) i by auto
  have "leads ok (Adder ALoad t p, entered t p slots) (Adder AReserve t p, entered t p slots)"
    by (rule leads_quiet) (simp add: access_def n assms(4))
  also have "leads ok \<dots> (Adder AEarly t p, slots[?i := ?e\<lparr>sl_active := sl_active ?e + 1, sl_count := -1\<rparr>])"
    by (rule leads_one) (simp_all add: access_def n u assms(3,4) kTraceCountLocked_def)
  also have "leads ok \<dots> (Adder (AWrite 0) t p, slots[?i := ?e\<lparr>sl_count := -1\<rparr>])"
    by (rule leads_one) (simp_all add: access_def i)
  also note buf(2)
  also have "leads ok (Adder ANum t p, slots[?i := ?e\<lparr>sl_count := -1, sl_buffer := buf\<rparr>])
      (Adder APublish t p, slots[?i := ?e\<lparr>sl_count := -1, sl_buffer := buf, sl_num := length t\<rparr>])"
    by (rule leads_one) (simp_all add: access_def i)
  also have "leads ok \<dots> (Adder (ADone True) t p, slots[?i := ?e\<lparr>sl_count := 1, sl_buffer := buf, sl_num := length t\<rparr>])"
    by (rule leads_one) (simp_all add: access_def i)
  finally show ?thesis
    by (intro exI [of _ "?e\<lparr>sl_count := 1, sl_buffer := buf, sl_num := length t\<rparr>"])
      (simp add: entry_of_def sl_trace_def buf(1))
qed

text \<open>From the second load of the count: the exchange, and the end or the next slot.\<close>

lemma leads_exchange:
  assumes "sized slots" "sl_count (slots ! slot_index t p) \<noteq> -1"
  shows "leads ok (Adder AReload t p, entered t p slots)
    (if ok p
     then (Adder (ADone True) t p, slots[slot_index t p := (slots ! slot_index t p)\<lparr>sl_count := sl_count (slots ! slot_index t p) + 1\<rparr>])
     else (Adder ANext t p, entered t p slots))"
proof -
  let ?i = "slot_index t p"
  let ?e = "slots ! ?i"
  let ?s = "entered t p slots"
  have i: "?i < length slots" using assms(1) sizedD(1) probe_less by simp
  note n = entered_nth [OF assms(1)] and u = entered_update
  have load: "leads ok (Adder AReload t p, ?s) (Adder (ABump (sl_count ?e)) t p, ?s)"
    by (rule leads_quiet) (simp add: access_def n assms(2) kTraceCountLocked_def)
  show ?thesis
  proof (cases "ok p")
    case True
    note load
    also have "leads ok (Adder (ABump (sl_count ?e)) t p, ?s)
        (Adder ABumped t p, slots[?i := ?e\<lparr>sl_active := sl_active ?e + 1, sl_count := sl_count ?e + 1\<rparr>])"
      by (rule leads_one) (simp_all add: access_def n u True)
    also have "leads ok \<dots> (Adder (ADone True) t p, slots[?i := ?e\<lparr>sl_count := sl_count ?e + 1\<rparr>])"
      by (rule leads_one) (simp_all add: access_def i)
    finally show ?thesis using True by simp
  next
    case False
    have "leads ok (Adder (ABump (sl_count ?e)) t p, ?s) (Adder ANext t p, ?s)"
      by (rule leads_quiet) (simp add: access_def n False)
    with load False show ?thesis using leads_trans by simp
  qed
qed

lemma leads_bump:
  assumes "sized slots" "length t \<le> kMaxFramesToCapture"
    and "sl_count (slots ! slot_index t p) \<noteq> 0" "sl_count (slots ! slot_index t p) \<noteq> -1"
  shows "leads ok (Adder ALoad t p, entered t p slots)
    (if t = sl_trace (slots ! slot_index t p) \<and> ok p
     then (Adder (ADone True) t p, slots[slot_index t p := (slots ! slot_index t p)\<lparr>sl_count := sl_count (slots ! slot_index t p) + 1\<rparr>])
     else (Adder ANext t p, entered t p slots))"
proof -
  let ?i = "slot_index t p"
  let ?e = "slots ! ?i"
  let ?s = "entered t p slots"
  note n = entered_nth [OF assms(1)]
  have start: "leads ok (Adder ALoad t p, ?s) (Adder AMatch t p, ?s)"
    by (rule leads_quiet) (simp add: access_def n assms(3,4) kTraceCountLocked_def)
  show ?thesis
  proof (cases "sl_num ?e = length t")
    case False
    have "length (sl_trace ?e) = sl_num ?e" using sizedD(2,3) [OF assms(1), of t p] by (simp add: sl_trace_def)
    then have "t \<noteq> sl_trace ?e" using False by metis
    moreover have "leads ok (Adder AMatch t p, ?s) (Adder ANext t p, ?s)"
      by (rule leads_quiet) (use False in \<open>simp add: access_def n\<close>)
    ultimately show ?thesis using start leads_trans by simp
  next
    case True
    have "leads ok (Adder AMatch t p, ?s) (Adder (ACompare 0) t p, ?s)"
      by (rule leads_quiet) (simp add: access_def n True)
    also have "leads ok \<dots> (Adder (if t = sl_trace (?s ! ?i) then AReload else ANext) t p, ?s)"
      by (rule leads_compare) (simp_all add: n True assms(2) sizedD(2) [OF assms(1)])
    finally have cmp: "leads ok (Adder ALoad t p, ?s) (Adder (if t = sl_trace ?e then AReload else ANext) t p, ?s)"
      using leads_trans [OF start] by (simp add: n sl_trace_def)
    show ?thesis
    proof (cases "t = sl_trace ?e")
      case same: True
      then have "leads ok (Adder ALoad t p, ?s) (Adder AReload t p, ?s)" using cmp by simp
      from leads_trans [OF this leads_exchange [OF assms(1,4)]] same show ?thesis by (simp only: simp_thms)
    qed (use cmp in simp)
  qed
qed

lemma table_of_update: "table_of (slots[i := e]) = (table_of slots)[i := entry_of e]"
  by (simp add: table_of_def map_update)

lemma entry_of_simps: "e_count (entry_of e) = sl_count e" "e_frames (entry_of e) = sl_trace e"
    "(entry_of e)\<lparr>e_frames := t, e_count := c\<rparr> = \<lparr>e_frames = t, e_count = c\<rparr>"
  by (simp_all add: entry_of_def)

text \<open>What an addition does at one slot: the entry it leaves there, or \<open>None\<close> when it goes on.\<close>

definition slot_outcome :: "(nat \<Rightarrow> bool) \<Rightarrow> call_trace \<Rightarrow> nat \<Rightarrow> slot \<Rightarrow> trace_entry option" where
  "slot_outcome ok t p e =
     (if sl_count e = 0 then if ok p then Some \<lparr>e_frames = t, e_count = 1\<rparr> else None
      else if sl_count e \<noteq> -1 \<and> t = sl_trace e \<and> ok p then Some ((entry_of e)\<lparr>e_count := sl_count e + 1\<rparr>)
      else None)"

lemma leads_free_slot:
  assumes "sized slots" "length t \<le> kMaxFramesToCapture" "sl_count (slots ! slot_index t p) = 0"
  shows "case slot_outcome ok t p (slots ! slot_index t p) of
      Some en \<Rightarrow> \<exists>e. leads ok (Adder ALoad t p, entered t p slots) (Adder (ADone True) t p, slots[slot_index t p := e]) \<and>
        entry_of e = en
    | None \<Rightarrow> leads ok (Adder ALoad t p, entered t p slots) (Adder ANext t p, entered t p slots)"
proof (cases "ok p")
  case ok: True
  with leads_reserve [where ok = ok and p = p, OF assms(1,2) ok assms(3)] assms(3) show ?thesis
    by (simp add: slot_outcome_def)
next
  case False
  have "leads ok (Adder ALoad t p, entered t p slots) (Adder AReserve t p, entered t p slots)"
    by (rule leads_quiet) (simp add: access_def entered_nth [OF assms(1)] assms(3))
  also have "leads ok \<dots> (Adder ANext t p, entered t p slots)"
    by (rule leads_quiet) (simp add: access_def False)
  finally show ?thesis using assms(3) False by (simp add: slot_outcome_def)
qed

lemma leads_taken_slot:
  assumes "sized slots" "length t \<le> kMaxFramesToCapture" "sl_count (slots ! slot_index t p) \<noteq> 0"
  shows "case slot_outcome ok t p (slots ! slot_index t p) of
      Some en \<Rightarrow> \<exists>e. leads ok (Adder ALoad t p, entered t p slots) (Adder (ADone True) t p, slots[slot_index t p := e]) \<and>
        entry_of e = en
    | None \<Rightarrow> leads ok (Adder ALoad t p, entered t p slots) (Adder ANext t p, entered t p slots)"
proof (cases "sl_count (slots ! slot_index t p) = -1")
  case True
  have "leads ok (Adder ALoad t p, entered t p slots) (Adder ANext t p, entered t p slots)"
    by (rule leads_quiet) (simp add: access_def entered_nth [OF assms(1)] True kTraceCountLocked_def)
  then show ?thesis using True by (simp add: slot_outcome_def)
next
  case False
  let ?e = "slots ! slot_index t p"
  note bump = leads_bump [OF assms False, of ok]
  show ?thesis
  proof (cases "t = sl_trace ?e \<and> ok p")
    case True
    have "entry_of (?e\<lparr>sl_count := sl_count ?e + 1\<rparr>) = (entry_of ?e)\<lparr>e_count := sl_count ?e + 1\<rparr>"
      by (simp add: entry_of_def sl_trace_def)
    moreover have "slot_outcome ok t p ?e = Some ((entry_of ?e)\<lparr>e_count := sl_count ?e + 1\<rparr>)"
      unfolding slot_outcome_def using True False assms(3) by simp
    ultimately show ?thesis using bump unfolding if_P [OF True] by auto
  next
    case differs: False
    have "slot_outcome ok t p ?e = None"
      unfolding slot_outcome_def using differs assms(3) by simp
    then show ?thesis using bump unfolding if_not_P [OF differs] by simp
  qed
qed

lemma solo_add_from:
  assumes "sized slots" "length t \<le> kMaxFramesToCapture"
  shows "add_from ok t (CalculateHash t) p (table_of slots) = (r, table') \<Longrightarrow>
    \<exists>p' slots'. leads ok (Adder AInc t p, slots) (Adder (ADone r) t p', slots') \<and> table_of slots' = table'"
proof (induction p rule: probe_induct)
  case (finish p)
  then have r: "r = False" "table' = table_of slots" by (simp_all add: add_from.simps)
  have "leads ok (Adder AInc t p, slots) (Adder (ADone False) t p, slots)"
    by (rule leads_quiet) (simp add: access_def finish(1))
  then show ?case unfolding r by blast
next
  case (step p)
  let ?i = "slot_index t p"
  let ?e = "slots ! ?i"
  note enter = leads_enter [OF step.hyps, of ok t slots]
  have nth: "table_of slots ! ?i = entry_of ?e" by (rule table_of_nth [OF assms(1)])
  have add: "(r, table') = (case slot_outcome ok t p ?e of
       Some en \<Rightarrow> (True, (table_of slots)[?i := en])
     | None \<Rightarrow> add_from ok t (CalculateHash t) (p + 1) (table_of slots))"
    using step.prems [symmetric] step.hyps
    unfolding add_from_unfold [of ok t "CalculateHash t" p] Let_def nth entry_of_simps kTraceCountLocked_def
    by (auto simp: slot_outcome_def)
  note slot = leads_free_slot [OF assms, of p ok] leads_taken_slot [OF assms, of p ok]
  show ?case
  proof (cases "slot_outcome ok t p ?e")
    case None
    then have pass: "leads ok (Adder ALoad t p, entered t p slots) (Adder ANext t p, entered t p slots)"
      using slot by (cases "sl_count ?e = 0") simp_all
    have "add_from ok t (CalculateHash t) (p + 1) (table_of slots) = (r, table')"
      using add None by simp
    from step.IH [OF this] obtain p' slots' where
      fin: "leads ok (Adder AInc t (p + 1), slots) (Adder (ADone r) t p', slots')" "table_of slots' = table'" by blast
    note enter
    also note pass
    also note leads_next [OF assms(1)]
    also note fin(1)
    finally show ?thesis using fin(2) by blast
  next
    case (Some en)
    then obtain e where fin: "leads ok (Adder ALoad t p, entered t p slots) (Adder (ADone True) t p, slots[?i := e])"
      and e: "entry_of e = en"
      using slot by (cases "sl_count ?e = 0") auto
    have r: "r = True" and t: "table' = (table_of slots)[?i := en]" using add Some by simp_all
    have "table_of (slots[?i := e]) = table'" by (simp add: t e table_of_update)
    then show ?thesis using leads_trans [OF enter fin] unfolding r by blast
  qed
qed

text \<open>
  C36: an addition of the concurrent table that runs without interference ends after finitely
  many steps, with the result and the table of the sequential one.
\<close>

theorem undisturbed_add_sequential:
  assumes "sized slots" "length t \<le> kMaxFramesToCapture"
  shows "\<exists>m p' slots'. solo ok m (Adder AInc t 0, slots) = Some (Adder (ADone (fst (table_add ok t (table_of slots)))) t p', slots') \<and>
    table_of slots' = snd (table_add ok t (table_of slots))"
  using solo_add_from [OF assms, of ok 0 "fst (table_add ok t (table_of slots))" "snd (table_add ok t (table_of slots))"]
  by (auto simp: table_add_def leads_def)

lemma sized_init: "sized (sh_slots sharing_init)" "table_of (sh_slots sharing_init) = table_reset"
  by (simp_all add: sized_def sharing_init_def table_of_def entry_of_def sl_trace_def table_reset_def empty_entry_def)

lemma table_add_reset: "fst (table_add (\<lambda>_. True) t table_reset)"
proof (rule ccontr)
  assume "\<not> fst (table_add (\<lambda>_. True) t table_reset)"
  then have "table_add (\<lambda>_. True) t table_reset = (False, snd (table_add (\<lambda>_. True) t table_reset))" by (simp add: prod_eq_iff)
  from table_add_full [OF wf_table_reset(1) this] show False
    by (simp add: table_reset_def empty_entry_def kMaxStackTraces_def)
qed

theorem undisturbed_add_sequential_witness:
  "\<exists>m p' slots'. solo (\<lambda>_. True) m (Adder AInc [CallFrame 12 256] 0, sh_slots sharing_init) =
      Some (Adder (ADone True) [CallFrame 12 256] p', slots')"
  using undisturbed_add_sequential [OF sized_init(1), of "[CallFrame 12 256]" "\<lambda>_. True"]
    table_add_reset [of "[CallFrame 12 256]"]
  by (auto simp: sized_init(2) kMaxFramesToCapture_def)

section \<open>Nothing is lost\<close>

lemma in_slots_nonneg: "0 \<le> in_slots t slots"
  unfolding in_slots_def by (rule sum_list_nonneg) (auto simp: value_in_def)

lemma in_hand_nonneg: "extract_ok x slots \<Longrightarrow> 0 \<le> in_hand t x slots"
  by (cases x) auto

text \<open>
  C35: however the calls of \<open>Add\<close> and the extraction interleave, the additions of a trace that
  took effect are the ones its slots count, the ones the extraction holds, and the ones
  extracted; in particular no trace is extracted that was not added, whole.
\<close>

theorem concurrent_additions_exact:
  assumes "share_reach s" "t \<noteq> []"
  shows "added t (sh_adders s) = in_slots t (sh_slots s) + in_hand t (sh_extract s) (sh_slots s)
      + dict_get_default (sh_taken s) t 0 \<and>
    (0 < dict_get_default (sh_taken s) t 0 \<longrightarrow> (\<exists>a \<in> set (sh_adders s). ad_trace a = t \<and> counted (ad_pc a)))"
proof -
  note d = sharing_okD [OF sharing_ok_reach [OF assms(1)]]
  have l: "added t (sh_adders s) = in_slots t (sh_slots s) + in_hand t (sh_extract s) (sh_slots s)
      + dict_get_default (sh_taken s) t 0"
    using d(5) [OF assms(2)] by (simp add: ledger_def)
  have "\<exists>a \<in> set (sh_adders s). ad_trace a = t \<and> counted (ad_pc a)" if "0 < added t (sh_adders s)"
    using that by (simp add: added_def num_pos)
  then show ?thesis using l in_slots_nonneg [of t "sh_slots s"] in_hand_nonneg [OF d(4), of t]
    by (cases "0 < added t (sh_adders s)") (auto simp: added_def)
qed

lemma solo_reach:
  "solo ok m (sh_adders s ! k, sh_slots s) = Some (a, slots) \<Longrightarrow> share_reach s \<Longrightarrow> k < length (sh_adders s) \<Longrightarrow>
    share_reach (s\<lparr>sh_adders := (sh_adders s)[k := a], sh_slots := slots\<rparr>)"
proof (induction m arbitrary: s)
  case 0
  then have "s\<lparr>sh_adders := (sh_adders s)[k := a], sh_slots := slots\<rparr> = s" by auto
  with 0 show ?case by simp
next
  case (Suc m)
  from Suc.prems(1) obtain a1 slots1
    where one: "adder_step (ok (ad_probe (sh_adders s ! k))) (sh_adders s ! k) (sh_slots s) = Some (a1, slots1)"
      and rest: "solo ok m (a1, slots1) = Some (a, slots)" by (auto split: option.splits)
  let ?s = "s\<lparr>sh_adders := (sh_adders s)[k := a1], sh_slots := slots1\<rparr>"
  have "run_adder (ok (ad_probe (sh_adders s ! k))) k s = Some ?s" using one by (simp add: run_adder_def)
  then have "share_reach ?s" by (rule share_reach_step [OF Suc.prems(2) share_step.Add [OF Suc.prems(3)]])
  from Suc.IH [of ?s, OF _ this] rest Suc.prems(3) show ?case by simp
qed

text \<open>The state after one addition that nothing disturbed, and its slot.\<close>

definition one_added :: "call_trace \<Rightarrow> slot \<Rightarrow> sharing" where
  "one_added t e = sharing_init\<lparr>sh_adders := [Adder (ADone True) t 0], sh_slots := (sh_slots sharing_init)[slot_index t 0 := e]\<rparr>"

lemma one_added_reachable:
  assumes "length t \<le> kMaxFramesToCapture"
  shows "\<exists>e. sl_count e = 1 \<and> sl_trace e = t \<and> share_reach (one_added t e)"
proof -
  let ?slots = "sh_slots sharing_init"
  have "sl_count (?slots ! slot_index t 0) = 0" using probe_less by (simp add: sharing_init_def)
  then obtain e where e: "leads (\<lambda>_. True) (Adder ALoad t 0, entered t 0 ?slots) (Adder (ADone True) t 0, ?slots[slot_index t 0 := e])"
    "entry_of e = \<lparr>e_frames = t, e_count = 1\<rparr>"
    using leads_reserve [where ok = "\<lambda>_. True" and p = 0, OF sized_init(1) assms] by auto
  have "leads (\<lambda>_. True) (Adder AInc t 0, ?slots) (Adder ALoad t 0, entered t 0 ?slots)"
    by (rule leads_enter) (simp add: kMaxStackTraces_def)
  from leads_trans [OF this e(1)] obtain m
    where "solo (\<lambda>_. True) m (Adder AInc t 0, ?slots) = Some (Adder (ADone True) t 0, ?slots[slot_index t 0 := e])"
    by (auto simp: leads_def)
  then have solo: "solo (\<lambda>_. True) m (sh_adders (start_adder t sharing_init) ! 0, sh_slots (start_adder t sharing_init)) =
      Some (Adder (ADone True) t 0, ?slots[slot_index t 0 := e])"
    by (simp add: start_adder_def sharing_init_def)
  have "share_reach (start_adder t sharing_init)" by (rule share_reach_step [OF share_reach_init share_step.Signal [OF assms]])
  from solo_reach [OF solo this] have "share_reach (one_added t e)"
    by (simp add: start_adder_def sharing_init_def one_added_def)
  then show ?thesis using e(2) by (auto simp: entry_of_def)
qed

theorem concurrent_additions_exact_witness:
  "\<exists>s. share_reach s \<and> added [CallFrame 12 256] (sh_adders s) = 1 \<and> in_slots [CallFrame 12 256] (sh_slots s) = 1"
proof -
  let ?t = "[CallFrame 12 256]"
  obtain e where r: "share_reach (one_added ?t e)"
    using one_added_reachable [of ?t] by (auto simp: kMaxFramesToCapture_def)
  have "added ?t (sh_adders (one_added ?t e)) = 1" by (simp add: added_def num_def one_added_def)
  with concurrent_additions_exact [OF r, of ?t] r show ?thesis
    by (intro exI [of _ "one_added ?t e"]) (simp add: one_added_def sharing_init_def dict_get_default_def)
qed

text \<open>
  When the extraction waits at a slot, the number of active updates it waits for is that of
  the additions which are at the slot, and there is one among them that can take its next step,
  whatever the extraction does.
\<close>

theorem extraction_waits_for_additions:
  assumes "share_reach s" "sh_extract s = XSpin i c frames" "run_extract s = s"
  shows "sl_active (sh_slots s ! i) = num (at_slot i is_active) (sh_adders s) \<and>
    (\<exists>k < length (sh_adders s). slot_of (sh_adders s ! k) = i \<and> is_active (ad_pc (sh_adders s ! k)) \<and>
      (\<forall>ok. run_adder ok k s \<noteq> None))"
proof -
  note d = sharing_okD [OF sharing_ok_reach [OF assms(1)]]
  have i: "i < kMaxStackTraces" using d(4) assms(2) by simp
  have a: "sl_active (sh_slots s ! i) = num (at_slot i is_active) (sh_adders s)"
    using d(2) [OF i] by (simp add: slot_ok_def)
  have "sl_active (sh_slots s ! i) \<noteq> 0"
  proof
    assume "sl_active (sh_slots s ! i) = 0"
    then have "sh_extract (run_extract s) = XStore i c frames" using assms(2) by (simp add: run_extract_def extract_step_def)
    then show False using assms(2,3) by simp
  qed
  then have "0 < num (at_slot i is_active) (sh_adders s)" using a num_nonneg [of "at_slot i is_active" "sh_adders s"] by simp
  then obtain k where k: "k < length (sh_adders s)" "at_slot i is_active (sh_adders s ! k)"
    unfolding num_pos by (metis in_set_conv_nth)
  have "access ok b e \<noteq> None" if "is_active (ad_pc b)" for ok b e
    using that by (auto simp: access_def Let_def split: apc.split)
  then have "run_adder ok k s \<noteq> None" for ok
    using k(2) by (auto simp: run_adder_def adder_step_def at_slot_def split: option.splits)
  then show ?thesis using a k by (auto simp: at_slot_def)
qed

lemma reach_extract: "share_reach s \<Longrightarrow> run_extract s = s' \<Longrightarrow> share_reach s'"
  using share_reach_step share_step.Extract by blast

lemma reach_load:
  assumes "share_reach s" "sh_extract s = XIdle" "\<And>i. i < j \<Longrightarrow> sl_count (sh_slots s ! i) \<le> 0"
  shows "j < kMaxStackTraces \<Longrightarrow> share_reach (s\<lparr>sh_extract := XLoad j\<rparr>)"
  using assms(3)
proof (induction j)
  case 0
  show ?case by (rule reach_extract [OF assms(1)]) (simp add: run_extract_def extract_step_def assms(2))
next
  case (Suc j)
  have r: "share_reach (s\<lparr>sh_extract := XLoad j\<rparr>)" using Suc by simp
  show ?case
    by (rule reach_extract [OF r]) (use Suc.prems in \<open>simp add: run_extract_def extract_step_def next_slot_def\<close>)
qed

text \<open>
  A schedule in which the extraction waits: one trace is in the table, and a second addition of
  it has just entered.
\<close>

definition second_entered :: "call_trace \<Rightarrow> slot \<Rightarrow> xpc \<Rightarrow> sharing" where
  "second_entered t e x = sharing_init\<lparr>sh_adders := [Adder (ADone True) t 0, Adder ALoad t 0],
     sh_slots := (sh_slots sharing_init)[slot_index t 0 := e], sh_extract := x\<rparr>"

lemma second_entered_reachable:
  assumes "share_reach (one_added t e)" "length t \<le> kMaxFramesToCapture"
  shows "share_reach (second_entered t (e\<lparr>sl_active := sl_active e + 1\<rparr>) XIdle)"
proof -
  let ?s = "start_adder t (one_added t e)"
  have len: "length (sh_slots sharing_init) = kMaxStackTraces" "length (sh_adders ?s) = 2"
    by (simp_all add: sharing_init_def start_adder_def one_added_def)
  have "share_reach ?s" by (rule share_reach_step [OF assms(1) share_step.Signal [OF assms(2)]])
  moreover have "run_adder True 1 ?s = Some (second_entered t (e\<lparr>sl_active := sl_active e + 1\<rparr>) XIdle)"
    using len(1) probe_less [of "CalculateHash t" 0]
    by (simp add: run_adder_def adder_step_def access_def slot_of_def start_adder_def one_added_def second_entered_def
        sharing_init_def kMaxStackTraces_def)
  ultimately show ?thesis using share_reach_step share_step.Add [of 1 ?s True] len(2) by auto
qed

lemma waiting_reachable:
  "\<exists>s i frames. share_reach s \<and> sh_extract s = XSpin i 1 frames \<and> run_extract s = s"
proof -
  let ?f = "CallFrame 12 256"
  let ?i = "slot_index [?f] 0"
  let ?S = "second_entered [?f]"
  have i: "?i < length (sh_slots sharing_init)" using probe_less by (simp add: sharing_init_def)
  have frames: "length [?f] \<le> kMaxFramesToCapture" by (simp add: kMaxFramesToCapture_def)
  then obtain e where e: "sl_count e = 1" "sl_trace e = [?f]" "share_reach (one_added [?f] e)"
    using one_added_reachable by blast
  have "slot_ok ?i e [Adder (ADone True) [?f] 0] XIdle"
    using sharing_okD(2) [OF sharing_ok_reach [OF e(3)], of ?i] probe_less i by (simp add: one_added_def sharing_init_def)
  then have act: "0 \<le> sl_active e" and len: "length (sl_trace e) = sl_num e"
    using num_nonneg by (simp_all add: slot_ok_def sl_trace_def)
  have n1: "sl_num e = 1" using len unfolding e(2) by simp
  have "sl_trace e ! 0 = sl_buffer e ! 0" by (simp add: sl_trace_def n1)
  with n1 have n: "sl_num e = 1" "sl_buffer e ! 0 = ?f" by (simp_all add: e(2))
  let ?e = "e\<lparr>sl_active := sl_active e + 1\<rparr>"
  let ?e1 = "?e\<lparr>sl_count := -1\<rparr>"
  note run = run_extract_def extract_step_def second_entered_def
  have "share_reach ((?S ?e XIdle)\<lparr>sh_extract := XLoad ?i\<rparr>)"
    by (rule reach_load [OF second_entered_reachable [OF e(3) frames] _ _ probe_less])
      (use i in \<open>simp_all add: second_entered_def sharing_init_def\<close>)
  then have "share_reach (?S ?e (XLoad ?i))" by (simp add: second_entered_def)
  then have "share_reach (?S ?e (XNum ?i))" by (rule reach_extract) (simp add: run i e(1))
  then have "share_reach (?S ?e (XLock ?i 1))" by (rule reach_extract) (simp add: run i n kMaxFramesToCapture_def)
  then have "share_reach (?S ?e1 (XCopy ?i 1 1 []))" by (rule reach_extract) (simp add: run i e(1) kTraceCountLocked_def)
  then have "share_reach (?S ?e1 (XCopyCode ?i 1 1 [] 12))" by (rule reach_extract) (simp add: run i n)
  then have "share_reach (?S ?e1 (XCopy ?i 1 1 [?f]))" by (rule reach_extract) (simp add: run i n)
  then have "share_reach (?S ?e1 (XSpin ?i 1 [?f]))" by (rule reach_extract) (simp add: run i)
  moreover have "run_extract (?S ?e1 (XSpin ?i 1 [?f])) = ?S ?e1 (XSpin ?i 1 [?f])"
    using act by (simp add: run i)
  moreover have "sh_extract (?S ?e1 (XSpin ?i 1 [?f])) = XSpin ?i 1 [?f]" by (simp add: second_entered_def)
  ultimately show ?thesis by blast
qed

theorem extraction_waits_for_additions_witness:
  "\<exists>s i frames. share_reach s \<and> sh_extract s = XSpin i 1 frames \<and>
    (\<exists>k < length (sh_adders s). slot_of (sh_adders s ! k) = i \<and> (\<exists>s'. run_adder True k s = Some s'))"
proof -
  obtain s i frames where s: "share_reach s" "sh_extract s = XSpin i 1 frames" "run_extract s = s"
    using waiting_reachable by blast
  from extraction_waits_for_additions [OF this] obtain k
    where "k < length (sh_adders s)" "slot_of (sh_adders s ! k) = i" "run_adder True k s \<noteq> None" by blast
  with s show ?thesis by blast
qed

end
