(* ===== verification/NativeFork.thy ===== *)
theory NativeFork
  imports NativeProfiler
begin

text \<open>
  The fork handlers of the native CPU profiler: \<open>BlockSigprof\<close> and \<open>UnblockSigprof\<close> of
  \<open>profiler.cc\<close>, and their registration by the constructor of \<open>CPUProfiler\<close> in \<open>profiler.h\<close>. A
  signal mask is the set of the signals a thread blocks.
\<close>

type_synonym sigmask = "int set"

definition SIGPROF :: int where
  "SIGPROF = 27"

definition BlockSigprof :: "sigmask \<Rightarrow> sigmask" where
  "BlockSigprof blocked = insert SIGPROF blocked"

definition UnblockSigprof :: "sigmask \<Rightarrow> sigmask" where
  "UnblockSigprof blocked = blocked - {SIGPROF}"

section \<open>The process\<close>

record atfork =
  af_prepare :: "sigmask \<Rightarrow> sigmask"
  af_parent :: "sigmask \<Rightarrow> sigmask"
  af_child :: "sigmask \<Rightarrow> sigmask"

record process =
  pr_fork_handlers_registered :: bool
  pr_atfork :: "atfork list"

text \<open>The constructor: the object is fresh, the handlers are registered once per process.\<close>

definition CPUProfiler_new :: "process \<Rightarrow> native \<times> process" where
  "CPUProfiler_new pr =
     (Profiler_init,
      if \<not> pr_fork_handlers_registered pr
      then pr\<lparr>pr_atfork := pr_atfork pr @ [\<lparr>af_prepare = BlockSigprof, af_parent = UnblockSigprof, af_child = UnblockSigprof\<rparr>],
        pr_fork_handlers_registered := True\<rparr>
      else pr)"

text \<open>
  \<open>fork\<close> in a thread: the prepare handlers run last registered first, the others in the order
  of registration, in the parent and in the child. The masks are those during the call, after
  it in the parent, and in the child, which starts from the mask of the caller.
\<close>

definition fork_masks :: "process \<Rightarrow> sigmask \<Rightarrow> sigmask \<times> sigmask \<times> sigmask" where
  "fork_masks pr blocked =
     (let during = fold af_prepare (rev (pr_atfork pr)) blocked
      in (during, fold af_parent (pr_atfork pr) during, fold af_child (pr_atfork pr) during))"

definition fresh_process :: process where
  "fresh_process = \<lparr>pr_fork_handlers_registered = False, pr_atfork = []\<rparr>"

section \<open>Properties\<close>

definition constructions :: "nat \<Rightarrow> process \<Rightarrow> process" where
  "constructions n = (\<lambda>pr. snd (CPUProfiler_new pr)) ^^ n"

lemma registered_once:
  "constructions (Suc n) fresh_process = snd (CPUProfiler_new fresh_process)"
  by (induction n) (simp_all add: constructions_def CPUProfiler_new_def fresh_process_def)

text \<open>
  However many profilers a process has constructed, a fork runs with \<open>SIGPROF\<close> blocked and leaves
  every other signal alone; afterwards the signal is unblocked in both processes, also when the
  application had blocked it.
\<close>

theorem fork_not_sampled:
  "fork_masks (constructions (Suc n) fresh_process) blocked =
    (insert SIGPROF blocked, blocked - {SIGPROF}, blocked - {SIGPROF})"
  unfolding registered_once
  by (auto simp: CPUProfiler_new_def fresh_process_def fork_masks_def BlockSigprof_def UnblockSigprof_def)

end
