(* ===== verification/Spec2Isabelle.thy ===== *)
theory Spec2Isabelle
  imports BuilderSpec Backoff WallSpec WallRefine EndToEnd AgentRace ClientHttp Setup NativeRaceSpec
    NativeLog NativeFork
begin

text \<open>
  A verification development for the Cloud Profiler agent for Python.

  \<^bold>\<open>The program.\<close> \<open>googlecloudprofiler.start\<close> (\<open>__init__.py\<close>) checks its arguments, makes a client
  and starts it, once per process. The client (\<open>client.py\<close>) finds credentials, project, service
  and deployment labels, registers the wall profiler's signal handler, and starts one polling
  thread. The thread asks the server for a profile to collect, waits as \<open>backoff.py\<close> says when that
  fails, runs the profiler of the type the server chose, and uploads the encoded bytes. The
  wall profiler (\<open>pythonprofiler.py\<close>) samples the main thread with an interval timer whose signal
  handler is Python code; the CPU profiler (\<open>cpu_profiler.py\<close>) calls the native extension
  (\<open>src/*.cc\<close>), whose signal handler walks the interpreter's frames and adds the stack to a
  table that is emptied by the collecting thread. Both turn their counted traces into a
  \<open>profile.proto\<close> message with \<open>builder.py\<close>. \<open>setup.py\<close> builds the package.

  \<^bold>\<open>Theories.\<close> Every definition has the name of the function, method, class or constant it
  models where Isabelle allows it; methods are state transformers that may raise (type \<open>py\<close> of
  theory \<open>Prelude\<close>: an exception keeps the assignments made before it), and a Python dictionary
  is an association list in insertion order.

  \<^item> \<open>Prelude\<close>: exceptions, methods, dictionaries, and the lemmas that carry the component proofs;
    \<open>Steps\<close>: reachable states and the contract \<open>step_invariant\<close>, interpreted on the three interleavings.
  \<^item> \<open>ProfileProto\<close>, \<open>Interning\<close>, \<open>Builder\<close>: \<open>builder.py\<close> and the messages of \<open>profile_pb2.py\<close>. The
    three interning tables share the contract \<open>intern_table\<close>, a locale that is interpreted on each
    of them in \<open>BuilderLemmas\<close>. \<open>BuilderReader\<close> is the reader's side of a profile; \<open>BuilderCorrect\<close>
    (what is stored reads back), \<open>BuilderFits\<close> (when a store raises) and \<open>BuilderSpec\<close> hold the
    results.
  \<^item> \<open>PyFloat\<close>, \<open>Json\<close>, \<open>PyRegex\<close>, \<open>Base64\<close>: what the code uses of Python: floats with correct rounding,
    decoded JSON values, backtracking regular expressions, the encoding of the upload.
  \<^item> \<open>Backoff\<close>: \<open>backoff.py\<close>, with the waiting time of every error and the exact envelope.
  \<^item> \<open>WallProfiler\<close>, \<open>WallCorrect\<close>, \<open>WallSpec\<close>: \<open>pythonprofiler.py\<close> with whole runs of the handler;
    \<open>WallSteady\<close>: what every use of the profiler keeps, on each path; \<open>WallRace\<close>, \<open>WallRaceSpec\<close>: the
    handler's statements interleaved with the polling thread's; \<open>WallRefine\<close>: the simulation of the
    interleaving by the model with whole handlers.
  \<^item> \<open>CpuProfiler\<close>: \<open>cpu_profiler.py\<close>.
  \<^item> \<open>ServiceName\<close>, \<open>Client\<close>, \<open>ClientPoll\<close>, \<open>ClientHttp\<close>, \<open>ClientSpec\<close>: \<open>client.py\<close>, its configuration, the
    polling thread as a state machine, the request class and the log filter; \<open>ClientRun\<close>: the
    polling thread with profilers in it, under the contract \<open>profiler_interface\<close> of what it relies
    on; \<open>ClientReal\<close>: the contract interpreted on the program's two profilers.
  \<^item> \<open>Agent\<close>: \<open>__init__.py\<close>. \<open>Setup\<close>: \<open>setup.py\<close>. \<open>EndToEnd\<close>: the entry point, the polling thread it starts,
    the two profilers and the native collection composed. \<open>AgentRace\<close>: calls of \<open>start\<close> that overlap.
  \<^item> \<open>NativeClock\<close> (\<open>clock.cc\<close>, \<open>clock.h\<close>), \<open>NativeTraces\<close> (\<open>stacktraces.cc\<close>, one operation after the
    other), \<open>NativeRace\<close> (the same table, every shared access of concurrent additions and of the
    extraction a step), \<open>NativeFrames\<close> (\<open>populate_frames.cc\<close>, its four variants, with the contract
    \<open>frame_reader\<close> of what a variant reports), \<open>NativeLog\<close> (\<open>log.cc\<close>), \<open>NativeProfiler\<close>
    (\<open>profiler.cc\<close> with its report of a refused timer, \<open>_profiler.cc\<close> with the conversion of its
    arguments), \<open>NativeFork\<close> (the fork handlers); \<open>NativeCorrect\<close>, \<open>NativeSpec\<close> and \<open>NativeRaceSpec\<close>
    hold the results.

  \<^bold>\<open>What is shown.\<close>
  \<^item> End to end, from a successful call of \<open>start\<close> on, with the native collection inside: whatever
    is uploaded is a response of the server with the encoding of a valid profile of the
    requested type, period and duration added, whose samples are what one collection gathered (C1);
    the polling thread goes on for ever, each collection that the server asks for returning once
    the clock of its step has passed the end of its duration (C2); and an uploaded CPU profile
    counts the signals of a collection (C3).
  \<^item> The builder: what is stored reads back, the profile is valid, and an exception
    comes exactly from a number that does not fit (C4 to C6).
  \<^item> The wait after each kind of error, when the envelope is full, and that the server's delay is
    respected whatever else its error says (C7 to C9).
  \<^item> The wall profiler: what a signal counts, how ticks relate to elapsed time, that a run
    returns and covers every period (C10 to C15), and that a duration that cannot be slept
    leaves it running (C16). Under interleaving, the sample time is protected (C27); \<open>profile\<close>
    returns or raises what it does with handlers that run as one step, for every order of the
    statements except those in which the wait ends while a handler stands between testing the
    flags and setting its own (C28); and there a sample is lost, or the iteration over the
    traces raises (C29). With an atomic guard nothing is excluded
    (\<open>WallRefine.atomic_guard_refines\<close>, \<open>WallRaceSpec.atomic_guard_no_overlap\<close>).
  \<^item> The client: the language of the service name, the outcome of configuration and start, the
    request, the two ways in which the polling thread can end, and
    the relation of uploads to creations (C17 to C23); that nothing else ends the thread,
    whatever the profilers are, is \<open>ClientSpec.polling_survives\<close>, what a single collection
    uploads is \<open>ClientSpec.collected_profile_uploaded\<close>, and the headers of its requests
    and the log filter are in \<open>ClientHttp\<close>. The outcome of \<open>start\<close> (C24), one polling thread per
    process and later calls without effect (C25), as long as calls of \<open>start\<close> do not overlap (C26).
  \<^item> The build script: the version it reads (C30) and the outcome of the script.
  \<^item> The native extension: times that are not carried over and the sleep that never ends
    (C31, C32); the tables refine multisets, also under concurrency, and nothing is lost (C33 to
    C36); what the frame walk gives and when it does not come back (C37, C38); the reported
    lines (C39); the arguments that the logging wrappers lose (C40); that a collection counts the
    signals, whatever calls it (\<open>NativeSpec.cpu_profile_counts_signals\<close>), and that forks are not
    sampled (\<open>NativeFork.fork_not_sampled\<close>).

  \<^bold>\<open>Parameters.\<close> What is not in the repository is an argument of the definitions that use it:
  the protocol buffer runtime's checked store, serializer and gzip (\<open>pb_runtime\<close>), the host with
  its environment, metadata server and credential libraries (\<open>host\<close>), the answers of the server,
  the random draws and the parser of durations (\<open>answers\<close>, \<open>parser\<close>), clock readings, the
  arrival of signals and the interrupted frames, the process memory seen by the native handler
  (\<open>memory\<close>), the interpreter's line table, whether a weak exchange fails spuriously, the texts of the files and of the error numbers, and
  whether Python's logging module can be used. The only
  assumption about them is that the runtime accepts exactly the numbers in a field's range
  (\<open>runtime_ok\<close>); the documented results of \<open>time.sleep\<close>, \<open>setitimer\<close> and \<open>clock_nanosleep\<close> are
  written out in their models.

  \<^bold>\<open>Bounds and termination.\<close> Recursions are structural, or by a measure (the probes that are left
  in the fixed table). Loops of the code that may not end are \<open>partial_function (option)\<close>, where
  \<open>None\<close> is not returning: the two frame walks and the absolute sleep; that they return, and
  when, is stated (C2, C32, C37, C38). The wall profiler's loop and the collection consume a list
  of clock readings and signals; that the list suffices is part of the statements. The polling
  thread makes one attempt per step and its statements hold for every number of steps; a step
  whose profiler does not return has no result, and C2 shows that there is no such step once
  the clock passes the end of each collection.
  Undefined behaviour of the extension is \<open>None\<close> as well: the report of a refused timer formats
  its argument through a lost \<open>va_list\<close> (C40), so C2 asks for a period of at most 2147483
  milliseconds, which \<open>setitimer\<close> accepts after the conversions to 64 and 32 bits.
  Counters of samples, the fields of a \<open>timespec\<close> and Python's integers are unbounded integers;
  hashes, addresses, line numbers, the arguments of \<open>profile_cpu\<close>, the period of its timer and
  the bytes of a profile have their width. Floats have no infinities or NaN, which the agent's
  quantities do not reach.

  \<^bold>\<open>Not modelled.\<close> The Python log messages (output only); reference counting and allocation
  failures of the extension (no effect on what is collected); the generated descriptor code of
  \<open>profile_pb2.py\<close> beyond the message layout; what \<open>setuptools\<close> does with the arguments of \<open>setup\<close>,
  and the continuous integration scripts. The steps of \<open>NativeRace\<close> and
  \<open>WallRace\<close> take effect in one order that all threads see: weaker orders, which the atomic
  operations with relaxed order could give on some machines, are left out.
\<close>

end
